(* ===== verification/Prelude.thy ===== *)
theory Prelude
  imports Main "HOL-Library.Sublist" "HOL-Library.Multiset"
begin

text \<open>
  Shared vocabulary of the development: the types that name identifiers and
  timestamps, the Python string builtins the verification code calls
  (\<open>str.lower\<close>, \<open>str.endswith\<close>, the truthiness of \<open>str | None\<close> and
  the \<open>x or default\<close> idiom), and the generic list lemmas that the store and
  endpoint proofs share. The collection \<open>model_simps\<close> gathers the equations
  that evaluate the model on a concrete request.
\<close>

named_theorems model_simps "equations that evaluate the model on concrete inputs"

type_synonym timestamp = int
  \<comment> \<open>microseconds since the Unix epoch, UTC (Python's aware \<open>datetime\<close>)\<close>

type_synonym ident = nat
  \<comment> \<open>a primary key of the database (autoincrement integer)\<close>

subsection \<open>Python string builtins\<close>

definition py_lower_char :: "char \<Rightarrow> char" where
  "py_lower_char c =
     (let n = (of_char c :: nat) in if 65 \<le> n \<and> n \<le> 90 then char_of (n + 32) else c)"

definition py_lower :: "string \<Rightarrow> string" where
  "py_lower s = map py_lower_char s"

definition py_endswith :: "string \<Rightarrow> string \<Rightarrow> bool" where
  "py_endswith s suf \<longleftrightarrow> drop (length s - length suf) s = suf"

fun py_truthy :: "string option \<Rightarrow> bool" where
  "py_truthy None = False"
| "py_truthy (Some s) = (s \<noteq> [])"

fun py_or :: "string option \<Rightarrow> string \<Rightarrow> string" where
  "py_or None d = d"
| "py_or (Some s) d = (if s = [] then d else s)"

declare py_lower_def [model_simps] py_lower_char_def [model_simps]
  py_endswith_def [model_simps]

subsection \<open>Lemmas on the builtins\<close>

lemma length_py_lower [simp]: "length (py_lower s) = length s"
  by (simp add: py_lower_def)

lemma py_lower_append [simp]: "py_lower (xs @ ys) = py_lower xs @ py_lower ys"
  by (simp add: py_lower_def)

lemma py_lower_Nil [simp]: "py_lower [] = []"
  by (simp add: py_lower_def)

lemma py_lower_char_idem [simp]: "py_lower_char (py_lower_char c) = py_lower_char c"
  by (simp add: py_lower_char_def Let_def)

lemma py_lower_idem [simp]: "py_lower (py_lower s) = py_lower s"
  by (simp add: py_lower_def comp_def)

lemma py_endswith_iff_suffix: "py_endswith s suf \<longleftrightarrow> suffix suf s"
proof
  assume "py_endswith s suf"
  then have "s = take (length s - length suf) s @ suf"
    unfolding py_endswith_def by (metis append_take_drop_id)
  then show "suffix suf s" unfolding suffix_def by blast
next
  assume "suffix suf s"
  then obtain p where "s = p @ suf" unfolding suffix_def by blast
  then show "py_endswith s suf" by (simp add: py_endswith_def)
qed

lemma py_or_truthy: "py_truthy n \<Longrightarrow> py_or n d = the n"
  by (cases n) auto

lemma py_or_falsy: "\<not> py_truthy n \<Longrightarrow> py_or n d = d"
  by (cases n) auto

subsection \<open>Lists updated by key\<close>

text \<open>
  A table is a list of rows; an \<open>UPDATE \<dots> WHERE key = k\<close> rewrites the rows
  whose key is \<open>k\<close>. These lemmas are shared by the store and by the system
  invariants.
\<close>

lemma map_if_key_id [simp]:
  "k \<notin> set (map key xs) \<Longrightarrow> map (\<lambda>w. if key w = k then f w else w) xs = xs"
  by (induction xs) auto

lemma map_key_map_if_key:
  "(\<And>w. key (f w) = key w) \<Longrightarrow>
   map key (map (\<lambda>w. if key w = k then f w else w) xs) = map key xs"
  by (induction xs) auto

lemma filter_map_if_key:
  "(\<And>w. P (f w) = P w) \<Longrightarrow>
   length (filter P (map (\<lambda>w. if key w = k then f w else w) xs)) = length (filter P xs)"
  by (induction xs) auto

lemma find_key_split:
  "distinct (map key xs) \<Longrightarrow> find (\<lambda>v. key v = i) xs = Some v \<Longrightarrow>
   \<exists>ys zs. xs = ys @ v # zs \<and> i \<notin> set (map key ys) \<and> i \<notin> set (map key zs) \<and> key v = i"
proof (induction xs)
  case Nil
  then show ?case by simp
next
  case (Cons x xs)
  show ?case
  proof (cases "key x = i")
    case True
    with Cons.prems show ?thesis by (intro exI [of _ "[]"] exI [of _ xs]) auto
  next
    case False
    with Cons.prems obtain ys zs where "xs = ys @ v # zs" "i \<notin> set (map key ys)"
      "i \<notin> set (map key zs)" "key v = i"
      using Cons.IH by auto
    with False show ?thesis by (intro exI [of _ "x # ys"] exI [of _ zs]) auto
  qed
qed

lemma list_all_map_if:
  "(\<And>v. Q (f v) = Q v) \<Longrightarrow> list_all Q (map (\<lambda>v. if P v then f v else v) xs) = list_all Q xs"
  by (induction xs) auto

lemma find_append_None: "find P xs = None \<Longrightarrow> find P (xs @ ys) = find P ys"
  by (induction xs) auto

lemma find_append_case: "find P (xs @ ys) = (case find P xs of None \<Rightarrow> find P ys | Some x \<Rightarrow> Some x)"
  by (induction xs) auto

lemma find_key_mem:
  "distinct (map key xs) \<Longrightarrow> x \<in> set xs \<Longrightarrow> find (\<lambda>v. key v = key x) xs = Some x"
  by (induction xs) (auto simp: image_iff)

end
