(* ===== verification/Verification_Model.thy ===== *)
theory Verification_Model
  imports Prelude
begin

text \<open>
  The ORM entity of \<open>src/backend/models/rom_verification.py\<close>: the status enum
  \<open>VerificationStatus\<close>, the row \<open>RomVerification\<close> as a record, the default
  deadline (the \<open>expires_at\<close> column default), the two properties
  \<open>is_expired\<close> and \<open>can_verify\<close>, and the three mutators
  \<open>verify_ownership\<close>, \<open>reject_verification\<close> and \<open>mark_expired\<close>.
  The keyword arguments of the constructor and of SQLAlchemy's
  \<open>update(...).values(**data)\<close> are a list of field assignments
  (\<open>verification_field\<close>), applied left to right as a Python dict is.
  Lemmas: the deadline lies on the creation day and never before creation;
  \<open>can_verify\<close> is a pending status and a clock not past the deadline; what
  each mutator writes and what it leaves alone.
\<close>

subsection \<open>The entity\<close>

datatype verification_status = PENDING | VERIFIED | REJECTED | EXPIRED

fun status_value :: "verification_status \<Rightarrow> string" where
  "status_value PENDING = ''pending''"
| "status_value VERIFIED = ''verified''"
| "status_value REJECTED = ''rejected''"
| "status_value EXPIRED = ''expired''"

record rom_verification =
  ver_id :: ident
  rom_id :: ident
  user_id :: ident
  status :: verification_status
  uploaded_file_name :: string
  uploaded_file_size :: nat
  uploaded_md5_hash :: string
  uploaded_sha1_hash :: string
  verification_notes :: "string option"
  verified_at :: "timestamp option"
  verified_by :: "ident option"
  expires_at :: timestamp
  created_at :: timestamp

text \<open>
  The attribute defaults of the mapped columns (\<open>status\<close> PENDING, file size 0,
  review fields None). Identity, deadline and creation time are filled in by
  the insert (\<open>Verification_Store.add_verification\<close>); the other fields are
  always passed by the caller.
\<close>

definition blank_verification :: rom_verification where
  "blank_verification =
     \<lparr>ver_id = 0, rom_id = 0, user_id = 0, status = PENDING,
      uploaded_file_name = [], uploaded_file_size = 0,
      uploaded_md5_hash = [], uploaded_sha1_hash = [],
      verification_notes = None, verified_at = None, verified_by = None,
      expires_at = 0, created_at = 0\<rparr>"

subsection \<open>Keyword arguments: field assignments\<close>

datatype verification_field =
    Set_rom_id ident
  | Set_user_id ident
  | Set_status verification_status
  | Set_uploaded_file_name string
  | Set_uploaded_file_size nat
  | Set_uploaded_md5_hash string
  | Set_uploaded_sha1_hash string
  | Set_verification_notes "string option"
  | Set_verified_at "timestamp option"
  | Set_verified_by "ident option"

type_synonym verification_data = "verification_field list"

fun set_field :: "verification_field \<Rightarrow> rom_verification \<Rightarrow> rom_verification" where
  "set_field (Set_rom_id x) v = v\<lparr>rom_id := x\<rparr>"
| "set_field (Set_user_id x) v = v\<lparr>user_id := x\<rparr>"
| "set_field (Set_status x) v = v\<lparr>status := x\<rparr>"
| "set_field (Set_uploaded_file_name x) v = v\<lparr>uploaded_file_name := x\<rparr>"
| "set_field (Set_uploaded_file_size x) v = v\<lparr>uploaded_file_size := x\<rparr>"
| "set_field (Set_uploaded_md5_hash x) v = v\<lparr>uploaded_md5_hash := x\<rparr>"
| "set_field (Set_uploaded_sha1_hash x) v = v\<lparr>uploaded_sha1_hash := x\<rparr>"
| "set_field (Set_verification_notes x) v = v\<lparr>verification_notes := x\<rparr>"
| "set_field (Set_verified_at x) v = v\<lparr>verified_at := x\<rparr>"
| "set_field (Set_verified_by x) v = v\<lparr>verified_by := x\<rparr>"

definition set_fields :: "verification_data \<Rightarrow> rom_verification \<Rightarrow> rom_verification" where
  "set_fields data v = fold set_field data v"

text \<open>\<open>RomVerification(**data)\<close>: a transient object, not yet in the table.\<close>

definition new_verification :: "verification_data \<Rightarrow> rom_verification" where
  "new_verification data = set_fields data blank_verification"

subsection \<open>Deadline and the two properties\<close>

definition us_per_second :: int where
  "us_per_second = 1000000"

definition us_per_day :: int where
  "us_per_day = 86400 * us_per_second"

text \<open>
  \<open>datetime.now(timezone.utc).replace(hour=23, minute=59, second=59)\<close>:
  the start of the UTC day, plus 23:59:59, plus the microseconds of the
  current time, which \<open>replace\<close> keeps.
\<close>

definition default_expires_at :: "timestamp \<Rightarrow> timestamp" where
  "default_expires_at now =
     now - now mod us_per_day + 86399 * us_per_second + now mod us_per_second"

definition is_expired :: "timestamp \<Rightarrow> rom_verification \<Rightarrow> bool" where
  "is_expired now v \<longleftrightarrow> now > expires_at v"

definition can_verify :: "timestamp \<Rightarrow> rom_verification \<Rightarrow> bool" where
  "can_verify now v \<longleftrightarrow> status v = PENDING \<and> \<not> is_expired now v"

subsection \<open>Mutators\<close>

definition verify_ownership ::
  "timestamp \<Rightarrow> ident \<Rightarrow> string option \<Rightarrow> rom_verification \<Rightarrow> rom_verification" where
  "verify_ownership now verifier_user_id notes v =
     v\<lparr>status := VERIFIED, verified_at := Some now, verified_by := Some verifier_user_id,
       verification_notes := notes\<rparr>"

definition reject_verification ::
  "timestamp \<Rightarrow> ident \<Rightarrow> string option \<Rightarrow> rom_verification \<Rightarrow> rom_verification" where
  "reject_verification now verifier_user_id notes v =
     v\<lparr>status := REJECTED, verified_at := Some now, verified_by := Some verifier_user_id,
       verification_notes := notes\<rparr>"

definition mark_expired :: "rom_verification \<Rightarrow> rom_verification" where
  "mark_expired v = v\<lparr>status := EXPIRED\<rparr>"

lemmas verification_mutators [model_simps] =
  verify_ownership_def reject_verification_def mark_expired_def

declare is_expired_def [model_simps] can_verify_def [model_simps]
  default_expires_at_def [model_simps] us_per_day_def [model_simps]
  us_per_second_def [model_simps] set_fields_def [model_simps]
  new_verification_def [model_simps] blank_verification_def [model_simps]

subsection \<open>The deadline lies on the creation day\<close>

lemma mod_day_mod_second: "(t::int) mod us_per_day mod us_per_second = t mod us_per_second"
  by (simp add: us_per_day_def us_per_second_def mod_mod_cancel)

lemma default_expires_at_split:
  "default_expires_at t = us_per_day * (t div us_per_day) + (86399 * us_per_second + t mod us_per_second)"
proof -
  have "t = us_per_day * (t div us_per_day) + t mod us_per_day" by simp
  then show ?thesis unfolding default_expires_at_def by linarith
qed

lemma time_of_day_bound: "0 \<le> 86399 * us_per_second + t mod us_per_second \<and> 86399 * us_per_second + t mod us_per_second < us_per_day"
proof -
  have "0 \<le> t mod us_per_second" "t mod us_per_second < us_per_second" by (simp_all add: us_per_second_def)
  then show ?thesis by (simp add: us_per_day_def us_per_second_def)
qed

lemma default_expires_at_same_day:
  "default_expires_at t div us_per_day = t div us_per_day \<and>
   default_expires_at t mod us_per_day = 86399 * us_per_second + t mod us_per_second"
proof -
  let ?r = "86399 * us_per_second + t mod us_per_second"
  have r: "0 \<le> ?r" "?r < us_per_day" using time_of_day_bound by blast+
  have "default_expires_at t = ?r + us_per_day * (t div us_per_day)"
    by (simp add: default_expires_at_split)
  with r show ?thesis by (simp add: div_pos_pos_trivial mod_pos_pos_trivial)
qed

lemma default_expires_at_ge: "t \<le> default_expires_at t"
proof -
  let ?h = "t mod us_per_day" and ?q = "t mod us_per_day div us_per_second"
  have eq: "?h = us_per_second * ?q + t mod us_per_second"
    using mod_day_mod_second [of t] by (metis mult_div_mod_eq)
  have "?h < 86400 * us_per_second" "0 \<le> t mod us_per_second"
    by (simp_all add: us_per_day_def us_per_second_def)
  with eq have "us_per_second * ?q < us_per_second * 86400" by linarith
  then have "?q \<le> 86399" by (simp add: us_per_second_def)
  then have "us_per_second * ?q \<le> 86399 * us_per_second"
    by (simp add: us_per_second_def)
  with eq have "?h \<le> 86399 * us_per_second + t mod us_per_second" by linarith
  then show ?thesis unfolding default_expires_at_def by linarith
qed

text \<open>
  C9: the default deadline is never before the creation time, falls on the
  same UTC day, and is 23:59:59 of that day plus the microseconds of the
  creation time (the spec says 23:59:59; \<open>replace\<close> keeps the microsecond
  field).
\<close>

theorem default_expires_at_on_creation_day:
  "t \<le> default_expires_at t \<and>
   default_expires_at t div us_per_day = t div us_per_day \<and>
   default_expires_at t mod us_per_day = 86399 * us_per_second + t mod us_per_second"
  using default_expires_at_ge default_expires_at_same_day by blast

subsection \<open>The two properties\<close>

lemma can_verify_iff: "can_verify now v \<longleftrightarrow> status v = PENDING \<and> now \<le> expires_at v"
  by (auto simp: can_verify_def is_expired_def)

lemma pending_is_expired_iff:
  "status v = PENDING \<Longrightarrow> is_expired now v \<longleftrightarrow> \<not> can_verify now v"
  by (simp add: can_verify_def)

subsection \<open>What the mutators write\<close>

lemma set_fields_append [simp]: "set_fields (xs @ ys) v = set_fields ys (set_fields xs v)"
  by (simp add: set_fields_def)

lemma set_fields_Cons [simp]: "set_fields (x # xs) v = set_fields xs (set_field x v)"
  by (simp add: set_fields_def)

lemma set_fields_Nil [simp]: "set_fields [] v = v"
  by (simp add: set_fields_def)

lemma verify_ownership_fields [simp]:
  "status (verify_ownership now u n v) = VERIFIED"
  "verified_at (verify_ownership now u n v) = Some now"
  "verified_by (verify_ownership now u n v) = Some u"
  "verification_notes (verify_ownership now u n v) = n"
  "ver_id (verify_ownership now u n v) = ver_id v"
  "rom_id (verify_ownership now u n v) = rom_id v"
  "user_id (verify_ownership now u n v) = user_id v"
  "expires_at (verify_ownership now u n v) = expires_at v"
  "created_at (verify_ownership now u n v) = created_at v"
  by (simp_all add: verify_ownership_def)

lemma reject_verification_fields [simp]:
  "status (reject_verification now u n v) = REJECTED"
  "verified_at (reject_verification now u n v) = Some now"
  "verified_by (reject_verification now u n v) = Some u"
  "verification_notes (reject_verification now u n v) = n"
  "ver_id (reject_verification now u n v) = ver_id v"
  "rom_id (reject_verification now u n v) = rom_id v"
  "user_id (reject_verification now u n v) = user_id v"
  "expires_at (reject_verification now u n v) = expires_at v"
  "created_at (reject_verification now u n v) = created_at v"
  by (simp_all add: reject_verification_def)

lemma set_field_keys [simp]:
  "ver_id (set_field f v) = ver_id v" "expires_at (set_field f v) = expires_at v"
  "created_at (set_field f v) = created_at v"
  by (cases f; simp)+

lemma set_fields_keys [simp]:
  "ver_id (set_fields d v) = ver_id v" "expires_at (set_fields d v) = expires_at v"
  "created_at (set_fields d v) = created_at v"
  by (induction d arbitrary: v) simp_all

end
