(* ===== verification/Verification_Store.thy ===== *)
theory Verification_Store
  imports Verification_Model
begin

text \<open>
  The table \<open>rom_verifications\<close> and the handler
  \<open>DBRomVerificationHandler\<close> of
  \<open>src/backend/handler/database/rom_verification_handler.py\<close>. The table is a
  list of rows in insertion order plus the autoincrement counter. The
  constraints of the migration \<open>0051_add_rom_verification.py\<close> are checked by
  the writes: the unique constraint on \<open>(rom_id, user_id)\<close> raises an
  \<open>IntegrityError\<close>, a string longer than its column a \<open>DataError\<close>, and
  \<open>.one()\<close> on an id that matches no row \<open>NoResultFound\<close>. Queries that
  order by \<open>created_at DESC\<close> are a stable sort on the negated creation time
  (the order of equal timestamps is not fixed by SQL; the model keeps table
  order). Each handler method runs in its own session (\<open>begin_session\<close>), so
  a method that raises leaves the table as it was.
\<close>

subsection \<open>The table\<close>

record verification_db =
  rows :: "rom_verification list"
  next_id :: ident

datatype db_error = IntegrityError | NoResultFound | DataError

definition empty_db :: verification_db where
  "empty_db = \<lparr>rows = [], next_id = 1\<rparr>"

text \<open>Column widths of the migration: \<open>String(255)\<close>, \<open>String(32)\<close>, \<open>String(40)\<close>.\<close>

definition column_fits :: "rom_verification \<Rightarrow> bool" where
  "column_fits v \<longleftrightarrow>
     length (uploaded_file_name v) \<le> 255 \<and> length (uploaded_md5_hash v) \<le> 32 \<and>
     length (uploaded_sha1_hash v) \<le> 40"

definition same_pair :: "rom_verification \<Rightarrow> rom_verification \<Rightarrow> bool" where
  "same_pair v w \<longleftrightarrow> rom_id v = rom_id w \<and> user_id v = user_id w"

subsection \<open>Writes\<close>

text \<open>
  \<open>add_verification\<close>: \<open>session.merge\<close> of a transient object inserts it; the
  insert assigns the next id, the creation time (\<open>server_default now()\<close>) and
  the deadline (the column default).
\<close>

definition add_verification ::
  "timestamp \<Rightarrow> rom_verification \<Rightarrow> verification_db \<Rightarrow>
   db_error + (rom_verification \<times> verification_db)" where
  "add_verification now v db =
     (let v' = v\<lparr>ver_id := next_id db, expires_at := default_expires_at now, created_at := now\<rparr>
      in if \<not> column_fits v' then Inl DataError
         else if list_ex (same_pair v') (rows db) then Inl IntegrityError
         else Inr (v', db\<lparr>rows := rows db @ [v'], next_id := Suc (next_id db)\<rparr>))"

definition get_verification :: "verification_db \<Rightarrow> ident \<Rightarrow> rom_verification option" where
  "get_verification db i = find (\<lambda>v. ver_id v = i) (rows db)"

definition get_verification_by_rom_and_user ::
  "verification_db \<Rightarrow> ident \<Rightarrow> ident \<Rightarrow> rom_verification option" where
  "get_verification_by_rom_and_user db r u = find (\<lambda>v. rom_id v = r \<and> user_id v = u) (rows db)"

definition order_by_created_desc :: "rom_verification list \<Rightarrow> rom_verification list" where
  "order_by_created_desc vs = sort_key (\<lambda>v. - created_at v) vs"

definition get_verifications_by_user :: "verification_db \<Rightarrow> ident \<Rightarrow> rom_verification list" where
  "get_verifications_by_user db u = order_by_created_desc (filter (\<lambda>v. user_id v = u) (rows db))"

definition get_verifications_by_user_and_status ::
  "verification_db \<Rightarrow> ident \<Rightarrow> verification_status \<Rightarrow> rom_verification list" where
  "get_verifications_by_user_and_status db u s =
     order_by_created_desc (filter (\<lambda>v. user_id v = u \<and> status v = s) (rows db))"

definition get_verifications_by_status ::
  "verification_db \<Rightarrow> verification_status \<Rightarrow> rom_verification list" where
  "get_verifications_by_status db s = order_by_created_desc (filter (\<lambda>v. status v = s) (rows db))"

definition get_verifications_by_rom :: "verification_db \<Rightarrow> ident \<Rightarrow> rom_verification list" where
  "get_verifications_by_rom db r = order_by_created_desc (filter (\<lambda>v. rom_id v = r) (rows db))"

text \<open>
  \<open>update_verification\<close>: \<open>UPDATE \<dots> SET **data WHERE id = i\<close>, then
  \<open>.one()\<close> on the row with that id.
\<close>

definition update_verification ::
  "verification_db \<Rightarrow> ident \<Rightarrow> verification_data \<Rightarrow>
   db_error + (rom_verification \<times> verification_db)" where
  "update_verification db i data =
     (case get_verification db i of
        None \<Rightarrow> Inl NoResultFound
      | Some v \<Rightarrow>
          (let v' = set_fields data v
           in if \<not> column_fits v' then Inl DataError
              else if list_ex (\<lambda>w. ver_id w \<noteq> i \<and> same_pair v' w) (rows db) then Inl IntegrityError
              else Inr (v', db\<lparr>rows := map (\<lambda>w. if ver_id w = i then set_fields data w else w) (rows db)\<rparr>)))"

definition delete_verification :: "verification_db \<Rightarrow> ident \<Rightarrow> verification_db" where
  "delete_verification db i = db\<lparr>rows := filter (\<lambda>v. ver_id v \<noteq> i) (rows db)\<rparr>"

subsection \<open>The expiration sweep\<close>

definition get_expired_verifications :: "timestamp \<Rightarrow> verification_db \<Rightarrow> rom_verification list" where
  "get_expired_verifications now db =
     filter (\<lambda>v. status v = PENDING \<and> expires_at v < now) (rows db)"

text \<open>\<open>session.merge\<close> of a persistent object: its state replaces the row with its id.\<close>

definition merge_row :: "rom_verification \<Rightarrow> verification_db \<Rightarrow> verification_db" where
  "merge_row v db = db\<lparr>rows := map (\<lambda>w. if ver_id w = ver_id v then v else w) (rows db)\<rparr>"

text \<open>
  \<open>mark_expired_verifications\<close>: the loop marks each fetched row and merges
  it; one commit for the batch; the count of fetched rows is returned.
\<close>

definition mark_expired_verifications ::
  "timestamp \<Rightarrow> verification_db \<Rightarrow> nat \<times> verification_db" where
  "mark_expired_verifications now db =
     (let expired_verifications = get_expired_verifications now db
      in (length expired_verifications,
          fold (\<lambda>v d. merge_row (mark_expired v) d) expired_verifications db))"

text \<open>The reference the loop is compared with: one pass over the table.\<close>

definition expire_overdue :: "timestamp \<Rightarrow> verification_db \<Rightarrow> verification_db" where
  "expire_overdue now db =
     db\<lparr>rows := map (\<lambda>v. if status v = PENDING \<and> expires_at v < now then mark_expired v else v)
                   (rows db)\<rparr>"

subsection \<open>Statistics\<close>

record verification_stats =
  total :: nat
  pending :: nat
  verified :: nat
  rejected :: nat
  expired :: nat

definition count_status :: "verification_db \<Rightarrow> verification_status \<Rightarrow> nat" where
  "count_status db s = length (filter (\<lambda>v. status v = s) (rows db))"

definition get_verification_stats :: "verification_db \<Rightarrow> verification_stats" where
  "get_verification_stats db =
     \<lparr>total = length (rows db), pending = count_status db PENDING,
      verified = count_status db VERIFIED, rejected = count_status db REJECTED,
      expired = count_status db EXPIRED\<rparr>"

subsection \<open>The table's constraints as an invariant\<close>

text \<open>
  Primary key, autoincrement counter ahead of every id, the unique constraint
  on \<open>(rom_id, user_id)\<close>, and the column widths.
\<close>

definition db_wf :: "verification_db \<Rightarrow> bool" where
  "db_wf db \<longleftrightarrow>
     distinct (map ver_id (rows db)) \<and> list_all (\<lambda>v. ver_id v < next_id db) (rows db) \<and>
     distinct (map (\<lambda>v. (rom_id v, user_id v)) (rows db)) \<and> list_all column_fits (rows db)"

subsection \<open>The writes as one interface\<close>

text \<open>
  The four writing methods of the handler as a datatype of operations and one
  step function; the service and the scheduled task only change the table
  through these.
\<close>

datatype store_op =
    Add_verification timestamp rom_verification
  | Update_verification ident verification_data
  | Delete_verification ident
  | Mark_expired_verifications timestamp

fun store_step :: "store_op \<Rightarrow> verification_db \<Rightarrow> db_error + verification_db" where
  "store_step (Add_verification now v) db =
     (case add_verification now v db of Inl e \<Rightarrow> Inl e | Inr (_, db') \<Rightarrow> Inr db')"
| "store_step (Update_verification i data) db =
     (case update_verification db i data of Inl e \<Rightarrow> Inl e | Inr (_, db') \<Rightarrow> Inr db')"
| "store_step (Delete_verification i) db = Inr (delete_verification db i)"
| "store_step (Mark_expired_verifications now) db = Inr (snd (mark_expired_verifications now db))"

subsection \<open>The sweep loop is one pass over the table\<close>

lemma rows_merge_row [simp]:
  "rows (merge_row v db) = map (\<lambda>w. if ver_id w = ver_id v then v else w) (rows db)"
  "next_id (merge_row v db) = next_id db"
  by (simp_all add: merge_row_def)

lemma fold_merge_mark_expired:
  assumes "distinct (map ver_id ys)"
    and "\<And>y w. y \<in> set ys \<Longrightarrow> w \<in> set (rows db) \<Longrightarrow> ver_id w = ver_id y \<Longrightarrow> w = y"
  shows "fold (\<lambda>v d. merge_row (mark_expired v) d) ys db =
    db\<lparr>rows := map (\<lambda>w. if ver_id w \<in> set (map ver_id ys) then mark_expired w else w) (rows db)\<rparr>"
  using assms
proof (induction ys arbitrary: db)
  case Nil
  then show ?case by simp
next
  case (Cons y ys)
  let ?db1 = "merge_row (mark_expired y) db"
  have rows1: "rows ?db1 = map (\<lambda>w. if ver_id w = ver_id y then mark_expired w else w) (rows db)"
    using Cons.prems(2) by (auto intro!: map_cong simp: mark_expired_def)
  have agree: "\<And>y' w. y' \<in> set ys \<Longrightarrow> w \<in> set (rows ?db1) \<Longrightarrow> ver_id w = ver_id y' \<Longrightarrow> w = y'"
    using Cons.prems by (fastforce simp: rows1 mark_expired_def)
  have "fold (\<lambda>v d. merge_row (mark_expired v) d) ys ?db1 =
    ?db1\<lparr>rows := map (\<lambda>w. if ver_id w \<in> set (map ver_id ys) then mark_expired w else w) (rows ?db1)\<rparr>"
    using Cons.prems(1) agree by (intro Cons.IH) simp_all
  also have "\<dots> = db\<lparr>rows := map (\<lambda>w. if ver_id w \<in> set (map ver_id ys) then mark_expired w else w) (rows ?db1)\<rparr>"
    by (simp add: merge_row_def)
  also have "map (\<lambda>w. if ver_id w \<in> set (map ver_id ys) then mark_expired w else w) (rows ?db1) =
     map (\<lambda>w. if ver_id w \<in> set (map ver_id (y # ys)) then mark_expired w else w) (rows db)"
    using Cons.prems(1) unfolding rows1 by (auto simp: mark_expired_def)
  finally show ?case by simp
qed

lemma mark_expired_verifications_eq:
  assumes "distinct (map ver_id (rows db))"
  shows "mark_expired_verifications now db =
    (length (get_expired_verifications now db), expire_overdue now db)"
proof -
  let ?P = "\<lambda>v. status v = PENDING \<and> expires_at v < now"
  let ?ys = "filter ?P (rows db)"
  have inj: "inj_on ver_id (set (rows db))"
    using assms by (simp add: distinct_map)
  have d: "distinct (map ver_id ?ys)"
    using assms by (simp add: distinct_map_filter)
  have agree: "w = y" if "y \<in> set ?ys" "w \<in> set (rows db)" "ver_id w = ver_id y" for y w
    using inj_onD [OF inj] that by simp
  have mem: "ver_id w \<in> set (map ver_id ?ys) \<longleftrightarrow> ?P w" if "w \<in> set (rows db)" for w
  proof
    assume "ver_id w \<in> set (map ver_id ?ys)"
    then obtain y where "y \<in> set ?ys" "ver_id y = ver_id w" by auto
    with that agree have "y = w" by metis
    with \<open>y \<in> set ?ys\<close> show "?P w" by simp
  next
    assume "?P w"
    with that show "ver_id w \<in> set (map ver_id ?ys)" by simp
  qed
  have "fold (\<lambda>v d. merge_row (mark_expired v) d) ?ys db =
      db\<lparr>rows := map (\<lambda>w. if ver_id w \<in> set (map ver_id ?ys) then mark_expired w else w) (rows db)\<rparr>"
    by (rule fold_merge_mark_expired [OF d agree])
  also have "\<dots> = expire_overdue now db"
    unfolding expire_overdue_def using mem by (simp cong: map_cong)
  finally have "fold (\<lambda>v d. merge_row (mark_expired v) d) ?ys db = expire_overdue now db" .
  then show ?thesis
    unfolding mark_expired_verifications_def get_expired_verifications_def Let_def by simp
qed
subsection \<open>Every write keeps the table's constraints\<close>

lemma add_verification_Inr:
  "add_verification now v db = Inr (v', db') \<longleftrightarrow>
   v' = v\<lparr>ver_id := next_id db, expires_at := default_expires_at now, created_at := now\<rparr> \<and>
   column_fits v' \<and> \<not> list_ex (same_pair v') (rows db) \<and>
   db' = db\<lparr>rows := rows db @ [v'], next_id := Suc (next_id db)\<rparr>"
  by (auto simp: add_verification_def Let_def)

lemma add_verification_wf:
  assumes "db_wf db" "add_verification now v db = Inr (v', db')"
  shows "db_wf db'"
proof -
  from assms(2) have v': "ver_id v' = next_id db" "column_fits v'" "\<not> list_ex (same_pair v') (rows db)"
    and db': "db' = db\<lparr>rows := rows db @ [v'], next_id := Suc (next_id db)\<rparr>"
    by (auto simp: add_verification_Inr)
  have "(rom_id v', user_id v') \<notin> set (map (\<lambda>v. (rom_id v, user_id v)) (rows db))"
    using v'(3) by (auto simp: list_ex_iff same_pair_def)
  moreover have "next_id db \<notin> set (map ver_id (rows db))"
    using assms(1) by (auto simp: db_wf_def list_all_iff)
  ultimately show ?thesis
    using assms(1) v' db' by (auto simp: db_wf_def list_all_iff)
qed

lemma get_verification_split:
  assumes "db_wf db" "get_verification db i = Some v"
  shows "\<exists>ys zs. rows db = ys @ v # zs \<and> i \<notin> set (map ver_id ys) \<and> i \<notin> set (map ver_id zs) \<and> ver_id v = i"
  using assms find_key_split [of ver_id "rows db" i v] by (simp add: db_wf_def get_verification_def)

lemma update_verification_Inr:
  assumes "db_wf db" "update_verification db i data = Inr (v', db')"
  obtains v ys zs where "rows db = ys @ v # zs" "i \<notin> set (map ver_id ys)" "i \<notin> set (map ver_id zs)"
    "ver_id v = i" "v' = set_fields data v" "column_fits v'"
    "\<not> list_ex (same_pair v') (ys @ zs)"
    "db' = db\<lparr>rows := ys @ v' # zs\<rparr>"
proof -
  from assms(2) obtain v where g: "get_verification db i = Some v" and v': "v' = set_fields data v"
    "column_fits v'" and nx: "\<not> list_ex (\<lambda>w. ver_id w \<noteq> i \<and> same_pair v' w) (rows db)"
    and db': "db' = db\<lparr>rows := map (\<lambda>w. if ver_id w = i then set_fields data w else w) (rows db)\<rparr>"
    by (auto simp: update_verification_def Let_def split: option.splits if_splits)
  from get_verification_split [OF assms(1) g] obtain ys zs where
    sp: "rows db = ys @ v # zs" "i \<notin> set (map ver_id ys)" "i \<notin> set (map ver_id zs)" "ver_id v = i"
    by blast
  have "\<not> list_ex (same_pair v') (ys @ zs)"
  proof
    assume "list_ex (same_pair v') (ys @ zs)"
    then obtain w where w: "w \<in> set ys \<or> w \<in> set zs" "same_pair v' w"
      by (auto simp: list_ex_iff)
    then have "ver_id w \<in> set (map ver_id ys) \<or> ver_id w \<in> set (map ver_id zs)" by auto
    with sp have "ver_id w \<noteq> i" by (auto simp: image_iff)
    with w nx sp show False by (auto simp: list_ex_iff)
  qed
  moreover have "db' = db\<lparr>rows := ys @ v' # zs\<rparr>"
    using db' sp v' by simp
  ultimately show ?thesis using that sp v' by blast
qed

lemma update_verification_wf:
  assumes "db_wf db" "update_verification db i data = Inr (v', db')"
  shows "db_wf db'"
proof -
  obtain v ys zs where sp: "rows db = ys @ v # zs" "ver_id v = i" "v' = set_fields data v"
    "column_fits v'" "\<not> list_ex (same_pair v') (ys @ zs)" "db' = db\<lparr>rows := ys @ v' # zs\<rparr>"
    using update_verification_Inr [OF assms] by metis
  then have "(rom_id v', user_id v') \<notin> set (map (\<lambda>v. (rom_id v, user_id v)) (ys @ zs))"
    by (auto simp: list_ex_iff same_pair_def)
  then show ?thesis
    using assms(1) sp by (auto simp: db_wf_def list_all_iff)
qed

lemma delete_verification_wf: "db_wf db \<Longrightarrow> db_wf (delete_verification db i)"
  by (auto simp: db_wf_def delete_verification_def list_all_iff distinct_map_filter)

lemma expire_overdue_keys [simp]:
  "map ver_id (rows (expire_overdue now db)) = map ver_id (rows db)"
  "map (\<lambda>v. (rom_id v, user_id v)) (rows (expire_overdue now db)) = map (\<lambda>v. (rom_id v, user_id v)) (rows db)"
  "next_id (expire_overdue now db) = next_id db"
  by (simp_all add: expire_overdue_def mark_expired_def comp_def if_distrib cong: if_cong)

lemma list_all_expire_overdue:
  "(\<And>v. Q (mark_expired v) = Q v) \<Longrightarrow>
   list_all Q (rows (expire_overdue now db)) = list_all Q (rows db)"
  by (simp add: expire_overdue_def list_all_map_if)

lemma expire_overdue_wf:
  assumes "db_wf db"
  shows "db_wf (expire_overdue now db)"
proof -
  have a: "list_all (\<lambda>v. ver_id v < next_id db) (rows (expire_overdue now db)) =
      list_all (\<lambda>v. ver_id v < next_id db) (rows db)"
    by (rule list_all_expire_overdue) (simp add: mark_expired_def)
  have b: "list_all column_fits (rows (expire_overdue now db)) = list_all column_fits (rows db)"
    by (rule list_all_expire_overdue) (simp add: mark_expired_def column_fits_def)
  from assms show ?thesis
    unfolding db_wf_def by (simp add: a b)
qed

lemma mark_expired_verifications_wf:
  assumes "db_wf db"
  shows "db_wf (snd (mark_expired_verifications now db))"
proof -
  from assms have "distinct (map ver_id (rows db))" by (simp add: db_wf_def)
  then show ?thesis
    using expire_overdue_wf [OF assms] by (simp add: mark_expired_verifications_eq)
qed

lemma get_expired_expire_overdue: "get_expired_verifications now (expire_overdue now db) = []"
  by (auto simp: get_expired_verifications_def expire_overdue_def mark_expired_def filter_empty_conv)

lemma expire_overdue_no_expired:
  assumes "get_expired_verifications now db = []"
  shows "expire_overdue now db = db"
proof -
  have "map (\<lambda>v. if status v = PENDING \<and> expires_at v < now then mark_expired v else v) (rows db) = rows db"
    using assms by (intro map_idI) (auto simp: get_expired_verifications_def filter_empty_conv)
  then show ?thesis by (simp add: expire_overdue_def)
qed

lemma order_by_created_desc_props:
  "mset (order_by_created_desc vs) = mset vs"
  "sorted_wrt (\<lambda>x y. created_at y \<le> created_at x) (order_by_created_desc vs)"
proof -
  show "mset (order_by_created_desc vs) = mset vs"
    by (simp add: order_by_created_desc_def)
  have "sorted (map (\<lambda>v. - created_at v) (sort_key (\<lambda>v. - created_at v) vs))"
    by (rule sorted_sort_key)
  then show "sorted_wrt (\<lambda>x y. created_at y \<le> created_at x) (order_by_created_desc vs)"
    by (simp add: order_by_created_desc_def sorted_map)
qed

subsection \<open>Properties of the handler\<close>

lemma db_wf_empty: "db_wf empty_db"
  by (simp add: db_wf_def empty_db_def)

text \<open>
  Every write of the handler keeps the table's constraints: distinct ids below the autoincrement counter, one row per (rom, user) pair, strings within their columns.
\<close>

lemma store_step_preserves_wf:
  assumes "db_wf db" "store_step op db = Inr db'"
  shows "db_wf db'"
  using assms
proof (cases op)
  case (Add_verification now v)
  with assms show ?thesis by (auto split: sum.splits intro: add_verification_wf)
next
  case (Update_verification i data)
  with assms show ?thesis by (auto split: sum.splits intro: update_verification_wf)
qed (auto intro: delete_verification_wf mark_expired_verifications_wf)

text \<open>
  C12: an insert assigns the next id, the creation time and the end-of-day deadline, and the new row is then found both by its id and by its (rom, user) pair.
\<close>

theorem add_verification_lookup:
  assumes "db_wf db" "add_verification now v db = Inr (v', db')"
  shows "ver_id v' = next_id db \<and> created_at v' = now \<and> expires_at v' = default_expires_at now \<and>
    get_verification db' (ver_id v') = Some v' \<and>
    get_verification_by_rom_and_user db' (rom_id v) (user_id v) = Some v'"
proof -
  from assms(2) have v': "v' = v\<lparr>ver_id := next_id db, expires_at := default_expires_at now, created_at := now\<rparr>"
    "\<not> list_ex (same_pair v') (rows db)"
    and db': "db' = db\<lparr>rows := rows db @ [v'], next_id := Suc (next_id db)\<rparr>"
    by (auto simp: add_verification_Inr)
  have "find (\<lambda>w. ver_id w = next_id db) (rows db) = None"
    using assms(1) by (auto simp: db_wf_def list_all_iff find_None_iff)
  moreover have "find (\<lambda>w. rom_id w = rom_id v \<and> user_id w = user_id v) (rows db) = None"
    using v' by (auto simp: find_None_iff list_ex_iff same_pair_def)
  ultimately show ?thesis
    using v' db' by (simp add: get_verification_def get_verification_by_rom_and_user_def find_append_None)
qed

lemma add_verification_lookup_witness:
  "db_wf empty_db \<and>
   (\<exists>v' db'. add_verification 0 (new_verification [Set_rom_id 7, Set_user_id 3]) empty_db = Inr (v', db') \<and>
      get_verification db' (ver_id v') = Some v' \<and> ver_id v' = 1)"
proof -
  obtain v' db' where a: "add_verification 0 (new_verification [Set_rom_id 7, Set_user_id 3]) empty_db = Inr (v', db')"
    by (simp add: add_verification_def Let_def empty_db_def column_fits_def model_simps)
  show ?thesis
    using db_wf_empty a add_verification_lookup [OF db_wf_empty a] by (auto simp: empty_db_def)
qed

text \<open>
  For a row whose strings fit their columns, the insert fails with an integrity error exactly when a row for the same (rom, user) pair exists.
\<close>

lemma add_verification_conflict:
  assumes "column_fits v"
  shows "add_verification now v db = Inl IntegrityError \<longleftrightarrow>
    get_verification_by_rom_and_user db (rom_id v) (user_id v) \<noteq> None"
  using assms
  by (auto simp: add_verification_def Let_def column_fits_def get_verification_by_rom_and_user_def
      find_None_iff list_ex_iff same_pair_def)


text \<open>
  C13: the batch loop of \<open>mark_expired_verifications\<close> (mark each fetched row, merge it, one commit) equals one pass that sets EXPIRED on exactly the pending rows whose deadline is before the clock, and returns their number.
\<close>

theorem mark_expired_verifications_spec:
  assumes "db_wf db"
  shows "mark_expired_verifications now db =
    (length (filter (\<lambda>v. status v = PENDING \<and> expires_at v < now) (rows db)),
     db\<lparr>rows := map (\<lambda>v. if status v = PENDING \<and> expires_at v < now then v\<lparr>status := EXPIRED\<rparr> else v)
                   (rows db)\<rparr>)"
  using assms mark_expired_verifications_eq [of db now]
  by (simp add: db_wf_def expire_overdue_def get_expired_verifications_def mark_expired_def)

lemma mark_expired_verifications_spec_witness:
  "db_wf \<lparr>rows = [(new_verification [Set_rom_id 7, Set_user_id 3])\<lparr>ver_id := 1, expires_at := 86399000000\<rparr>], next_id = 2\<rparr> \<and>
   mark_expired_verifications 86400000000
     \<lparr>rows = [(new_verification [Set_rom_id 7, Set_user_id 3])\<lparr>ver_id := 1, expires_at := 86399000000\<rparr>], next_id = 2\<rparr> =
   (1, \<lparr>rows = [(new_verification [Set_rom_id 7, Set_user_id 3])\<lparr>ver_id := 1, expires_at := 86399000000, status := EXPIRED\<rparr>], next_id = 2\<rparr>)"
proof -
  have h: "db_wf \<lparr>rows = [(new_verification [Set_rom_id 7, Set_user_id 3])\<lparr>ver_id := 1, expires_at := 86399000000\<rparr>], next_id = 2\<rparr>"
    by (simp add: db_wf_def column_fits_def model_simps)
  show ?thesis
    using h mark_expired_verifications_spec [OF h, of 86400000000] by (simp add: model_simps)
qed

text \<open>
  C14: the sweep is idempotent: after one run no pending overdue row is left, and a second run at the same time returns 0 and changes nothing.
\<close>

theorem mark_expired_verifications_idempotent:
  assumes "db_wf db" "mark_expired_verifications now db = (n, db')"
  shows "get_expired_verifications now db' = [] \<and> mark_expired_verifications now db' = (0, db')"
proof -
  have eq: "db' = expire_overdue now db"
    using assms mark_expired_verifications_eq [of db now] by (simp add: db_wf_def)
  have "db_wf db'"
    using mark_expired_verifications_wf [OF assms(1), of now] assms(2) by simp
  then have d: "distinct (map ver_id (rows db'))" by (simp add: db_wf_def)
  have e: "get_expired_verifications now db' = []"
    using eq get_expired_expire_overdue by simp
  show ?thesis
    using mark_expired_verifications_eq [OF d, of now] e expire_overdue_no_expired [OF e] by simp
qed

lemma mark_expired_verifications_idempotent_witness:
  "db_wf \<lparr>rows = [(new_verification [Set_rom_id 7, Set_user_id 3])\<lparr>ver_id := 1, expires_at := 86399000000\<rparr>], next_id = 2\<rparr> \<and>
   mark_expired_verifications 86400000000
     \<lparr>rows = [(new_verification [Set_rom_id 7, Set_user_id 3])\<lparr>ver_id := 1, expires_at := 86399000000\<rparr>], next_id = 2\<rparr> =
   (1, \<lparr>rows = [(new_verification [Set_rom_id 7, Set_user_id 3])\<lparr>ver_id := 1, expires_at := 86399000000, status := EXPIRED\<rparr>], next_id = 2\<rparr>) \<and>
   mark_expired_verifications 86400000000
     \<lparr>rows = [(new_verification [Set_rom_id 7, Set_user_id 3])\<lparr>ver_id := 1, expires_at := 86399000000, status := EXPIRED\<rparr>], next_id = 2\<rparr> =
   (0, \<lparr>rows = [(new_verification [Set_rom_id 7, Set_user_id 3])\<lparr>ver_id := 1, expires_at := 86399000000, status := EXPIRED\<rparr>], next_id = 2\<rparr>)"
proof -
  have h: "db_wf \<lparr>rows = [(new_verification [Set_rom_id 7, Set_user_id 3])\<lparr>ver_id := 1, expires_at := 86399000000\<rparr>], next_id = 2\<rparr>"
    by (simp add: db_wf_def column_fits_def model_simps)
  have r: "mark_expired_verifications 86400000000
     \<lparr>rows = [(new_verification [Set_rom_id 7, Set_user_id 3])\<lparr>ver_id := 1, expires_at := 86399000000\<rparr>], next_id = 2\<rparr> =
   (1, \<lparr>rows = [(new_verification [Set_rom_id 7, Set_user_id 3])\<lparr>ver_id := 1, expires_at := 86399000000, status := EXPIRED\<rparr>], next_id = 2\<rparr>)"
    by (simp add: mark_expired_verifications_def get_expired_verifications_def merge_row_def model_simps)
  show ?thesis
    using h r mark_expired_verifications_idempotent [OF h r] by simp
qed

text \<open>
  The statistics add up: the total is the sum of the four per-status counts.
\<close>

lemma verification_stats_total:
  "total (get_verification_stats db) =
   pending (get_verification_stats db) + verified (get_verification_stats db) +
   rejected (get_verification_stats db) + expired (get_verification_stats db)"
proof -
  have "length xs = length (filter (\<lambda>v. status v = PENDING) xs) + length (filter (\<lambda>v. status v = VERIFIED) xs) +
     length (filter (\<lambda>v. status v = REJECTED) xs) + length (filter (\<lambda>v. status v = EXPIRED) xs)" for xs :: "rom_verification list"
  proof (induction xs)
    case (Cons x xs)
    then show ?case by (cases "status x") simp_all
  qed simp
  from this [of "rows db"] show ?thesis
    by (simp add: get_verification_stats_def count_status_def)
qed

text \<open>
  The status listings return exactly the rows with that status (for a user: with that user and status), ordered by creation time, newest first.
\<close>

lemma get_verifications_by_status_spec:
  "mset (get_verifications_by_status db s) = mset (filter (\<lambda>v. status v = s) (rows db)) \<and>
   sorted_wrt (\<lambda>x y. created_at y \<le> created_at x) (get_verifications_by_status db s) \<and>
   mset (get_verifications_by_user_and_status db u s) =
     mset (filter (\<lambda>v. user_id v = u \<and> status v = s) (rows db)) \<and>
   sorted_wrt (\<lambda>x y. created_at y \<le> created_at x) (get_verifications_by_user_and_status db u s)"
  by (simp add: get_verifications_by_status_def get_verifications_by_user_and_status_def
      order_by_created_desc_props)

text \<open>
  An update by id writes exactly the given fields on that row, finds it afterwards, and leaves every other row and the counter unchanged.
\<close>

lemma update_verification_lookup:
  assumes "db_wf db" "get_verification db i = Some v" "update_verification db i data = Inr (v', db')"
  shows "v' = set_fields data v \<and> get_verification db' i = Some v' \<and> next_id db' = next_id db \<and>
    (\<forall>j. j \<noteq> i \<longrightarrow> get_verification db' j = get_verification db j)"
proof -
  obtain w ys zs where sp: "rows db = ys @ w # zs" "i \<notin> set (map ver_id ys)" "i \<notin> set (map ver_id zs)"
    "ver_id w = i" "v' = set_fields data w" "db' = db\<lparr>rows := ys @ v' # zs\<rparr>"
    using update_verification_Inr [OF assms(1,3)] by metis
  have n: "find (\<lambda>x. ver_id x = i) ys = None" using sp(2) by (auto simp: find_None_iff)
  then have "w = v" using assms(2) sp(1,4) by (simp add: get_verification_def find_append_case)
  moreover have "find (\<lambda>x. ver_id x = j) (ys @ v' # zs) = find (\<lambda>x. ver_id x = j) (ys @ w # zs)" if "j \<noteq> i" for j
    using that sp(4,5) by (simp add: find_append_case split: option.splits)
  ultimately show ?thesis
    using sp n by (simp add: get_verification_def find_append_case)
qed

end
