(* ===== verification/Rom_Verification_Api.thy ===== *)
theory Rom_Verification_Api
  imports Verification_Store
begin

text \<open>
  The six route handlers of \<open>src/backend/endpoints/rom_verification.py\<close> and
  the response schemas of \<open>src/backend/endpoints/responses/rom_verification.py\<close>
  and \<open>responses/base.py\<close>. Their collaborators are parameters: the ROM
  catalog (\<open>db_rom_handler.get_rom\<close>, a map from ROM ids to the fields the
  handlers read), the user table, the authenticated user of the request and the two digest
  functions of \<open>hashlib\<close> (an interface record, \<open>'b hasher\<close>). Models of
  \<open>Rom\<close>, \<open>User\<close> and \<open>Role\<close> are not in this slice of the repository; they
  are modelled from the spec with the fields the handlers read. The joined
  relationships \<open>v.rom\<close>, \<open>v.user\<close> and \<open>v.verifier\<close> of the entity are
  the lookups \<open>verification_rom\<close>, \<open>verification_user\<close> and
  \<open>verification_verifier\<close>; a response schema whose required field is
  missing fails validation (None, and the route answers 500).
  Every \<open>HTTPException\<close> is a value \<open>HTTPException code detail\<close>; an
  exception the handler does not catch is FastAPI's 500.
  The upload handler's temporary file is part of the state: the list of
  temporary files on disk. Faults of the file system are an explicit input
  (\<open>io_fault\<close>), so that each exit path of the \<open>try\<close> block is a branch.
  Upload and decision are split into the reads they make (\<open>upload_check\<close>,
  \<open>verify_decide\<close>) and the writes that follow (\<open>upload_commit\<close>,
  \<open>verify_persist\<close>); the handlers are their composition, and
  \<open>Interleaving\<close> interleaves them.
\<close>

subsection \<open>Collaborators\<close>

datatype role = VIEWER | EDITOR | ADMIN

fun role_value :: "role \<Rightarrow> string" where
  "role_value VIEWER = ''viewer''"
| "role_value EDITOR = ''editor''"
| "role_value ADMIN = ''admin''"

record user =
  user_ident :: ident
  username :: string
  role :: role

record rom =
  fs_name :: string
  fs_extension :: string
  md5_hash :: "string option"
  sha1_hash :: "string option"
  platform_name :: string

type_synonym catalog = "ident \<rightharpoonup> rom"
type_synonym user_table = "ident \<rightharpoonup> user"

text \<open>
  The relationships of \<open>RomVerification\<close>, joined through the foreign keys:
  \<open>rom\<close>, \<open>user\<close>, and \<open>verifier\<close> (None when \<open>verified_by\<close> is NULL).
\<close>

definition verification_rom :: "catalog \<Rightarrow> rom_verification \<Rightarrow> rom option" where
  "verification_rom roms v = roms (rom_id v)"

definition verification_user :: "user_table \<Rightarrow> rom_verification \<Rightarrow> user option" where
  "verification_user users v = users (user_id v)"

definition verification_verifier :: "user_table \<Rightarrow> rom_verification \<Rightarrow> user option" where
  "verification_verifier users v = (case verified_by v of None \<Rightarrow> None | Some i \<Rightarrow> users i)"

record 'b hasher =
  md5_hexdigest :: "'b list \<Rightarrow> string"
  sha1_hexdigest :: "'b list \<Rightarrow> string"

subsection \<open>Responses and errors\<close>

datatype http_error = HTTPException nat string

record message_response =
  message :: string
  data_verification_id :: "ident option"

definition internal_server_error :: http_error where
  "internal_server_error = HTTPException 500 ''Internal Server Error''"

text \<open>\<open>request.auth.user.role.value != "admin"\<close>, the guard of the admin routes.\<close>

definition is_admin :: "user \<Rightarrow> bool" where
  "is_admin u \<longleftrightarrow> role_value (role u) = ''admin''"

definition admin_required :: http_error where
  "admin_required = HTTPException 403 ''Admin access required''"

subsection \<open>Upload\<close>

record service_state =
  table :: verification_db
  temp_files :: "nat list"
  next_temp :: nat

datatype io_fault = No_fault | Create_fails | Read_fails | Write_fails

text \<open>
  The reads and checks before the \<open>try\<close> block: the ROM (404), an existing
  verification that is already verified (400), the file extension (400).
  The result is what the write phase uses: the existing row as read, and the ROM.
\<close>

definition upload_check ::
  "catalog \<Rightarrow> user \<Rightarrow> ident \<Rightarrow> string \<Rightarrow> verification_db \<Rightarrow>
   http_error + (rom_verification option \<times> rom)" where
  "upload_check roms u rid filename db =
     (case roms rid of
        None \<Rightarrow> Inl (HTTPException 404 ''ROM not found'')
      | Some r \<Rightarrow>
          (let existing_verification = get_verification_by_rom_and_user db rid (user_ident u)
           in if (case existing_verification of None \<Rightarrow> False | Some e \<Rightarrow> status e = VERIFIED)
              then Inl (HTTPException 400 ''ROM ownership already verified'')
              else if \<not> py_endswith (py_lower filename) (py_lower (fs_extension r))
              then Inl (HTTPException 400 (''File must be a '' @ fs_extension r @ '' file''))
              else Inr (existing_verification, r)))"

definition upload_data ::
  "'b hasher \<Rightarrow> user \<Rightarrow> ident \<Rightarrow> string \<Rightarrow> 'b list \<Rightarrow> verification_data" where
  "upload_data h u rid filename content =
     [Set_rom_id rid, Set_user_id (user_ident u), Set_uploaded_file_name filename,
      Set_uploaded_file_size (length content), Set_uploaded_md5_hash (md5_hexdigest h content),
      Set_uploaded_sha1_hash (sha1_hexdigest h content), Set_status PENDING]"

definition upload_failed :: http_error where
  "upload_failed = HTTPException 500 ''Failed to process uploaded file''"

text \<open>
  \<open>NamedTemporaryFile(delete=False)\<close> creates a fresh file that stays on
  disk until \<open>unlink\<close>.
\<close>

definition create_temp :: "service_state \<Rightarrow> nat \<times> service_state" where
  "create_temp s = (next_temp s, s\<lparr>temp_files := temp_files s @ [next_temp s], next_temp := Suc (next_temp s)\<rparr>)"

definition unlink_temp :: "nat \<Rightarrow> service_state \<Rightarrow> service_state" where
  "unlink_temp t s = s\<lparr>temp_files := removeAll t (temp_files s)\<rparr>"

text \<open>
  The \<open>try\<close> block. \<open>temp_file_path\<close> is bound only after \<open>read\<close> and
  \<open>write\<close> succeed, so a fault in either leaves the file on disk (the
  \<open>except\<close> branch finds no \<open>temp_file_path\<close> in \<open>locals()\<close>); a fault
  when creating it leaves nothing. A database error is caught, the file
  unlinked and 500 returned. On success the file is unlinked and the id of the
  row returned: the existing row's id after an update, the new row's after an
  insert.
\<close>

definition upload_commit ::
  "'b hasher \<Rightarrow> timestamp \<Rightarrow> user \<Rightarrow> ident \<Rightarrow> string \<Rightarrow> 'b list \<Rightarrow> io_fault \<Rightarrow>
   rom_verification option \<Rightarrow> service_state \<Rightarrow> (http_error + message_response) \<times> service_state" where
  "upload_commit h now u rid filename content fault existing_verification s =
     (case fault of
        Create_fails \<Rightarrow> (Inl upload_failed, s)
      | Read_fails \<Rightarrow> (Inl upload_failed, snd (create_temp s))
      | Write_fails \<Rightarrow> (Inl upload_failed, snd (create_temp s))
      | No_fault \<Rightarrow>
          (let (t, s1) = create_temp s;
               data = upload_data h u rid filename content;
               written = (case existing_verification of
                   Some e \<Rightarrow> (case update_verification (table s1) (ver_id e) data of
                                Inl err \<Rightarrow> Inl err
                              | Inr (_, db') \<Rightarrow> Inr (ver_id e, db'))
                 | None \<Rightarrow> (case add_verification now (new_verification data) (table s1) of
                                Inl err \<Rightarrow> Inl err
                              | Inr (v, db') \<Rightarrow> Inr (ver_id v, db')))
           in case written of
                Inl _ \<Rightarrow> (Inl upload_failed, unlink_temp t s1)
              | Inr (i, db') \<Rightarrow>
                  (Inr \<lparr>message = ''ROM uploaded successfully for verification'',
                        data_verification_id = Some i\<rparr>,
                   unlink_temp t (s1\<lparr>table := db'\<rparr>))))"

definition upload_rom_for_verification ::
  "'b hasher \<Rightarrow> catalog \<Rightarrow> timestamp \<Rightarrow> user \<Rightarrow> ident \<Rightarrow> string \<Rightarrow> 'b list \<Rightarrow> io_fault \<Rightarrow>
   service_state \<Rightarrow> (http_error + message_response) \<times> service_state" where
  "upload_rom_for_verification h roms now u rid filename content fault s =
     (case upload_check roms u rid filename (table s) of
        Inl err \<Rightarrow> (Inl err, s)
      | Inr (existing_verification, _) \<Rightarrow>
          upload_commit h now u rid filename content fault existing_verification s)"

subsection \<open>Status of the caller's verification\<close>

record status_response =
  st_status :: string
  st_message :: string
  uploaded_at :: "timestamp option"
  st_expires_at :: "timestamp option"
  st_verified_at :: "timestamp option"
  st_notes :: "string option"
  st_can_verify :: "bool option"
  st_is_expired :: "bool option"

text \<open>
  \<open>can_verify\<close> and \<open>is_expired\<close> are properties that each read the clock
  (\<open>datetime.now\<close>): the response's two fields are two readings, \<open>now\<close>
  then \<open>now'\<close>.
\<close>

definition get_verification_status ::
  "timestamp \<Rightarrow> timestamp \<Rightarrow> user \<Rightarrow> ident \<Rightarrow> verification_db \<Rightarrow> status_response" where
  "get_verification_status now now' u rid db =
     (case get_verification_by_rom_and_user db rid (user_ident u) of
        None \<Rightarrow>
          \<lparr>st_status = ''none'', st_message = ''No verification record found'', uploaded_at = None,
           st_expires_at = None, st_verified_at = None, st_notes = None, st_can_verify = None,
           st_is_expired = None\<rparr>
      | Some v \<Rightarrow>
          \<lparr>st_status = status_value (status v), st_message = ''Verification record found'',
           uploaded_at = Some (created_at v), st_expires_at = Some (expires_at v),
           st_verified_at = verified_at v, st_notes = verification_notes v,
           st_can_verify = Some (can_verify now v), st_is_expired = Some (is_expired now' v)\<rparr>)"

subsection \<open>Pending verifications (admin)\<close>

record pending_entry =
  pe_id :: ident
  pe_rom_id :: ident
  pe_rom_name :: string
  pe_platform :: string
  pe_user_id :: ident
  pe_username :: string
  pe_file_name :: string
  pe_file_size :: nat
  pe_md5 :: string
  pe_sha1 :: string
  pe_uploaded_at :: timestamp
  pe_expires_at :: timestamp
  pe_can_verify :: bool
  pe_is_expired :: bool

text \<open>
  One \<open>PendingVerificationSchema\<close>; \<open>v.rom\<close> and \<open>v.user\<close> are the joined
  relationships, absent only if the foreign keys were broken (then the
  attribute access raises). \<open>can_verify\<close> and \<open>is_expired\<close> read the clock
  once each, \<open>now\<close> then \<open>now'\<close>.
\<close>

definition pending_entry_of ::
  "catalog \<Rightarrow> user_table \<Rightarrow> timestamp \<Rightarrow> timestamp \<Rightarrow> rom_verification \<Rightarrow> pending_entry option" where
  "pending_entry_of roms users now now' v =
     (case (verification_rom roms v, verification_user users v) of
        (Some r, Some owner) \<Rightarrow>
          Some \<lparr>pe_id = ver_id v, pe_rom_id = rom_id v, pe_rom_name = fs_name r,
                pe_platform = platform_name r, pe_user_id = user_id v, pe_username = username owner,
                pe_file_name = uploaded_file_name v, pe_file_size = uploaded_file_size v,
                pe_md5 = uploaded_md5_hash v, pe_sha1 = uploaded_sha1_hash v,
                pe_uploaded_at = created_at v, pe_expires_at = expires_at v,
                pe_can_verify = can_verify now v, pe_is_expired = is_expired now' v\<rparr>
      | _ \<Rightarrow> None)"

fun those_entries :: "'a option list \<Rightarrow> 'a list option" where
  "those_entries [] = Some []"
| "those_entries (x # xs) =
     (case x of None \<Rightarrow> None | Some y \<Rightarrow> map_option (Cons y) (those_entries xs))"

text \<open>
  The list comprehension builds the entries in order, each reading the clock
  twice: \<open>clk\<close> gives the successive readings of the request, entry
  \<open>i\<close> taking readings \<open>2 i\<close> and \<open>2 i + 1\<close>.
\<close>

definition pending_entries ::
  "catalog \<Rightarrow> user_table \<Rightarrow> (nat \<Rightarrow> timestamp) \<Rightarrow> rom_verification list \<Rightarrow> pending_entry option list" where
  "pending_entries roms users clk vs =
     map2 (\<lambda>i v. pending_entry_of roms users (clk (2 * i)) (clk (2 * i + 1)) v) [0..<length vs] vs"

definition get_pending_verifications ::
  "catalog \<Rightarrow> user_table \<Rightarrow> (nat \<Rightarrow> timestamp) \<Rightarrow> user \<Rightarrow> verification_db \<Rightarrow> http_error + pending_entry list" where
  "get_pending_verifications roms users clk u db =
     (if \<not> is_admin u then Inl admin_required
      else case those_entries (pending_entries roms users clk (get_verifications_by_status db PENDING)) of
             None \<Rightarrow> Inl internal_server_error
           | Some es \<Rightarrow> Inr es)"

subsection \<open>The decision (admin)\<close>

text \<open>
  \<open>(rom.md5_hash and rom.md5_hash.lower() == v.uploaded_md5_hash.lower())\<close>:
  a reference digest that is None or empty never matches.
\<close>

fun digest_matches :: "string option \<Rightarrow> string \<Rightarrow> bool" where
  "digest_matches None u = False"
| "digest_matches (Some r) u = (r \<noteq> [] \<and> py_lower r = py_lower u)"

definition hash_matches :: "rom \<Rightarrow> rom_verification \<Rightarrow> bool" where
  "hash_matches r v \<longleftrightarrow>
     digest_matches (md5_hash r) (uploaded_md5_hash v) \<or> digest_matches (sha1_hash r) (uploaded_sha1_hash v)"

text \<open>
  The reads and the decision of \<open>verify_rom_ownership\<close>, up to the in-memory
  mutation of the fetched row: admin guard (403), the row (404),
  \<open>can_verify\<close> (400), and for an approval the ROM (404) and the digests.
  Two clock readings: \<open>now\<close> by \<open>can_verify\<close> (line 272), \<open>now'\<close> by
  \<open>verify_ownership\<close> or \<open>reject_verification\<close> (after the ROM lookup).
\<close>

definition verify_decide ::
  "catalog \<Rightarrow> timestamp \<Rightarrow> timestamp \<Rightarrow> user \<Rightarrow> ident \<Rightarrow> bool \<Rightarrow> string option \<Rightarrow>
   verification_db \<Rightarrow> http_error + (rom_verification \<times> string)" where
  "verify_decide roms now now' u vid approved notes' db =
     (if \<not> is_admin u then Inl admin_required
      else case get_verification db vid of
        None \<Rightarrow> Inl (HTTPException 404 ''Verification not found'')
      | Some v \<Rightarrow>
          if \<not> can_verify now v
          then Inl (HTTPException 400 ''Verification cannot be processed (expired or already processed)'')
          else if approved then
            (case roms (rom_id v) of
               None \<Rightarrow> Inl (HTTPException 404 ''ROM not found'')
             | Some r \<Rightarrow>
                 if hash_matches r v
                 then Inr (verify_ownership now' (user_ident u) notes' v, ''ROM ownership verified successfully'')
                 else Inr (reject_verification now' (user_ident u) (Some (py_or notes' ''Hash mismatch'')) v,
                           ''ROM ownership verification rejected - hash mismatch''))
          else Inr (reject_verification now' (user_ident u) (Some (py_or notes' ''Rejected by admin'')) v,
                    ''ROM ownership verification rejected''))"

text \<open>The write: \<open>update_verification\<close> of the four decided fields, by id.\<close>

definition verify_persist :: "rom_verification \<Rightarrow> verification_db \<Rightarrow> http_error + verification_db" where
  "verify_persist v db =
     (case update_verification db (ver_id v)
             [Set_status (status v), Set_verified_at (verified_at v), Set_verified_by (verified_by v),
              Set_verification_notes (verification_notes v)] of
        Inl _ \<Rightarrow> Inl internal_server_error
      | Inr (_, db') \<Rightarrow> Inr db')"

definition verify_rom_ownership ::
  "catalog \<Rightarrow> timestamp \<Rightarrow> timestamp \<Rightarrow> user \<Rightarrow> ident \<Rightarrow> bool \<Rightarrow> string option \<Rightarrow>
   verification_db \<Rightarrow> (http_error + message_response) \<times> verification_db" where
  "verify_rom_ownership roms now now' u vid approved notes' db =
     (case verify_decide roms now now' u vid approved notes' db of
        Inl err \<Rightarrow> (Inl err, db)
      | Inr (v, msg) \<Rightarrow>
          (case verify_persist v db of
             Inl err \<Rightarrow> (Inl err, db)
           | Inr db' \<Rightarrow> (Inr \<lparr>message = msg, data_verification_id = None\<rparr>, db')))"

subsection \<open>Statistics (admin) and the caller's verified ROMs\<close>

definition get_verification_stats_route ::
  "user \<Rightarrow> verification_db \<Rightarrow> http_error + verification_stats" where
  "get_verification_stats_route u db =
     (if \<not> is_admin u then Inl admin_required else Inr (get_verification_stats db))"

record verified_rom_entry =
  vr_rom_id :: ident
  vr_rom_name :: string
  vr_platform :: string
  vr_verified_at :: timestamp
  vr_verifier :: "string option"
  vr_notes :: "string option"

text \<open>
  One \<open>VerifiedRomSchema\<close>: its \<open>verified_at\<close> is a required \<open>datetime\<close>, so
  a row without a decision time fails validation (None, the route's 500), as
  does a row whose ROM relationship is missing.
\<close>

definition verified_entry_of ::
  "catalog \<Rightarrow> user_table \<Rightarrow> rom_verification \<Rightarrow> verified_rom_entry option" where
  "verified_entry_of roms users v =
     (case (verification_rom roms v, verified_at v) of
        (Some r, Some t) \<Rightarrow>
          Some \<lparr>vr_rom_id = rom_id v, vr_rom_name = fs_name r, vr_platform = platform_name r,
                vr_verified_at = t,
                vr_verifier = map_option username (verification_verifier users v),
                vr_notes = verification_notes v\<rparr>
      | _ \<Rightarrow> None)"

definition get_my_verified_roms ::
  "catalog \<Rightarrow> user_table \<Rightarrow> user \<Rightarrow> verification_db \<Rightarrow> http_error + verified_rom_entry list" where
  "get_my_verified_roms roms users u db =
     (case those_entries (map (verified_entry_of roms users)
                               (get_verifications_by_user_and_status db (user_ident u) VERIFIED)) of
        None \<Rightarrow> Inl internal_server_error
      | Some es \<Rightarrow> Inr es)"

subsection \<open>Sample data\<close>

text \<open>
  The scenario of the spec: user 3 claims ROM 7 with the MD5 and SHA-1 of the
  empty file, created at time 0 (deadline 23:59:59 of that day); user 1 is an
  admin. The catalog entry's digests are parameters.
\<close>

definition sample_md5 :: string where
  "sample_md5 = ''d41d8cd98f00b204e9800998ecf8427e''"

definition sample_sha1 :: string where
  "sample_sha1 = ''da39a3ee5e6b4b0d3255bfef95601890afd80709''"

definition sample_row :: rom_verification where
  "sample_row =
     \<lparr>ver_id = 1, rom_id = 7, user_id = 3, status = PENDING, uploaded_file_name = ''game.gba'',
      uploaded_file_size = 0, uploaded_md5_hash = sample_md5, uploaded_sha1_hash = sample_sha1,
      verification_notes = None, verified_at = None, verified_by = None,
      expires_at = 86399000000, created_at = 0\<rparr>"

definition sample_db :: verification_db where
  "sample_db = \<lparr>rows = [sample_row], next_id = 2\<rparr>"

definition sample_admin :: user where
  "sample_admin = \<lparr>user_ident = 1, username = ''admin'', role = ADMIN\<rparr>"

definition sample_player :: user where
  "sample_player = \<lparr>user_ident = 3, username = ''player'', role = VIEWER\<rparr>"

definition sample_rom :: "string option \<Rightarrow> string option \<Rightarrow> rom" where
  "sample_rom m s1 =
     \<lparr>fs_name = ''game.gba'', fs_extension = ''gba'', md5_hash = m, sha1_hash = s1,
      platform_name = ''Game Boy Advance''\<rparr>"

definition sample_hasher :: "nat hasher" where
  "sample_hasher = \<lparr>md5_hexdigest = (\<lambda>_. sample_md5), sha1_hexdigest = (\<lambda>_. sample_sha1)\<rparr>"

lemmas sample_defs = sample_md5_def sample_sha1_def sample_row_def sample_db_def sample_admin_def
  sample_player_def sample_rom_def sample_hasher_def

subsection \<open>Lemmas shared by the route proofs\<close>

lemma add_verification_get:
  assumes "db_wf db" "add_verification now v db = Inr (v', db')"
  shows "get_verification db' j = (if j = next_id db then Some v' else get_verification db j)"
proof -
  from assms(2) have v': "ver_id v' = next_id db"
    and db': "db' = db\<lparr>rows := rows db @ [v'], next_id := Suc (next_id db)\<rparr>"
    by (auto simp: add_verification_Inr)
  have "find (\<lambda>w. ver_id w = next_id db) (rows db) = None"
    using assms(1) by (auto simp: db_wf_def list_all_iff find_None_iff)
  then show ?thesis
    using v' db' by (auto simp: get_verification_def find_append_case split: option.splits)
qed

lemma update_verification_get:
  assumes "db_wf db" "update_verification db i data = Inr (v', db')"
  shows "get_verification db' j = (if j = i then Some v' else get_verification db j)"
proof -
  obtain w ys zs where sp: "rows db = ys @ w # zs" "i \<notin> set (map ver_id ys)" "i \<notin> set (map ver_id zs)"
    "ver_id w = i" "v' = set_fields data w" "db' = db\<lparr>rows := ys @ v' # zs\<rparr>"
    using update_verification_Inr [OF assms] by metis
  have n: "find (\<lambda>x. ver_id x = i) ys = None" using sp(2) by (auto simp: find_None_iff)
  show ?thesis
    using sp n by (simp add: get_verification_def find_append_case split: option.splits)
qed

lemma update_verification_found:
  assumes "db_wf db" "get_verification db i = Some v" "update_verification db i data = Inr (v', db')"
  shows "v' = set_fields data v"
  using assms by (auto simp: update_verification_def Let_def split: option.splits if_splits)

lemma get_verification_Some: "get_verification db i = Some v \<Longrightarrow> v \<in> set (rows db) \<and> ver_id v = i"
  by (auto simp: get_verification_def find_Some_iff)

lemma wf_same_pair_same_row:
  assumes "db_wf db" "v \<in> set (rows db)" "w \<in> set (rows db)" "same_pair v w"
  shows "v = w"
proof -
  have "inj_on (\<lambda>v. (rom_id v, user_id v)) (set (rows db))"
    using assms(1) by (simp add: db_wf_def distinct_map)
  then show ?thesis using assms(2-4) by (auto simp: same_pair_def dest: inj_onD)
qed

text \<open>An update that writes only review fields of an existing row never fails.\<close>

lemma update_review_fields_Inr:
  assumes "db_wf db" "get_verification db i = Some w"
  shows "\<exists>db'. update_verification db i
     [Set_status a, Set_verified_at b, Set_verified_by c, Set_verification_notes d] =
     Inr (w\<lparr>status := a, verified_at := b, verified_by := c, verification_notes := d\<rparr>, db')"
proof -
  let ?w' = "w\<lparr>status := a, verified_at := b, verified_by := c, verification_notes := d\<rparr>"
  from assms(2) have w: "w \<in> set (rows db)" "ver_id w = i" by (simp_all add: get_verification_Some)
  have fits: "column_fits ?w'"
    using assms(1) w by (auto simp: db_wf_def list_all_iff column_fits_def)
  have "\<not> list_ex (\<lambda>x. ver_id x \<noteq> i \<and> same_pair ?w' x) (rows db)"
  proof
    assume "list_ex (\<lambda>x. ver_id x \<noteq> i \<and> same_pair ?w' x) (rows db)"
    then obtain x where "x \<in> set (rows db)" "ver_id x \<noteq> i" "same_pair w x"
      by (auto simp: list_ex_iff same_pair_def)
    with assms(1) w show False using wf_same_pair_same_row by blast
  qed
  with assms(2) fits show ?thesis
    by (simp add: update_verification_def Let_def)
qed

lemma verify_persist_review:
  assumes "db_wf db" "get_verification db (ver_id w) = Some w"
  shows "\<exists>db'. verify_persist (w\<lparr>status := a, verified_at := b, verified_by := c, verification_notes := d\<rparr>) db = Inr db' \<and>
    get_verification db' (ver_id w) = Some (w\<lparr>status := a, verified_at := b, verified_by := c, verification_notes := d\<rparr>) \<and>
    db_wf db' \<and> (\<forall>j. j \<noteq> ver_id w \<longrightarrow> get_verification db' j = get_verification db j)"
proof -
  obtain db' where u: "update_verification db (ver_id w)
     [Set_status a, Set_verified_at b, Set_verified_by c, Set_verification_notes d] =
     Inr (w\<lparr>status := a, verified_at := b, verified_by := c, verification_notes := d\<rparr>, db')"
    using update_review_fields_Inr [OF assms] by blast
  have "verify_persist (w\<lparr>status := a, verified_at := b, verified_by := c, verification_notes := d\<rparr>) db = Inr db'"
    using u by (simp add: verify_persist_def)
  with update_verification_get [OF assms(1) u] update_verification_wf [OF assms(1) u] show ?thesis
    by auto
qed

lemma verify_decide_Inr:
  assumes "verify_decide roms now now' u vid approved n db = Inr (v', msg)"
  obtains w st at vb nt where "get_verification db vid = Some w" "ver_id w = vid"
    "v' = w\<lparr>status := st, verified_at := at, verified_by := vb, verification_notes := nt\<rparr>"
  using assms
  by (auto simp: verify_decide_def verify_ownership_def reject_verification_def get_verification_Some
      split: if_splits option.splits)

lemma verify_rom_ownership_decided:
  assumes "db_wf db" "verify_decide roms now now' u vid approved n db = Inr (v', msg)"
  shows "\<exists>db'. verify_rom_ownership roms now now' u vid approved n db =
      (Inr \<lparr>message = msg, data_verification_id = None\<rparr>, db') \<and>
    get_verification db' vid = Some v' \<and> db_wf db' \<and>
    (\<forall>j. j \<noteq> vid \<longrightarrow> get_verification db' j = get_verification db j)"
proof -
  obtain w a b c d where w: "get_verification db vid = Some w" "ver_id w = vid"
    and v': "v' = w\<lparr>status := a, verified_at := b, verified_by := c, verification_notes := d\<rparr>"
    using verify_decide_Inr [OF assms(2)] by metis
  obtain db' where p: "verify_persist v' db = Inr db'" "get_verification db' vid = Some v'" "db_wf db'"
    "\<forall>j. j \<noteq> vid \<longrightarrow> get_verification db' j = get_verification db j"
    using verify_persist_review [OF assms(1), where w = w and a = a and b = b and c = c and d = d] w v' by auto
  then show ?thesis
    using assms(2) by (auto simp: verify_rom_ownership_def)
qed

lemma sample_db_wf: "db_wf sample_db"
  by (simp add: db_wf_def column_fits_def sample_defs)

lemma sample_get: "get_verification sample_db 1 = Some sample_row"
  by (simp add: get_verification_def sample_defs)

text \<open>
  C2: an admin approving a pending, unexpired verification whose uploaded MD5 or SHA-1 equals the ROM's (ignoring case) makes it VERIFIED, with the admin as reviewer, the current time and the given notes, and reports success.
\<close>

theorem verify_approve_match:
  assumes "db_wf db" "is_admin u" "get_verification db vid = Some v" "can_verify now v"
    "roms (rom_id v) = Some r" "hash_matches r v"
  shows "\<exists>db'. verify_rom_ownership roms now now' u vid True n db =
      (Inr \<lparr>message = ''ROM ownership verified successfully'', data_verification_id = None\<rparr>, db') \<and>
    get_verification db' vid =
      Some (v\<lparr>status := VERIFIED, verified_at := Some now', verified_by := Some (user_ident u),
              verification_notes := n\<rparr>)"
proof -
  have "verify_decide roms now now' u vid True n db =
     Inr (verify_ownership now' (user_ident u) n v, ''ROM ownership verified successfully'')"
    using assms by (simp add: verify_decide_def)
  from verify_rom_ownership_decided [OF assms(1) this] show ?thesis
    by (auto simp: verify_ownership_def)
qed

lemma verify_approve_match_witness:
  "db_wf sample_db \<and> is_admin sample_admin \<and> get_verification sample_db 1 = Some sample_row \<and>
   can_verify 1000 sample_row \<and>
   [7 \<mapsto> sample_rom (Some ''D41D8CD98F00B204E9800998ECF8427E'') (Some ''0000'')] (rom_id sample_row) =
     Some (sample_rom (Some ''D41D8CD98F00B204E9800998ECF8427E'') (Some ''0000'')) \<and>
   hash_matches (sample_rom (Some ''D41D8CD98F00B204E9800998ECF8427E'') (Some ''0000'')) sample_row \<and>
   (\<exists>db'. verify_rom_ownership [7 \<mapsto> sample_rom (Some ''D41D8CD98F00B204E9800998ECF8427E'') (Some ''0000'')]
        1000 1001 sample_admin 1 True None sample_db =
      (Inr \<lparr>message = ''ROM ownership verified successfully'', data_verification_id = None\<rparr>, db') \<and>
    get_verification db' 1 = Some (sample_row\<lparr>status := VERIFIED, verified_at := Some 1001,
      verified_by := Some 1, verification_notes := None\<rparr>))"
proof -
  have h2: "is_admin sample_admin" by (simp add: is_admin_def sample_defs)
  have h4: "can_verify 1000 sample_row" by (simp add: can_verify_def is_expired_def sample_defs)
  have h5: "[7 \<mapsto> sample_rom (Some ''D41D8CD98F00B204E9800998ECF8427E'') (Some ''0000'')] (rom_id sample_row) =
     Some (sample_rom (Some ''D41D8CD98F00B204E9800998ECF8427E'') (Some ''0000''))"
    by (simp add: sample_defs)
  have h6: "hash_matches (sample_rom (Some ''D41D8CD98F00B204E9800998ECF8427E'') (Some ''0000'')) sample_row"
    by code_simp
  show ?thesis
    using sample_db_wf h2 sample_get h4 h5 h6
      verify_approve_match [where roms = "[7 \<mapsto> sample_rom (Some ''D41D8CD98F00B204E9800998ECF8427E'') (Some ''0000'')]"
        and n = None and now' = 1001, OF sample_db_wf h2 sample_get h4 h5 h6]
    by (simp add: sample_admin_def)
qed

text \<open>
  C3: an approval where neither digest matches stores REJECTED instead, with notes defaulting to "Hash mismatch" when none (or an empty string) is given.
\<close>

theorem verify_approve_mismatch:
  assumes "db_wf db" "is_admin u" "get_verification db vid = Some v" "can_verify now v"
    "roms (rom_id v) = Some r" "\<not> hash_matches r v"
  shows "\<exists>db'. verify_rom_ownership roms now now' u vid True n db =
      (Inr \<lparr>message = ''ROM ownership verification rejected - hash mismatch'', data_verification_id = None\<rparr>, db') \<and>
    get_verification db' vid =
      Some (v\<lparr>status := REJECTED, verified_at := Some now', verified_by := Some (user_ident u),
              verification_notes := Some (py_or n ''Hash mismatch'')\<rparr>)"
proof -
  have "verify_decide roms now now' u vid True n db =
     Inr (reject_verification now' (user_ident u) (Some (py_or n ''Hash mismatch'')) v,
          ''ROM ownership verification rejected - hash mismatch'')"
    using assms by (simp add: verify_decide_def)
  from verify_rom_ownership_decided [OF assms(1) this] show ?thesis
    by (auto simp: reject_verification_def)
qed

lemma verify_approve_mismatch_witness:
  "\<not> hash_matches (sample_rom (Some ''ffff'') None) sample_row \<and>
   (\<exists>db'. verify_rom_ownership [7 \<mapsto> sample_rom (Some ''ffff'') None] 1000 1001 sample_admin 1 True None sample_db =
      (Inr \<lparr>message = ''ROM ownership verification rejected - hash mismatch'', data_verification_id = None\<rparr>, db') \<and>
    get_verification db' 1 = Some (sample_row\<lparr>status := REJECTED, verified_at := Some 1001,
      verified_by := Some 1, verification_notes := Some ''Hash mismatch''\<rparr>))"
proof -
  have h2: "is_admin sample_admin" by (simp add: is_admin_def sample_defs)
  have h4: "can_verify 1000 sample_row" by (simp add: can_verify_def is_expired_def sample_defs)
  have h5: "[7 \<mapsto> sample_rom (Some ''ffff'') None] (rom_id sample_row) = Some (sample_rom (Some ''ffff'') None)"
    by (simp add: sample_defs)
  have h6: "\<not> hash_matches (sample_rom (Some ''ffff'') None) sample_row"
    by (simp add: hash_matches_def sample_defs py_lower_def py_lower_char_def)
  show ?thesis
    using h6 verify_approve_mismatch [where roms = "[7 \<mapsto> sample_rom (Some ''ffff'') None]" and n = None and now' = 1001,
        OF sample_db_wf h2 sample_get h4 h5 h6]
    by (simp add: sample_admin_def)
qed

text \<open>
  C4: a rejection by an admin stores REJECTED with reviewer and time whatever the digests, notes defaulting to "Rejected by admin".
\<close>

theorem verify_reject:
  assumes "db_wf db" "is_admin u" "get_verification db vid = Some v" "can_verify now v"
  shows "\<exists>db'. verify_rom_ownership roms now now' u vid False n db =
      (Inr \<lparr>message = ''ROM ownership verification rejected'', data_verification_id = None\<rparr>, db') \<and>
    get_verification db' vid =
      Some (v\<lparr>status := REJECTED, verified_at := Some now', verified_by := Some (user_ident u),
              verification_notes := Some (py_or n ''Rejected by admin'')\<rparr>)"
proof -
  have "verify_decide roms now now' u vid False n db =
     Inr (reject_verification now' (user_ident u) (Some (py_or n ''Rejected by admin'')) v,
          ''ROM ownership verification rejected'')"
    using assms by (simp add: verify_decide_def)
  from verify_rom_ownership_decided [OF assms(1) this] show ?thesis
    by (auto simp: reject_verification_def)
qed

lemma verify_reject_witness:
  "\<exists>db'. verify_rom_ownership Map.empty 1000 1001 sample_admin 1 False (Some '''') sample_db =
      (Inr \<lparr>message = ''ROM ownership verification rejected'', data_verification_id = None\<rparr>, db') \<and>
    get_verification db' 1 = Some (sample_row\<lparr>status := REJECTED, verified_at := Some 1001,
      verified_by := Some 1, verification_notes := Some ''Rejected by admin''\<rparr>)"
proof -
  have h2: "is_admin sample_admin" by (simp add: is_admin_def sample_defs)
  have h4: "can_verify 1000 sample_row" by (simp add: can_verify_def is_expired_def sample_defs)
  show ?thesis
    using verify_reject [where roms = Map.empty and n = "Some ''''" and now' = 1001, OF sample_db_wf h2 sample_get h4]
    by (simp add: sample_admin_def)
qed

text \<open>
  C1: a decision on a verification that cannot be verified (not pending, or
  past its deadline) fails with 400 and leaves the table unchanged, whatever
  the decision and the digests.
\<close>

theorem verify_refused:
  assumes "is_admin u" "get_verification db vid = Some v" "\<not> can_verify now v"
  shows "verify_rom_ownership roms now now' u vid approved n db =
    (Inl (HTTPException 400 ''Verification cannot be processed (expired or already processed)''), db)"
  using assms by (simp add: verify_rom_ownership_def verify_decide_def)

lemma verify_refused_witness:
  "\<not> can_verify 86400000000 sample_row \<and>
   verify_rom_ownership Map.empty 86400000000 86400000001 sample_admin 1 True None sample_db =
     (Inl (HTTPException 400 ''Verification cannot be processed (expired or already processed)''), sample_db)"
proof -
  have h1: "is_admin sample_admin" by (simp add: is_admin_def sample_defs)
  have h3: "\<not> can_verify 86400000000 sample_row" by (simp add: can_verify_def is_expired_def sample_defs)
  show ?thesis
    using h3 verify_refused [where roms = Map.empty and approved = True and n = None and now' = 86400000001, OF h1 sample_get h3] by simp
qed

text \<open>
  C18: an admin decision on an unknown verification id fails with 404, and an
  approval whose ROM is no longer in the catalog fails with 404; neither
  changes the table.
\<close>

theorem verify_not_found:
  "(is_admin u \<and> get_verification db vid = None \<longrightarrow>
     verify_rom_ownership roms now now' u vid approved n db =
       (Inl (HTTPException 404 ''Verification not found''), db)) \<and>
   (is_admin u \<and> get_verification db vid = Some v \<and> can_verify now v \<and> roms (rom_id v) = None \<longrightarrow>
     verify_rom_ownership roms now now' u vid True n db = (Inl (HTTPException 404 ''ROM not found''), db))"
  by (simp add: verify_rom_ownership_def verify_decide_def)

lemma verify_not_found_witness:
  "verify_rom_ownership Map.empty 1000 1001 sample_admin 2 True None sample_db =
     (Inl (HTTPException 404 ''Verification not found''), sample_db) \<and>
   verify_rom_ownership Map.empty 1000 1001 sample_admin 1 True None sample_db =
     (Inl (HTTPException 404 ''ROM not found''), sample_db)"
proof -
  have h1: "is_admin sample_admin" by (simp add: is_admin_def sample_defs)
  have h2: "get_verification sample_db 2 = None" by (simp add: get_verification_def sample_defs)
  have h4: "can_verify 1000 sample_row" by (simp add: can_verify_def is_expired_def sample_defs)
  have h5: "(Map.empty :: catalog) (rom_id sample_row) = None" by simp
  show ?thesis
    using verify_not_found [of sample_admin sample_db 2 Map.empty 1000 1001 True None sample_row]
      verify_not_found [of sample_admin sample_db 1 Map.empty 1000 1001 True None sample_row]
      h1 h2 h4 h5 sample_get by simp
qed

lemma update_verification_same_pair:
  assumes "db_wf db" "get_verification db i = Some w" "column_fits (set_fields data w)"
    "same_pair (set_fields data w) w"
  shows "\<exists>db'. update_verification db i data = Inr (set_fields data w, db')"
proof -
  from assms(2) have w: "w \<in> set (rows db)" "ver_id w = i" by (simp_all add: get_verification_Some)
  have "\<not> list_ex (\<lambda>x. ver_id x \<noteq> i \<and> same_pair (set_fields data w) x) (rows db)"
  proof
    assume "list_ex (\<lambda>x. ver_id x \<noteq> i \<and> same_pair (set_fields data w) x) (rows db)"
    then obtain x where "x \<in> set (rows db)" "ver_id x \<noteq> i" "same_pair w x"
      using assms(4) by (auto simp: list_ex_iff same_pair_def)
    with assms(1) w show False using wf_same_pair_same_row by blast
  qed
  with assms(2,3) show ?thesis
    by (simp add: update_verification_def Let_def)
qed

lemma find_pair_Some:
  "get_verification_by_rom_and_user db r u = Some e \<Longrightarrow> e \<in> set (rows db) \<and> rom_id e = r \<and> user_id e = u"
  by (auto simp: get_verification_by_rom_and_user_def find_Some_iff)

lemma set_fields_upload_data [simp]:
  "set_fields (upload_data h u rid fn c) e =
   e\<lparr>rom_id := rid, user_id := user_ident u, uploaded_file_name := fn, uploaded_file_size := length c,
     uploaded_md5_hash := md5_hexdigest h c, uploaded_sha1_hash := sha1_hexdigest h c, status := PENDING\<rparr>"
  by (simp add: upload_data_def)

lemma upload_check_Inr:
  "upload_check roms u rid fn db = Inr (ex, r) \<longleftrightarrow>
   roms rid = Some r \<and> ex = get_verification_by_rom_and_user db rid (user_ident u) \<and>
   (case ex of None \<Rightarrow> True | Some e \<Rightarrow> status e \<noteq> VERIFIED) \<and>
   py_endswith (py_lower fn) (py_lower (fs_extension r))"
  by (auto simp: upload_check_def Let_def split: option.splits)

lemma get_verification_row:
  "db_wf db \<Longrightarrow> e \<in> set (rows db) \<Longrightarrow> get_verification db (ver_id e) = Some e"
  by (simp add: db_wf_def get_verification_def find_key_mem)

text \<open>
  C5: a re-upload for a pair whose row is not VERIFIED rewrites that row in place (same id, same deadline): it gets the new evidence and status PENDING, and keeps the reviewer, decision time and notes of the earlier decision.
\<close>

theorem upload_reupload_keeps_review:
  assumes "db_wf (table s)" "roms rid = Some r"
    "get_verification_by_rom_and_user (table s) rid (user_ident u) = Some e" "status e \<noteq> VERIFIED"
    "py_endswith (py_lower fn) (py_lower (fs_extension r))"
    "column_fits (set_fields (upload_data h u rid fn c) e)"
  shows "\<exists>s'. upload_rom_for_verification h roms now u rid fn c No_fault s =
      (Inr \<lparr>message = ''ROM uploaded successfully for verification'', data_verification_id = Some (ver_id e)\<rparr>, s') \<and>
    get_verification (table s') (ver_id e) =
      Some (e\<lparr>uploaded_file_name := fn, uploaded_file_size := length c,
              uploaded_md5_hash := md5_hexdigest h c, uploaded_sha1_hash := sha1_hexdigest h c,
              status := PENDING\<rparr>)"
proof -
  let ?e' = "set_fields (upload_data h u rid fn c) e"
  from assms(3) have e: "e \<in> set (rows (table s))" "rom_id e = rid" "user_id e = user_ident u"
    by (simp_all add: find_pair_Some)
  have g: "get_verification (table s) (ver_id e) = Some e"
    using assms(1) e(1) by (rule get_verification_row)
  have sp: "same_pair ?e' e" using e by (simp add: same_pair_def)
  obtain db' where upd: "update_verification (table s) (ver_id e) (upload_data h u rid fn c) = Inr (?e', db')"
    using update_verification_same_pair [OF assms(1) g assms(6) sp] by blast
  have chk: "upload_check roms u rid fn (table s) = Inr (Some e, r)"
    using assms(2-5) by (simp add: upload_check_Inr)
  have res: "upload_rom_for_verification h roms now u rid fn c No_fault s =
      (Inr \<lparr>message = ''ROM uploaded successfully for verification'', data_verification_id = Some (ver_id e)\<rparr>,
       unlink_temp (next_temp s) ((snd (create_temp s))\<lparr>table := db'\<rparr>))"
    using chk upd by (simp add: upload_rom_for_verification_def upload_commit_def create_temp_def)
  have "get_verification db' (ver_id e) = Some ?e'"
    using update_verification_get [OF assms(1) upd] by simp
  moreover have "?e' = e\<lparr>uploaded_file_name := fn, uploaded_file_size := length c,
              uploaded_md5_hash := md5_hexdigest h c, uploaded_sha1_hash := sha1_hexdigest h c,
              status := PENDING\<rparr>"
    using e by simp
  ultimately show ?thesis
    using res by (simp add: unlink_temp_def)
qed

lemma upload_reupload_keeps_review_witness:
  "\<exists>s'. upload_rom_for_verification sample_hasher [7 \<mapsto> sample_rom None None] 100000000000 sample_player 7
      ''game2.gba'' [1, 2] No_fault
      \<lparr>table = \<lparr>rows = [sample_row\<lparr>status := REJECTED, verified_at := Some 5, verified_by := Some 1,
                                   verification_notes := Some ''Hash mismatch''\<rparr>], next_id = 2\<rparr>,
       temp_files = [], next_temp = 0\<rparr> =
      (Inr \<lparr>message = ''ROM uploaded successfully for verification'', data_verification_id = Some 1\<rparr>, s') \<and>
    get_verification (table s') 1 =
      Some (sample_row\<lparr>status := PENDING, verified_at := Some 5, verified_by := Some 1,
                       verification_notes := Some ''Hash mismatch'', uploaded_file_name := ''game2.gba'',
                       uploaded_file_size := 2\<rparr>)"
proof -
  let ?e = "sample_row\<lparr>status := REJECTED, verified_at := Some 5, verified_by := Some 1,
                                   verification_notes := Some ''Hash mismatch''\<rparr>"
  let ?s = "\<lparr>table = \<lparr>rows = [?e], next_id = 2\<rparr>, temp_files = [], next_temp = 0\<rparr> :: service_state"
  have h1: "db_wf (table ?s)" by (simp add: db_wf_def column_fits_def sample_defs)
  have h2: "[7 \<mapsto> sample_rom None None] 7 = Some (sample_rom None None)" by simp
  have h3: "get_verification_by_rom_and_user (table ?s) 7 (user_ident sample_player) = Some ?e"
    by (simp add: get_verification_by_rom_and_user_def sample_defs)
  have h4: "status ?e \<noteq> VERIFIED" by simp
  have h5: "py_endswith (py_lower ''game2.gba'') (py_lower (fs_extension (sample_rom None None)))"
    by (simp add: sample_defs model_simps)
  have h6: "column_fits (set_fields (upload_data sample_hasher sample_player 7 ''game2.gba'' [1::nat, 2]) ?e)"
    by (simp add: column_fits_def sample_defs)
  obtain s' where r: "upload_rom_for_verification sample_hasher [7 \<mapsto> sample_rom None None] 100000000000
      sample_player 7 ''game2.gba'' [1, 2] No_fault ?s =
      (Inr \<lparr>message = ''ROM uploaded successfully for verification'', data_verification_id = Some (ver_id ?e)\<rparr>, s')"
    and g: "get_verification (table s') (ver_id ?e) =
      Some (?e\<lparr>uploaded_file_name := ''game2.gba'', uploaded_file_size := length [1::nat, 2],
              uploaded_md5_hash := md5_hexdigest sample_hasher [1::nat, 2],
              uploaded_sha1_hash := sha1_hexdigest sample_hasher [1::nat, 2], status := PENDING\<rparr>)"
    using upload_reupload_keeps_review [where now = 100000000000 and roms = "[7 \<mapsto> sample_rom None None]"
        and rid = 7, OF h1 h2 h3 h4 h5 h6] by blast
  have i: "ver_id ?e = 1" by (simp add: sample_row_def)
  have eq: "?e\<lparr>uploaded_file_name := ''game2.gba'', uploaded_file_size := length [1::nat, 2],
              uploaded_md5_hash := md5_hexdigest sample_hasher [1::nat, 2],
              uploaded_sha1_hash := sha1_hexdigest sample_hasher [1::nat, 2], status := PENDING\<rparr> =
     sample_row\<lparr>status := PENDING, verified_at := Some 5, verified_by := Some 1,
                       verification_notes := Some ''Hash mismatch'', uploaded_file_name := ''game2.gba'',
                       uploaded_file_size := 2\<rparr>"
    by (simp add: sample_defs)
  show ?thesis
    using r g i eq by auto
qed

lemma add_verification_get_pair:
  assumes "add_verification now v db = Inr (v', db')"
  shows "get_verification_by_rom_and_user db' (rom_id v) (user_id v) = Some v'"
proof -
  from assms have v': "v' = v\<lparr>ver_id := next_id db, expires_at := default_expires_at now, created_at := now\<rparr>"
    "\<not> list_ex (same_pair v') (rows db)"
    and db': "db' = db\<lparr>rows := rows db @ [v'], next_id := Suc (next_id db)\<rparr>"
    by (auto simp: add_verification_Inr)
  have "find (\<lambda>w. rom_id w = rom_id v \<and> user_id w = user_id v) (rows db) = None"
    using v' by (auto simp: find_None_iff list_ex_iff same_pair_def)
  then show ?thesis
    using v' db' by (simp add: get_verification_by_rom_and_user_def find_append_case)
qed

lemma no_pair_no_same_pair:
  "get_verification_by_rom_and_user db (rom_id v) (user_id v) = None \<Longrightarrow> \<not> list_ex (same_pair v) (rows db)"
  by (auto simp: get_verification_by_rom_and_user_def find_None_iff list_ex_iff same_pair_def)

text \<open>
  C6: the first upload for a (rom, user) pair inserts one PENDING row with the next id, no review fields, the creation time and the end-of-day deadline, and returns that id.
\<close>

theorem upload_first:
  assumes "roms rid = Some r" "get_verification_by_rom_and_user (table s) rid (user_ident u) = None"
    "py_endswith (py_lower fn) (py_lower (fs_extension r))"
    "column_fits (new_verification (upload_data h u rid fn c))"
  shows "\<exists>s'. upload_rom_for_verification h roms now u rid fn c No_fault s =
      (Inr \<lparr>message = ''ROM uploaded successfully for verification'',
            data_verification_id = Some (next_id (table s))\<rparr>, s') \<and>
    get_verification_by_rom_and_user (table s') rid (user_ident u) =
      Some \<lparr>ver_id = next_id (table s), rom_id = rid, user_id = user_ident u, status = PENDING,
            uploaded_file_name = fn, uploaded_file_size = length c,
            uploaded_md5_hash = md5_hexdigest h c, uploaded_sha1_hash = sha1_hexdigest h c,
            verification_notes = None, verified_at = None, verified_by = None,
            expires_at = default_expires_at now, created_at = now\<rparr>"
proof -
  let ?v = "new_verification (upload_data h u rid fn c)"
  let ?v' = "?v\<lparr>ver_id := next_id (table s), expires_at := default_expires_at now, created_at := now\<rparr>"
  have nv: "rom_id ?v = rid" "user_id ?v = user_ident u"
    by (simp_all add: new_verification_def)
  have "\<not> list_ex (same_pair ?v') (rows (table s))"
    using no_pair_no_same_pair [of "table s" ?v'] assms(2) nv by simp
  moreover have "column_fits ?v'" using assms(4) by (simp add: column_fits_def)
  ultimately have add: "add_verification now ?v (table s) =
      Inr (?v', (table s)\<lparr>rows := rows (table s) @ [?v'], next_id := Suc (next_id (table s))\<rparr>)"
    by (simp add: add_verification_Inr)
  have chk: "upload_check roms u rid fn (table s) = Inr (None, r)"
    using assms(1-3) by (simp add: upload_check_Inr)
  have look: "get_verification_by_rom_and_user ((table s)\<lparr>rows := rows (table s) @ [?v'], next_id := Suc (next_id (table s))\<rparr>) rid (user_ident u) = Some ?v'"
    using add_verification_get_pair [OF add] nv by simp
  show ?thesis
    using chk add look
    by (simp add: upload_rom_for_verification_def upload_commit_def create_temp_def unlink_temp_def
        new_verification_def blank_verification_def)
qed

lemma upload_first_witness:
  "\<exists>s'. upload_rom_for_verification sample_hasher [7 \<mapsto> sample_rom None None] 0 sample_player 7
      ''game.gba'' [] No_fault \<lparr>table = empty_db, temp_files = [], next_temp = 0\<rparr> =
      (Inr \<lparr>message = ''ROM uploaded successfully for verification'', data_verification_id = Some 1\<rparr>, s') \<and>
    get_verification_by_rom_and_user (table s') 7 3 = Some sample_row"
proof -
  let ?s = "\<lparr>table = empty_db, temp_files = [], next_temp = 0\<rparr> :: service_state"
  have h1: "[7 \<mapsto> sample_rom None None] 7 = Some (sample_rom None None)" by simp
  have h2: "get_verification_by_rom_and_user (table ?s) 7 (user_ident sample_player) = None"
    by (simp add: get_verification_by_rom_and_user_def empty_db_def)
  have h3: "py_endswith (py_lower ''game.gba'') (py_lower (fs_extension (sample_rom None None)))"
    by (simp add: sample_defs model_simps)
  have h4: "column_fits (new_verification (upload_data sample_hasher sample_player 7 ''game.gba'' ([] :: nat list)))"
    by (simp add: column_fits_def sample_defs new_verification_def blank_verification_def)
  show ?thesis
    using upload_first [where now = 0 and roms = "[7 \<mapsto> sample_rom None None]" and rid = 7, OF h1 h2 h3 h4]
    by (simp add: sample_defs empty_db_def default_expires_at_def us_per_day_def us_per_second_def)
qed

text \<open>
  C7: the upload checks run in the code's order: unknown ROM (404) before an already verified pair (400) before a wrong extension (400), and none changes the state.
\<close>

theorem upload_errors:
  "(roms rid = None \<longrightarrow>
     upload_rom_for_verification h roms now u rid fn c fault s = (Inl (HTTPException 404 ''ROM not found''), s)) \<and>
   (roms rid = Some r \<and> get_verification_by_rom_and_user (table s) rid (user_ident u) = Some e \<and>
    status e = VERIFIED \<longrightarrow>
     upload_rom_for_verification h roms now u rid fn c fault s =
       (Inl (HTTPException 400 ''ROM ownership already verified''), s)) \<and>
   (roms rid = Some r \<and> get_verification_by_rom_and_user (table s) rid (user_ident u) = None \<and>
    \<not> py_endswith (py_lower fn) (py_lower (fs_extension r)) \<longrightarrow>
     upload_rom_for_verification h roms now u rid fn c fault s =
       (Inl (HTTPException 400 (''File must be a '' @ fs_extension r @ '' file'')), s))"
  by (simp add: upload_rom_for_verification_def upload_check_def)

lemma upload_errors_witness:
  "upload_rom_for_verification sample_hasher Map.empty 0 sample_player 7 ''game.gba'' [] No_fault
     \<lparr>table = sample_db, temp_files = [], next_temp = 0\<rparr> =
     (Inl (HTTPException 404 ''ROM not found''), \<lparr>table = sample_db, temp_files = [], next_temp = 0\<rparr>) \<and>
   upload_rom_for_verification sample_hasher [7 \<mapsto> sample_rom None None] 0 sample_player 7 ''game.gba'' [] No_fault
     \<lparr>table = \<lparr>rows = [sample_row\<lparr>status := VERIFIED\<rparr>], next_id = 2\<rparr>, temp_files = [], next_temp = 0\<rparr> =
     (Inl (HTTPException 400 ''ROM ownership already verified''),
      \<lparr>table = \<lparr>rows = [sample_row\<lparr>status := VERIFIED\<rparr>], next_id = 2\<rparr>, temp_files = [], next_temp = 0\<rparr>) \<and>
   upload_rom_for_verification sample_hasher [7 \<mapsto> sample_rom None None] 0 sample_player 7 ''game.nes'' [] No_fault
     \<lparr>table = empty_db, temp_files = [], next_temp = 0\<rparr> =
     (Inl (HTTPException 400 ''File must be a gba file''), \<lparr>table = empty_db, temp_files = [], next_temp = 0\<rparr>)"
proof -
  let ?s1 = "\<lparr>table = sample_db, temp_files = [], next_temp = 0\<rparr> :: service_state"
  let ?s2 = "\<lparr>table = \<lparr>rows = [sample_row\<lparr>status := VERIFIED\<rparr>], next_id = 2\<rparr>, temp_files = [], next_temp = 0\<rparr> :: service_state"
  let ?s3 = "\<lparr>table = empty_db, temp_files = [], next_temp = 0\<rparr> :: service_state"
  have a: "get_verification_by_rom_and_user (table ?s2) 7 (user_ident sample_player) = Some (sample_row\<lparr>status := VERIFIED\<rparr>)"
    by (simp add: get_verification_by_rom_and_user_def sample_defs)
  have b: "get_verification_by_rom_and_user (table ?s3) 7 (user_ident sample_player) = None"
    by (simp add: get_verification_by_rom_and_user_def empty_db_def)
  have c: "\<not> py_endswith (py_lower ''game.nes'') (py_lower (fs_extension (sample_rom None None)))"
    by (simp add: sample_defs model_simps)
  have d: "fs_extension (sample_rom None None) = ''gba''" by (simp add: sample_defs)
  note e1 = upload_errors [where roms = Map.empty and rid = 7 and h = sample_hasher and now = 0 and u = sample_player
      and fn = "''game.gba''" and c = "[] :: nat list" and fault = No_fault and s = ?s1]
  note e2 = upload_errors [where roms = "[7 \<mapsto> sample_rom None None]" and rid = 7 and h = sample_hasher and now = 0
      and u = sample_player and fn = "''game.gba''" and c = "[] :: nat list" and fault = No_fault and s = ?s2
      and r = "sample_rom None None" and e = "sample_row\<lparr>status := VERIFIED\<rparr>"]
  note e3 = upload_errors [where roms = "[7 \<mapsto> sample_rom None None]" and rid = 7 and h = sample_hasher and now = 0
      and u = sample_player and fn = "''game.nes''" and c = "[] :: nat list" and fault = No_fault and s = ?s3
      and r = "sample_rom None None"]
  show ?thesis
    using e1 e2 e3 a b c d by simp
qed

lemma fresh_temp: "list_all (\<lambda>t. t < next_temp s) (temp_files s) \<Longrightarrow> removeAll (next_temp s) (temp_files s) = temp_files s"
  by (auto simp: list_all_iff intro: removeAll_id)

text \<open>
  C8: the temporary file of an upload is left on disk exactly when reading or writing the upload fails after the checks passed; every other path removes it or never creates it.
\<close>

theorem upload_temp_files:
  assumes "list_all (\<lambda>t. t < next_temp s) (temp_files s)"
    "upload_rom_for_verification h roms now u rid fn c fault s = (res, s')"
  shows "temp_files s' =
    (if isl (upload_check roms u rid fn (table s)) \<or> fault = No_fault \<or> fault = Create_fails
     then temp_files s else temp_files s @ [next_temp s])"
  using assms fresh_temp [OF assms(1)]
  by (auto simp: upload_rom_for_verification_def upload_commit_def create_temp_def unlink_temp_def Let_def
      split: sum.splits io_fault.splits option.splits prod.splits)

lemma upload_temp_files_witness:
  "list_all (\<lambda>t. t < next_temp \<lparr>table = empty_db, temp_files = [], next_temp = 0\<rparr>) [] \<and>
   temp_files (snd (upload_rom_for_verification sample_hasher [7 \<mapsto> sample_rom None None] 0 sample_player 7
      ''game.gba'' [] Read_fails \<lparr>table = empty_db, temp_files = [], next_temp = 0\<rparr>)) = [0]"
proof -
  let ?s = "\<lparr>table = empty_db, temp_files = [], next_temp = 0\<rparr> :: service_state"
  have h: "list_all (\<lambda>t. t < next_temp ?s) (temp_files ?s)" by simp
  obtain res s' where r: "upload_rom_for_verification sample_hasher [7 \<mapsto> sample_rom None None] 0 sample_player 7
      ''game.gba'' [] Read_fails ?s = (res, s')"
    by (cases "upload_rom_for_verification sample_hasher [7 \<mapsto> sample_rom None None] 0 sample_player 7
      ''game.gba'' ([] :: nat list) Read_fails ?s")
  have c: "\<not> isl (upload_check [7 \<mapsto> sample_rom None None] sample_player 7 ''game.gba'' (table ?s))"
    by (simp add: upload_check_def get_verification_by_rom_and_user_def empty_db_def sample_defs model_simps)
  show ?thesis
    using upload_temp_files [OF h r] c r by simp
qed

text \<open>
  The status route reports "none" when the caller has no verification for the ROM, and otherwise the status value, can_verify as pending-and-not-past-deadline, and is_expired as past-deadline.
\<close>

lemma get_verification_status_spec:
  "st_status (get_verification_status now now' u rid db) =
     (case get_verification_by_rom_and_user db rid (user_ident u) of None \<Rightarrow> ''none''
      | Some v \<Rightarrow> status_value (status v)) \<and>
   st_can_verify (get_verification_status now now' u rid db) =
     map_option (\<lambda>v. status v = PENDING \<and> now \<le> expires_at v) (get_verification_by_rom_and_user db rid (user_ident u)) \<and>
   st_is_expired (get_verification_status now now' u rid db) =
     map_option (\<lambda>v. expires_at v < now') (get_verification_by_rom_and_user db rid (user_ident u))"
  by (auto simp: get_verification_status_def can_verify_iff is_expired_def split: option.splits)

text \<open>
  C15: the admin routes (decision, pending list, statistics) answer 403 to a caller whose role is not admin, before any other check, and change nothing.
\<close>

theorem admin_routes_gated:
  assumes "\<not> is_admin u"
  shows "verify_rom_ownership roms now now' u vid a n db = (Inl (HTTPException 403 ''Admin access required''), db) \<and>
    get_pending_verifications roms users clk u db = Inl (HTTPException 403 ''Admin access required'') \<and>
    get_verification_stats_route u db = Inl (HTTPException 403 ''Admin access required'')"
  using assms
  by (simp add: verify_rom_ownership_def verify_decide_def get_pending_verifications_def
      get_verification_stats_route_def admin_required_def)

lemma admin_routes_gated_witness:
  "\<not> is_admin sample_player \<and>
   get_verification_stats_route sample_player sample_db = Inl (HTTPException 403 ''Admin access required'')"
proof -
  have h: "\<not> is_admin sample_player" by (simp add: is_admin_def sample_defs)
  show ?thesis using h admin_routes_gated [OF h, of Map.empty 1000 1001 1 True None sample_db Map.empty] by simp
qed

lemma digest_matches_lower: "digest_matches r (py_lower x) = digest_matches r x"
  by (cases r) simp_all

text \<open>
  C16: the digest rule is a case-insensitive OR: lower-casing the uploaded digests changes nothing, either matching digest suffices, and a ROM with neither digest (None or empty) never matches.
\<close>

theorem hash_matches_rule:
  "hash_matches r v =
     hash_matches r (v\<lparr>uploaded_md5_hash := py_lower (uploaded_md5_hash v),
                       uploaded_sha1_hash := py_lower (uploaded_sha1_hash v)\<rparr>) \<and>
   (digest_matches (md5_hash r) (uploaded_md5_hash v) \<longrightarrow> hash_matches r v) \<and>
   (digest_matches (sha1_hash r) (uploaded_sha1_hash v) \<longrightarrow> hash_matches r v) \<and>
   (md5_hash r \<in> {None, Some []} \<and> sha1_hash r \<in> {None, Some []} \<longrightarrow> \<not> hash_matches r v)"
  by (auto simp: hash_matches_def digest_matches_lower)

lemma hash_matches_rule_witness:
  "digest_matches (md5_hash (sample_rom (Some ''D41D8CD98F00B204E9800998ECF8427E'') (Some ''00''))) (uploaded_md5_hash sample_row) \<and>
   hash_matches (sample_rom (Some ''D41D8CD98F00B204E9800998ECF8427E'') (Some ''00'')) sample_row \<and>
   \<not> hash_matches (sample_rom None (Some '''')) sample_row"
proof -
  have m: "digest_matches (md5_hash (sample_rom (Some ''D41D8CD98F00B204E9800998ECF8427E'') (Some ''00''))) (uploaded_md5_hash sample_row)"
    by code_simp
  have n: "md5_hash (sample_rom None (Some '''')) \<in> {None, Some []} \<and> sha1_hash (sample_rom None (Some '''')) \<in> {None, Some []}"
    by (simp add: sample_defs)
  show ?thesis
    using m n hash_matches_rule [of "sample_rom (Some ''D41D8CD98F00B204E9800998ECF8427E'') (Some ''00'')" sample_row]
      hash_matches_rule [of "sample_rom None (Some '''')" sample_row]
    by blast
qed

lemma those_entries_Some:
  "those_entries xs = Some ys \<Longrightarrow> list_all2 (\<lambda>x y. x = Some y) xs ys"
  by (induction xs arbitrary: ys) (auto split: option.splits)

lemma pending_entries_nth:
  "i < length vs \<Longrightarrow>
   pending_entries roms users clk vs ! i = pending_entry_of roms users (clk (2 * i)) (clk (2 * i + 1)) (vs ! i)"
  by (simp add: pending_entries_def)

lemma pending_entry_of_Some:
  "pending_entry_of roms users now now' v = Some e \<Longrightarrow>
   pe_id e = ver_id v \<and> pe_expires_at e = expires_at v \<and>
   pe_can_verify e = can_verify now v \<and> pe_is_expired e = is_expired now' v"
  by (auto simp: pending_entry_of_def split: option.splits)

lemma get_verifications_by_status_status:
  "v \<in> set (get_verifications_by_status db st) \<Longrightarrow> status v = st"
  using order_by_created_desc_props(1) [of "filter (\<lambda>v. status v = st) (rows db)"]
  by (metis (mono_tags, lifting) get_verifications_by_status_def mem_Collect_eq set_filter set_mset_mset)

text \<open>
  C17: the admin pending list has one entry per PENDING row in the listing's
  order; entry \<open>i\<close> reports can_verify from the clock reading \<open>2 i\<close> and
  is_expired from the later reading \<open>2 i + 1\<close>, so when the deadline falls
  between the two readings an entry reports both as true.
\<close>

theorem pending_list_readings:
  assumes "get_pending_verifications roms users clk u db = Inr es"
  shows "is_admin u \<and> map pe_id es = map ver_id (get_verifications_by_status db PENDING) \<and>
    (\<forall>i < length es. pe_can_verify (es ! i) = (clk (2 * i) \<le> pe_expires_at (es ! i)) \<and>
       pe_is_expired (es ! i) = (pe_expires_at (es ! i) < clk (2 * i + 1)))"
proof -
  let ?vs = "get_verifications_by_status db PENDING"
  from assms have adm: "is_admin u" and th: "those_entries (pending_entries roms users clk ?vs) = Some es"
    by (auto simp: get_pending_verifications_def split: if_splits option.splits)
  from those_entries_Some [OF th] have len: "length es = length ?vs"
    and e: "\<And>i. i < length ?vs \<Longrightarrow>
      pending_entry_of roms users (clk (2 * i)) (clk (2 * i + 1)) (?vs ! i) = Some (es ! i)"
    by (auto simp: list_all2_conv_all_nth pending_entries_def)
  have p: "\<And>i. i < length ?vs \<Longrightarrow> status (?vs ! i) = PENDING"
    using get_verifications_by_status_status nth_mem by blast
  have "\<And>i. i < length ?vs \<Longrightarrow> pe_id (es ! i) = ver_id (?vs ! i) \<and>
      pe_can_verify (es ! i) = (clk (2 * i) \<le> pe_expires_at (es ! i)) \<and>
      pe_is_expired (es ! i) = (pe_expires_at (es ! i) < clk (2 * i + 1))"
    using pending_entry_of_Some [OF e] p by (auto simp: can_verify_iff is_expired_def)
  with len adm show ?thesis by (auto intro: nth_equalityI)
qed

lemma pending_list_readings_witness:
  "\<exists>es. get_pending_verifications [7 \<mapsto> sample_rom None None] [3 \<mapsto> sample_player]
     (\<lambda>i. 86399000000 + int i) sample_admin sample_db = Inr es \<and>
   length es = 1 \<and> pe_can_verify (es ! 0) \<and> pe_is_expired (es ! 0)"
proof -
  have "\<exists>es. get_pending_verifications [7 \<mapsto> sample_rom None None] [3 \<mapsto> sample_player]
     (\<lambda>i. 86399000000 + int i) sample_admin sample_db = Inr es \<and>
     length es = 1 \<and> pe_expires_at (es ! 0) = 86399000000"
    by (simp add: get_pending_verifications_def is_admin_def pending_entries_def
        get_verifications_by_status_def order_by_created_desc_def pending_entry_of_def
        verification_rom_def verification_user_def sample_defs)
  then obtain es where e: "get_pending_verifications [7 \<mapsto> sample_rom None None] [3 \<mapsto> sample_player]
     (\<lambda>i. 86399000000 + int i) sample_admin sample_db = Inr es"
    and l: "length es = 1" and x: "pe_expires_at (es ! 0) = 86399000000" by blast
  show ?thesis using e l x pending_list_readings [OF e] by auto
qed

end
