(* ===== verification/Cleanup_Task.thy ===== *)
theory Cleanup_Task
  imports Verification_Store
begin

text \<open>
  The periodic sweep: \<open>CleanupExpiredVerificationsTask\<close> of
  \<open>src/backend/tasks/scheduled/cleanup_expired_verifications.py\<close> and its
  registration in \<open>src/backend/startup.py\<close>. The task's state is whether it
  is scheduled; \<open>ENABLE_SCHEDULED_CLEANUP_VERIFICATIONS\<close> is a parameter.
  A run with the flag off unschedules the task; otherwise it calls
  \<open>mark_expired_verifications\<close> in one transaction, and an exception (the
  commit failing) is logged and swallowed, leaving the table as it was.
  The run returns the count it logs (None when nothing is logged as a count).
  \<open>startup_main\<close> is the task registration of \<open>startup.main\<close>, for all
  four periodic tasks. Lemmas: startup's part for the sweep is
  \<open>cleanup_task_init\<close>; a run changes only pending rows past their
  deadline, and only to EXPIRED; it keeps the table's constraints.
\<close>

record cleanup_task =
  scheduled :: bool

datatype commit_outcome = Commit_ok | Commit_fails

text \<open>\<open>startup.main\<close>: \<open>if ENABLE_SCHEDULED_CLEANUP_VERIFICATIONS: task.init()\<close>.\<close>

definition cleanup_task_init :: "bool \<Rightarrow> cleanup_task \<Rightarrow> cleanup_task" where
  "cleanup_task_init enabled t = (if enabled then t\<lparr>scheduled := True\<rparr> else t)"

definition cleanup_run ::
  "bool \<Rightarrow> commit_outcome \<Rightarrow> timestamp \<Rightarrow> cleanup_task \<Rightarrow> verification_db \<Rightarrow>
   nat option \<times> cleanup_task \<times> verification_db" where
  "cleanup_run enabled outcome now t db =
     (if \<not> enabled then (None, t\<lparr>scheduled := False\<rparr>, db)
      else case outcome of
        Commit_fails \<Rightarrow> (None, t, db)
      | Commit_ok \<Rightarrow> (let (count, db') = mark_expired_verifications now db in (Some count, t, db')))"

subsection \<open>Startup\<close>

text \<open>
  \<open>startup.main\<close> registers the four periodic tasks, each under its
  configuration flag and in this order; every task's \<open>init()\<close> schedules it
  (\<open>cleanup_task_init\<close> with the flag on). The fixture loading that follows
  writes the Redis cache only and is not modelled.
\<close>

record startup_flags =
  enable_scheduled_rescan :: bool
  enable_scheduled_update_switch_titledb :: bool
  enable_scheduled_update_launchbox_metadata :: bool
  enable_scheduled_cleanup_verifications :: bool

record startup_tasks =
  scan_library_task :: cleanup_task
  update_switch_titledb_task :: cleanup_task
  update_launchbox_metadata_task :: cleanup_task
  cleanup_expired_verifications_task :: cleanup_task

definition startup_main :: "startup_flags \<Rightarrow> startup_tasks \<Rightarrow> startup_tasks" where
  "startup_main fl ts =
     (let ts1 = (if enable_scheduled_rescan fl
                 then ts\<lparr>scan_library_task := cleanup_task_init True (scan_library_task ts)\<rparr> else ts);
          ts2 = (if enable_scheduled_update_switch_titledb fl
                 then ts1\<lparr>update_switch_titledb_task := cleanup_task_init True (update_switch_titledb_task ts1)\<rparr>
                 else ts1);
          ts3 = (if enable_scheduled_update_launchbox_metadata fl
                 then ts2\<lparr>update_launchbox_metadata_task :=
                        cleanup_task_init True (update_launchbox_metadata_task ts2)\<rparr>
                 else ts2)
      in if enable_scheduled_cleanup_verifications fl
         then ts3\<lparr>cleanup_expired_verifications_task :=
                cleanup_task_init True (cleanup_expired_verifications_task ts3)\<rparr>
         else ts3)"

subsection \<open>Lemmas\<close>

text \<open>
  Startup as the service sees it: the verification sweep's part of
  \<open>startup_main\<close> is \<open>cleanup_task_init\<close> of its own flag (the step
  \<open>Startup\<close> of the service), and the other tasks do not depend on that flag.
\<close>

lemma startup_main_cleanup:
  "cleanup_expired_verifications_task (startup_main fl ts) =
     cleanup_task_init (enable_scheduled_cleanup_verifications fl) (cleanup_expired_verifications_task ts)"
  by (simp add: startup_main_def cleanup_task_init_def Let_def)

lemma startup_main_others:
  "scheduled (scan_library_task (startup_main fl ts)) =
     (enable_scheduled_rescan fl \<or> scheduled (scan_library_task ts)) \<and>
   scheduled (update_switch_titledb_task (startup_main fl ts)) =
     (enable_scheduled_update_switch_titledb fl \<or> scheduled (update_switch_titledb_task ts)) \<and>
   scheduled (update_launchbox_metadata_task (startup_main fl ts)) =
     (enable_scheduled_update_launchbox_metadata fl \<or> scheduled (update_launchbox_metadata_task ts))"
  by (simp add: startup_main_def cleanup_task_init_def Let_def)

lemma cleanup_run_table:
  "db_wf db \<Longrightarrow> snd (snd (cleanup_run en oc now t db)) =
     (if en \<and> oc = Commit_ok then expire_overdue now db else db)"
  by (cases oc) (auto simp: cleanup_run_def mark_expired_verifications_eq db_wf_def split: prod.splits)

lemma cleanup_run_wf:
  "db_wf db \<Longrightarrow> db_wf (snd (snd (cleanup_run en oc now t db)))"
  by (simp add: cleanup_run_table expire_overdue_wf)

lemma list_all2_expire_overdue:
  "list_all2 (\<lambda>v v'. v' = v \<or> status v = PENDING \<and> expires_at v < now \<and> v' = v\<lparr>status := EXPIRED\<rparr>)
     (rows db) (rows (expire_overdue now db))"
  by (auto simp: expire_overdue_def mark_expired_def list_all2_conv_all_nth)

text \<open>
  C19: a run of the scheduled task changes no row other than a pending one
  past its deadline, which becomes EXPIRED (reviewer fields and deadline
  untouched); it keeps the table's constraints; with the flag off it only
  unschedules itself.
\<close>

theorem cleanup_run_safe:
  assumes "db_wf db" "cleanup_run en oc now t db = (c, t', db')"
  shows "list_all2 (\<lambda>v v'. v' = v \<or> status v = PENDING \<and> expires_at v < now \<and> v' = v\<lparr>status := EXPIRED\<rparr>)
      (rows db) (rows db') \<and>
    db_wf db' \<and> next_id db' = next_id db \<and> (\<not> en \<longrightarrow> \<not> scheduled t' \<and> db' = db)"
proof -
  have db': "db' = (if en \<and> oc = Commit_ok then expire_overdue now db else db)"
    using cleanup_run_table [OF assms(1), of en oc now t] assms(2) by simp
  have refl: "list_all2 (\<lambda>v v'. v' = v \<or> status v = PENDING \<and> expires_at v < now \<and> v' = v\<lparr>status := EXPIRED\<rparr>)
      (rows db) (rows db)"
    by (simp add: list_all2_refl)
  have "db_wf db'" using cleanup_run_wf [OF assms(1), of en oc now t] assms(2) by simp
  moreover have "\<not> en \<longrightarrow> \<not> scheduled t' \<and> db' = db"
    using assms(2) by (auto simp: cleanup_run_def)
  ultimately show ?thesis
    using db' refl list_all2_expire_overdue [of now db] by (auto simp: expire_overdue_def)
qed

lemma cleanup_run_safe_witness:
  "db_wf \<lparr>rows = [(new_verification [Set_rom_id 7, Set_user_id 3])\<lparr>ver_id := 1, expires_at := 5\<rparr>], next_id = 2\<rparr> \<and>
   cleanup_run True Commit_ok 10 \<lparr>scheduled = True\<rparr>
     \<lparr>rows = [(new_verification [Set_rom_id 7, Set_user_id 3])\<lparr>ver_id := 1, expires_at := 5\<rparr>], next_id = 2\<rparr> =
   (Some 1, \<lparr>scheduled = True\<rparr>,
    \<lparr>rows = [(new_verification [Set_rom_id 7, Set_user_id 3])\<lparr>ver_id := 1, expires_at := 5, status := EXPIRED\<rparr>], next_id = 2\<rparr>) \<and>
   list_all2 (\<lambda>v v'. v' = v \<or> status v = PENDING \<and> expires_at v < 10 \<and> v' = v\<lparr>status := EXPIRED\<rparr>)
     [(new_verification [Set_rom_id 7, Set_user_id 3])\<lparr>ver_id := 1, expires_at := 5\<rparr>]
     [(new_verification [Set_rom_id 7, Set_user_id 3])\<lparr>ver_id := 1, expires_at := 5, status := EXPIRED\<rparr>]"
proof -
  have h: "db_wf \<lparr>rows = [(new_verification [Set_rom_id 7, Set_user_id 3])\<lparr>ver_id := 1, expires_at := 5\<rparr>], next_id = 2\<rparr>"
    by (simp add: db_wf_def column_fits_def model_simps)
  have r: "cleanup_run True Commit_ok 10 \<lparr>scheduled = True\<rparr>
     \<lparr>rows = [(new_verification [Set_rom_id 7, Set_user_id 3])\<lparr>ver_id := 1, expires_at := 5\<rparr>], next_id = 2\<rparr> =
   (Some 1, \<lparr>scheduled = True\<rparr>,
    \<lparr>rows = [(new_verification [Set_rom_id 7, Set_user_id 3])\<lparr>ver_id := 1, expires_at := 5, status := EXPIRED\<rparr>], next_id = 2\<rparr>)"
    by (simp add: cleanup_run_def mark_expired_verifications_def get_expired_verifications_def
        merge_row_def model_simps)
  show ?thesis using h r cleanup_run_safe [OF h r] by simp
qed

end
