(* ===== verification/Service_System.thy ===== *)
theory Service_System
  imports Rom_Verification_Api Cleanup_Task
begin

text \<open>
  The whole service as one state machine: the service state of the routes
  (table and temporary files) with the scheduled task, changed by the
  requests that write (upload, decision, a run of the sweep, startup). The
  read-only routes leave the state as it is and are not steps. Each request
  carries the clock readings \<open>datetime.now(timezone.utc)\<close> it makes (a
  decision two: the check of \<open>can_verify\<close> and the decision time); the catalog
  and the digest functions are fixed parameters.

  Two specifications of one row's history: \<open>row_step\<close>, the changes of a row
  the code can make (re-upload, approval with a matching digest, rejection,
  expiry; a decision is allowed by \<open>can_verify\<close> at the request's clock
  reading \<open>now\<close> and stamped with a later reading \<open>t\<close>, which is any
  value), with \<open>row_new\<close> for an inserted row; and the lifecycle of the
  spec's state machine on statuses (\<open>lifecycle\<close>). Lemmas: every request
  changes the table by \<open>row_step\<close>s and inserts (\<open>table_evolves\<close>); hence it
  refines the lifecycle pair by pair, and the reachable states keep the
  table's constraints, fresh temporary files and the consistency of every
  row (\<open>row_inv\<close>).
\<close>

subsection \<open>What one request may do to one row\<close>

inductive row_step :: "catalog \<Rightarrow> timestamp \<Rightarrow> rom_verification \<Rightarrow> rom_verification \<Rightarrow> bool" where
  reupload: "status v \<noteq> VERIFIED \<Longrightarrow>
    row_step roms now v (v\<lparr>uploaded_file_name := fn, uploaded_file_size := n, uploaded_md5_hash := m,
                            uploaded_sha1_hash := s, status := PENDING\<rparr>)"
| approve: "can_verify now v \<Longrightarrow> roms (rom_id v) = Some r \<Longrightarrow> hash_matches r v \<Longrightarrow>
    row_step roms now v (verify_ownership t uid nt v)"
| reject: "can_verify now v \<Longrightarrow> row_step roms now v (reject_verification t uid nt v)"
| expire: "status v = PENDING \<Longrightarrow> expires_at v < now \<Longrightarrow> row_step roms now v (mark_expired v)"

definition row_new :: "timestamp \<Rightarrow> rom_verification \<Rightarrow> bool" where
  "row_new now v \<longleftrightarrow>
     status v = PENDING \<and> verified_at v = None \<and> verified_by v = None \<and>
     verification_notes v = None \<and> created_at v = now \<and> expires_at v = default_expires_at now"

text \<open>
  A table change by one request: each old row is kept or changed by one
  \<open>row_step\<close>, in place; new rows are appended.
\<close>

definition table_evolves :: "catalog \<Rightarrow> timestamp \<Rightarrow> verification_db \<Rightarrow> verification_db \<Rightarrow> bool" where
  "table_evolves roms now db db' \<longleftrightarrow>
     list_all2 (\<lambda>v v'. v' = v \<or> row_step roms now v v') (rows db) (take (length (rows db)) (rows db')) \<and>
     list_all (row_new now) (drop (length (rows db)) (rows db'))"

text \<open>
  The same, where only the rows satisfying \<open>P\<close> (those a request addresses)
  may be changed.
\<close>

definition table_evolves_for ::
  "(rom_verification \<Rightarrow> bool) \<Rightarrow> catalog \<Rightarrow> timestamp \<Rightarrow> verification_db \<Rightarrow> verification_db \<Rightarrow> bool" where
  "table_evolves_for P roms now db db' \<longleftrightarrow>
     list_all2 (\<lambda>v v'. v' = v \<or> P v \<and> row_step roms now v v') (rows db) (take (length (rows db)) (rows db')) \<and>
     list_all (row_new now) (drop (length (rows db)) (rows db'))"

subsection \<open>The lifecycle of the spec\<close>

text \<open>
  The state machine of one (ROM, user) pair on statuses, \<open>None\<close> for no row:
  creation, re-upload of a row that is not VERIFIED, and the three exits of
  PENDING.
\<close>

inductive lifecycle :: "verification_status option \<Rightarrow> verification_status option \<Rightarrow> bool" where
  create: "lifecycle None (Some PENDING)"
| reupload: "st \<noteq> VERIFIED \<Longrightarrow> lifecycle (Some st) (Some PENDING)"
| approve: "lifecycle (Some PENDING) (Some VERIFIED)"
| reject: "lifecycle (Some PENDING) (Some REJECTED)"
| expire: "lifecycle (Some PENDING) (Some EXPIRED)"

code_pred lifecycle .

definition pair_status :: "verification_db \<Rightarrow> ident \<times> ident \<Rightarrow> verification_status option" where
  "pair_status db p = map_option status (get_verification_by_rom_and_user db (fst p) (snd p))"

subsection \<open>The service\<close>

record sys_state =
  svc :: service_state
  task :: cleanup_task

definition sys_init :: sys_state where
  "sys_init = \<lparr>svc = \<lparr>table = empty_db, temp_files = [], next_temp = 0\<rparr>, task = \<lparr>scheduled = False\<rparr>\<rparr>"

datatype 'b request =
    Upload user ident string "'b list" io_fault timestamp
  | Verify user ident bool "string option" timestamp timestamp
  | Sweep bool commit_outcome timestamp
  | Startup bool

text \<open>
  A run of the task happens only while it is scheduled; its flag is read at
  run time.
\<close>

fun sys_step :: "'b hasher \<Rightarrow> catalog \<Rightarrow> 'b request \<Rightarrow> sys_state \<Rightarrow> sys_state" where
  "sys_step h roms (Upload u rid fn c fault now) s =
     s\<lparr>svc := snd (upload_rom_for_verification h roms now u rid fn c fault (svc s))\<rparr>"
| "sys_step h roms (Verify u vid approved n now now') s =
     s\<lparr>svc := (svc s)\<lparr>table := snd (verify_rom_ownership roms now now' u vid approved n (table (svc s)))\<rparr>\<rparr>"
| "sys_step h roms (Sweep enabled outcome now) s =
     (if scheduled (task s)
      then (let (_, t', db') = cleanup_run enabled outcome now (task s) (table (svc s))
            in s\<lparr>svc := (svc s)\<lparr>table := db'\<rparr>, task := t'\<rparr>)
      else s)"
| "sys_step h roms (Startup enabled) s = s\<lparr>task := cleanup_task_init enabled (task s)\<rparr>"

fun request_time :: "'b request \<Rightarrow> timestamp" where
  "request_time (Upload _ _ _ _ _ now) = now"
| "request_time (Verify _ _ _ _ now _) = now"
| "request_time (Sweep _ _ now) = now"
| "request_time (Startup _) = 0"

text \<open>
  The rows a request addresses: an upload its caller's row for the ROM, a
  decision the row with its id, a run of the task the pending rows past
  their deadline at its clock; startup addresses none.
\<close>

fun request_touches :: "'b request \<Rightarrow> rom_verification \<Rightarrow> bool" where
  "request_touches (Upload u rid _ _ _ _) v = (rom_id v = rid \<and> user_id v = user_ident u)"
| "request_touches (Verify _ vid _ _ _ _) v = (ver_id v = vid)"
| "request_touches (Sweep _ _ now) v = (status v = PENDING \<and> expires_at v < now)"
| "request_touches (Startup _) v = False"

text \<open>
  A request stamped no earlier than \<open>t\<close>: startup carries no clock reading.
  A list of such requests is a run that starts at \<open>t\<close> or later.
\<close>

fun request_after :: "timestamp \<Rightarrow> 'b request \<Rightarrow> bool" where
  "request_after t (Startup _) = True"
| "request_after t req = (t \<le> request_time req)"

inductive reachable :: "'b hasher \<Rightarrow> catalog \<Rightarrow> sys_state \<Rightarrow> bool" for h roms where
  init: "reachable h roms sys_init"
| step: "reachable h roms s \<Longrightarrow> reachable h roms (sys_step h roms req s)"

subsection \<open>The invariant\<close>

text \<open>
  One row is consistent when it was created no later than its deadline, a
  decided row names its reviewer and decision time, and a VERIFIED row has a
  digest matching its ROM's. (Its decision time is a second clock reading,
  taken after the deadline check: it may lie past the deadline.)
\<close>

definition row_inv :: "catalog \<Rightarrow> rom_verification \<Rightarrow> bool" where
  "row_inv roms v \<longleftrightarrow>
     created_at v \<le> expires_at v \<and>
     (status v \<in> {VERIFIED, REJECTED} \<longrightarrow> verified_at v \<noteq> None \<and> verified_by v \<noteq> None) \<and>
     (status v = VERIFIED \<longrightarrow> (case roms (rom_id v) of None \<Rightarrow> False | Some r \<Rightarrow> hash_matches r v))"

definition sys_inv :: "catalog \<Rightarrow> sys_state \<Rightarrow> bool" where
  "sys_inv roms s \<longleftrightarrow>
     db_wf (table (svc s)) \<and> list_all (\<lambda>t. t < next_temp (svc s)) (temp_files (svc s)) \<and>
     distinct (temp_files (svc s)) \<and> list_all (row_inv roms) (rows (table (svc s)))"

subsection \<open>Sample runs\<close>

text \<open>
  The spec's scenario run through the service: user 3 uploads the empty file
  for ROM 7 (whose catalog MD5 is the empty file's) at time 0; the admin
  decides at time 1000; user 3 uploads again at 2000.
\<close>

definition sample_catalog :: catalog where
  "sample_catalog = [7 \<mapsto> sample_rom (Some sample_md5) None]"

definition sample_upload :: "timestamp \<Rightarrow> nat request" where
  "sample_upload t = Upload sample_player 7 ''game.gba'' [] No_fault t"

definition sample_run :: "nat request list \<Rightarrow> sys_state" where
  "sample_run reqs = fold (sys_step sample_hasher sample_catalog) reqs sys_init"

subsection \<open>Every request is a table evolution\<close>

lemma table_evolves_refl [simp]: "table_evolves roms now db db"
  by (simp add: table_evolves_def list_all2_refl)

lemma table_evolves_for_refl [simp]: "table_evolves_for P roms now db db"
  by (simp add: table_evolves_for_def list_all2_refl)

lemma table_evolves_for_evolves:
  assumes "table_evolves_for P roms now db db'"
  shows "table_evolves roms now db db'"
proof -
  have a: "list_all2 (\<lambda>v v'. v' = v \<or> P v \<and> row_step roms now v v') (rows db) (take (length (rows db)) (rows db'))"
    and n: "list_all (row_new now) (drop (length (rows db)) (rows db'))"
    using assms unfolding table_evolves_for_def by blast+
  from a have "list_all2 (\<lambda>v v'. v' = v \<or> row_step roms now v v') (rows db) (take (length (rows db)) (rows db'))"
    by (rule list_all2_mono) blast
  then show ?thesis using n unfolding table_evolves_def by blast
qed

lemma table_evolves_replace:
  assumes "rows db = ys @ w # zs" "rows db' = ys @ v' # zs" "P w" "row_step roms now w v'"
  shows "table_evolves_for P roms now db db'"
  using assms by (simp add: table_evolves_for_def list_all2_appendI list_all2_refl)

lemma table_evolves_append:
  assumes "rows db' = rows db @ [v']" "row_new now v'"
  shows "table_evolves_for P roms now db db'"
  using assms by (simp add: table_evolves_for_def list_all2_refl)

text \<open>A row a request does not address, and cannot step, is kept.\<close>

lemma table_evolves_for_keeps:
  assumes "table_evolves_for P roms now db db'" "v \<in> set (rows db)" "\<not> (P v \<and> (\<exists>v'. row_step roms now v v'))"
  shows "v \<in> set (rows db')"
proof -
  obtain i where i: "i < length (rows db)" "rows db ! i = v" using assms(2) by (metis in_set_conv_nth)
  have a: "list_all2 (\<lambda>v v'. v' = v \<or> P v \<and> row_step roms now v v') (rows db)
      (take (length (rows db)) (rows db'))"
    using assms(1) by (simp add: table_evolves_for_def)
  have l: "length (take (length (rows db)) (rows db')) = length (rows db)"
    using list_all2_lengthD [OF a] by simp
  from a i have "take (length (rows db)) (rows db') ! i = v \<or>
      P v \<and> row_step roms now v (take (length (rows db)) (rows db') ! i)"
    by (auto simp: list_all2_conv_all_nth)
  then have "take (length (rows db)) (rows db') ! i = v" using assms(3) by blast
  then show ?thesis using i l by (metis in_set_takeD nth_mem)
qed

lemma row_step_keys:
  "row_step roms now v v' \<Longrightarrow> ver_id v' = ver_id v \<and> rom_id v' = rom_id v \<and> user_id v' = user_id v"
  by (induction rule: row_step.induct) (simp_all add: model_simps)

lemma update_verification_rows:
  assumes "db_wf db" "update_verification db i data = Inr (v', db')"
  obtains ys w zs where "rows db = ys @ w # zs" "rows db' = ys @ v' # zs"
    "get_verification db i = Some w" "v' = set_fields data w"
proof -
  obtain w ys zs where sp: "rows db = ys @ w # zs" "ver_id w = i" "v' = set_fields data w"
    "db' = db\<lparr>rows := ys @ v' # zs\<rparr>"
    using update_verification_Inr [OF assms] by metis
  have "get_verification db i = Some w"
    using get_verification_row [OF assms(1), of w] sp by simp
  with sp that show ?thesis by simp
qed

lemma upload_commit_evolves:
  assumes "db_wf (table s)" "upload_check roms u rid fn (table s) = Inr (ex, r)"
  shows "table_evolves_for (\<lambda>v. rom_id v = rid \<and> user_id v = user_ident u) roms now (table s)
    (table (snd (upload_commit h now u rid fn c fault ex s)))"
proof (cases "fault = No_fault")
  case False
  then show ?thesis
    by (cases fault) (simp_all add: upload_commit_def create_temp_def)
next
  case True
  have ex: "ex = get_verification_by_rom_and_user (table s) rid (user_ident u)"
    and nv: "case ex of None \<Rightarrow> True | Some e \<Rightarrow> status e \<noteq> VERIFIED"
    using assms(2) unfolding upload_check_Inr by blast+
  show ?thesis
  proof (cases ex)
    case None
    then show ?thesis using True
      by (auto simp: upload_commit_def create_temp_def unlink_temp_def add_verification_Inr
          new_verification_def blank_verification_def row_new_def
          intro: table_evolves_append split: sum.splits prod.splits)
  next
    case (Some e)
    have e: "e \<in> set (rows (table s))" "rom_id e = rid" "user_id e = user_ident u" "status e \<noteq> VERIFIED"
      using Some ex nv find_pair_Some [of "table s" rid "user_ident u" e] by auto
    have g: "get_verification (table s) (ver_id e) = Some e"
      using get_verification_row [OF assms(1) e(1)] .
    have "table_evolves_for (\<lambda>v. rom_id v = rid \<and> user_id v = user_ident u) roms now (table s) db'"
      if u: "update_verification (table s) (ver_id e) (upload_data h u rid fn c) = Inr (v', db')" for v' db'
    proof -
      obtain ys w zs where sp: "rows (table s) = ys @ w # zs" "rows db' = ys @ v' # zs"
        "get_verification (table s) (ver_id e) = Some w" "v' = set_fields (upload_data h u rid fn c) w"
        using update_verification_rows [OF assms(1) u] by metis
      have w: "w = e" using sp(3) g by simp
      have "v' = w\<lparr>uploaded_file_name := fn, uploaded_file_size := length c,
          uploaded_md5_hash := md5_hexdigest h c, uploaded_sha1_hash := sha1_hexdigest h c, status := PENDING\<rparr>"
        using sp(4) w e(2,3) by (cases w) simp
      then have "row_step roms now w v'"
        using w e(4) row_step.reupload [of w] by simp
      moreover have "rom_id w = rid \<and> user_id w = user_ident u" using w e(2,3) by simp
      ultimately show ?thesis by (rule table_evolves_replace [OF sp(1,2), rotated])
    qed
    then show ?thesis using True Some
      by (auto simp: upload_commit_def create_temp_def unlink_temp_def split: sum.splits prod.splits)
  qed
qed

lemma upload_evolves:
  assumes "db_wf (table s)"
  shows "table_evolves_for (\<lambda>v. rom_id v = rid \<and> user_id v = user_ident u) roms now (table s)
    (table (snd (upload_rom_for_verification h roms now u rid fn c fault s)))"
  using assms upload_commit_evolves [OF assms]
  by (auto simp: upload_rom_for_verification_def split: sum.splits)

lemma verify_decide_row_step:
  "verify_decide roms now now' u vid approved n db = Inr (v', msg) \<Longrightarrow>
   \<exists>w. get_verification db vid = Some w \<and> row_step roms now w v'"
  by (auto simp: verify_decide_def split: if_splits option.splits intro: row_step.intros)

lemma verify_evolves:
  assumes "db_wf db"
  shows "table_evolves_for (\<lambda>v. ver_id v = vid) roms now db (snd (verify_rom_ownership roms now now' u vid approved n db))"
proof (cases "verify_decide roms now now' u vid approved n db")
  case (Inl err)
  then show ?thesis by (simp add: verify_rom_ownership_def)
next
  case (Inr d)
  obtain v' msg where d: "d = (v', msg)" by (cases d)
  obtain w where w: "get_verification db vid = Some w" "row_step roms now w v'"
    using verify_decide_row_step Inr d by metis
  obtain w1 st at vb nt where w1: "get_verification db vid = Some w1" "ver_id w1 = vid"
    "v' = w1\<lparr>status := st, verified_at := at, verified_by := vb, verification_notes := nt\<rparr>"
    using verify_decide_Inr Inr d by metis
  have "table_evolves_for (\<lambda>v. ver_id v = vid) roms now db db'" if
    u: "update_verification db vid [Set_status (status v'), Set_verified_at (verified_at v'),
          Set_verified_by (verified_by v'), Set_verification_notes (verification_notes v')] = Inr (x, db')"
    for x db'
  proof -
    obtain ys w2 zs where sp: "rows db = ys @ w2 # zs" "rows db' = ys @ x # zs"
      "get_verification db vid = Some w2"
      "x = set_fields [Set_status (status v'), Set_verified_at (verified_at v'),
             Set_verified_by (verified_by v'), Set_verification_notes (verification_notes v')] w2"
      using update_verification_rows [OF assms u] by metis
    have "x = v'" using sp(3,4) w1 by (simp add: set_fields_def)
    moreover have "ver_id w2 = vid" using sp(3) get_verification_Some by blast
    moreover have "row_step roms now w2 v'" using sp(3) w by simp
    ultimately show ?thesis using table_evolves_replace [OF sp(1,2), of "\<lambda>v. ver_id v = vid"] by simp
  qed
  moreover have "ver_id v' = vid" using w1(2,3) by simp
  ultimately show ?thesis using Inr d
    by (auto simp: verify_rom_ownership_def verify_persist_def split: sum.splits prod.splits)
qed

lemma cleanup_evolves:
  assumes "db_wf db"
  shows "table_evolves_for (\<lambda>v. status v = PENDING \<and> expires_at v < now) roms now db
    (snd (snd (cleanup_run en oc now t db)))"
proof -
  have "list_all2 (\<lambda>v v'. v' = v \<or> (status v = PENDING \<and> expires_at v < now) \<and> row_step roms now v v')
      (rows db) (rows (expire_overdue now db))"
    using list_all2_expire_overdue [of now db]
    by (rule list_all2_mono) (auto simp: mark_expired_def intro: row_step.expire [simplified mark_expired_def])
  then show ?thesis
    using assms by (simp add: cleanup_run_table table_evolves_for_def list_all2_lengthD list_all2_refl)
qed

lemma sys_step_evolves_for:
  assumes "db_wf (table (svc s))"
  shows "table_evolves_for (request_touches req) roms (request_time req) (table (svc s))
    (table (svc (sys_step h roms req s)))"
proof (cases req)
  case (Upload u rid fn c f now)
  moreover have "request_touches req = (\<lambda>v. rom_id v = rid \<and> user_id v = user_ident u)"
    using Upload by (simp add: fun_eq_iff)
  ultimately show ?thesis using upload_evolves [OF assms] by simp
next
  case (Verify u vid a n now now')
  moreover have "request_touches req = (\<lambda>v. ver_id v = vid)" using Verify by (simp add: fun_eq_iff)
  ultimately show ?thesis using verify_evolves [OF assms] by simp
next
  case (Sweep en oc now)
  moreover have "request_touches req = (\<lambda>v. status v = PENDING \<and> expires_at v < now)"
    using Sweep by (simp add: fun_eq_iff)
  ultimately show ?thesis
    using cleanup_evolves [OF assms, of now roms en oc "task s"]
    by (auto simp: Let_def split: prod.splits)
qed simp

lemma sys_step_evolves:
  assumes "db_wf (table (svc s))"
  shows "table_evolves roms (request_time req) (table (svc s)) (table (svc (sys_step h roms req s)))"
  using sys_step_evolves_for [OF assms] by (rule table_evolves_for_evolves)

subsection \<open>The invariant holds in every reachable state\<close>

lemma list_all2_list_all:
  "list_all2 R xs ys \<Longrightarrow> list_all P xs \<Longrightarrow> (\<And>x y. R x y \<Longrightarrow> P x \<Longrightarrow> P y) \<Longrightarrow> list_all P ys"
  by (induction rule: list_all2_induct) auto

lemma table_evolves_list_all:
  assumes "table_evolves roms now db db'" "list_all P (rows db)"
    "\<And>v v'. P v \<Longrightarrow> row_step roms now v v' \<Longrightarrow> P v'" "\<And>v. row_new now v \<Longrightarrow> P v"
  shows "list_all P (rows db')"
proof -
  have "list_all P (take (length (rows db)) (rows db'))"
    using assms(1,2) by (auto simp: table_evolves_def elim!: list_all2_list_all intro: assms(3))
  moreover have "list_all P (drop (length (rows db)) (rows db'))"
    using assms(1,4) by (auto simp: table_evolves_def list_all_iff)
  ultimately show ?thesis
    by (metis append_take_drop_id list_all_append)
qed

lemma hash_matches_review [simp]:
  "hash_matches r (v\<lparr>status := a, verified_at := b, verified_by := c, verification_notes := d\<rparr>) =
   hash_matches r v"
  by (simp add: hash_matches_def)

lemma row_inv_step: "row_step roms now v v' \<Longrightarrow> row_inv roms v \<Longrightarrow> row_inv roms v'"
  by (induction rule: row_step.induct) (auto simp: row_inv_def model_simps)

lemma row_inv_new: "row_new now v \<Longrightarrow> row_inv roms v"
  using default_expires_at_ge [of now] by (simp add: row_inv_def row_new_def)

lemma upload_commit_wf:
  assumes "db_wf (table s)"
  shows "db_wf (table (snd (upload_commit h now u rid fn c fault ex s)))"
  using assms add_verification_wf [OF assms] update_verification_wf [OF assms]
  by (auto simp: upload_commit_def create_temp_def unlink_temp_def Let_def
      split: sum.splits io_fault.splits option.splits prod.splits)

lemma upload_wf:
  assumes "db_wf (table s)"
  shows "db_wf (table (snd (upload_rom_for_verification h roms now u rid fn c fault s)))"
  using assms upload_commit_wf [OF assms]
  by (auto simp: upload_rom_for_verification_def split: sum.splits)

lemma upload_temps:
  assumes "list_all (\<lambda>t. t < next_temp s) (temp_files s)" "distinct (temp_files s)"
  shows "list_all (\<lambda>t. t < next_temp (snd (upload_rom_for_verification h roms now u rid fn c fault s)))
           (temp_files (snd (upload_rom_for_verification h roms now u rid fn c fault s))) \<and>
         distinct (temp_files (snd (upload_rom_for_verification h roms now u rid fn c fault s)))"
proof -
  have "next_temp s \<notin> set (temp_files s)" using assms(1) by (auto simp: list_all_iff)
  then show ?thesis
    using assms
    by (auto simp: upload_rom_for_verification_def upload_commit_def create_temp_def unlink_temp_def
        list_all_iff distinct_removeAll Let_def split: sum.splits io_fault.splits option.splits prod.splits)
qed

lemma sys_step_wf:
  assumes "db_wf (table (svc s))"
  shows "db_wf (table (svc (sys_step h roms req s)))"
proof (cases req)
  case (Verify u vid ap n now now')
  show ?thesis
  proof (cases "verify_decide roms now now' u vid ap n (table (svc s))")
    case (Inr d)
    then show ?thesis
      using Verify verify_rom_ownership_decided [OF assms, of roms now now' u vid ap n "fst d" "snd d"]
      by auto
  qed (simp add: Verify verify_rom_ownership_def assms)
next
  case (Sweep en oc now)
  then show ?thesis
    using cleanup_run_wf [OF assms, of en oc now "task s"] assms by (auto split: prod.splits)
qed (use assms upload_wf in simp_all)

lemma sys_step_temps:
  assumes "list_all (\<lambda>t. t < next_temp (svc s)) (temp_files (svc s))" "distinct (temp_files (svc s))"
  shows "list_all (\<lambda>t. t < next_temp (svc (sys_step h roms req s))) (temp_files (svc (sys_step h roms req s))) \<and>
    distinct (temp_files (svc (sys_step h roms req s)))"
proof (cases req)
  case (Upload u rid fn c fault now)
  then show ?thesis using upload_temps [OF assms, of h roms now u rid fn c fault] by simp
qed (use assms in \<open>auto simp: Let_def split: prod.splits\<close>)

lemma sys_inv_step: "sys_inv roms s \<Longrightarrow> sys_inv roms (sys_step h roms req s)"
  unfolding sys_inv_def
proof (elim conjE, intro conjI)
  assume wf: "db_wf (table (svc s))" and rows: "list_all (row_inv roms) (rows (table (svc s)))"
    and t: "list_all (\<lambda>t. t < next_temp (svc s)) (temp_files (svc s))" "distinct (temp_files (svc s))"
  show "db_wf (table (svc (sys_step h roms req s)))" using sys_step_wf [OF wf] .
  show "list_all (row_inv roms) (rows (table (svc (sys_step h roms req s))))"
    using table_evolves_list_all [OF sys_step_evolves [OF wf] rows] row_inv_step row_inv_new by blast
  have "list_all (\<lambda>t. t < next_temp (svc (sys_step h roms req s))) (temp_files (svc (sys_step h roms req s))) \<and>
        distinct (temp_files (svc (sys_step h roms req s)))"
    using sys_step_temps [OF t] .
  then show "list_all (\<lambda>t. t < next_temp (svc (sys_step h roms req s))) (temp_files (svc (sys_step h roms req s)))"
    and "distinct (temp_files (svc (sys_step h roms req s)))" by blast+
qed

lemma sys_inv_init: "sys_inv roms sys_init"
  by (simp add: sys_inv_def sys_init_def empty_db_def db_wf_def)

lemma reachable_sys_inv: "reachable h roms s \<Longrightarrow> sys_inv roms s"
  by (induction rule: reachable.induct) (simp_all add: sys_inv_init sys_inv_step)

lemma reachable_wf: "reachable h roms s \<Longrightarrow> db_wf (table (svc s))"
  by (drule reachable_sys_inv) (simp add: sys_inv_def)

lemma reachable_fold: "reachable h roms s \<Longrightarrow> reachable h roms (fold (sys_step h roms) reqs s)"
  by (induction reqs arbitrary: s) (simp_all add: reachable.step)

lemma reachable_sample_run: "reachable sample_hasher sample_catalog (sample_run reqs)"
  unfolding sample_run_def by (rule reachable_fold [OF reachable.init])

lemma find_Some_mem: "find P xs = Some x \<Longrightarrow> x \<in> set xs"
  by (induction xs) (auto split: if_splits)

lemma find_list_all2:
  "list_all2 R xs ys \<Longrightarrow> (\<And>x y. R x y \<Longrightarrow> P x = P y) \<Longrightarrow> rel_option R (find P xs) (find P ys)"
  by (induction rule: list_all2_induct) auto

lemma row_step_lifecycle: "row_step roms now v v' \<Longrightarrow> lifecycle (Some (status v)) (Some (status v'))"
  by (induction rule: row_step.induct) (auto simp: model_simps intro: lifecycle.intros)

lemma row_step_not_verified: "row_step roms now v v' \<Longrightarrow> status v \<noteq> VERIFIED"
  by (induction rule: row_step.induct) (simp_all add: can_verify_def)

lemma find_take_Some:
  "find P (take n xs) = Some y \<Longrightarrow> find P xs = Some y"
  by (induction xs arbitrary: n) (auto simp: take_Cons split: nat.splits if_splits)

lemma table_evolves_find_pair:
  assumes "table_evolves roms now db db'" "get_verification_by_rom_and_user db a b = Some x"
  shows "\<exists>y. get_verification_by_rom_and_user db' a b = Some y \<and> (y = x \<or> row_step roms now x y)"
proof -
  let ?P = "\<lambda>v. rom_id v = a \<and> user_id v = b"
  let ?n = "length (rows db)"
  have rel: "rel_option (\<lambda>v v'. v' = v \<or> row_step roms now v v') (find ?P (rows db)) (find ?P (take ?n (rows db')))"
    using assms(1) by (auto simp: table_evolves_def dest: row_step_keys intro!: find_list_all2)
  have x: "find ?P (rows db) = Some x"
    using assms(2) by (simp add: get_verification_by_rom_and_user_def)
  obtain y where y: "find ?P (take ?n (rows db')) = Some y" "y = x \<or> row_step roms now x y"
    using rel unfolding x by (cases "find ?P (take ?n (rows db'))") simp_all
  have "find ?P (rows db') = Some y" by (rule find_take_Some [OF y(1)])
  then show ?thesis using y(2) unfolding get_verification_by_rom_and_user_def by blast
qed

lemma table_evolves_pair:
  assumes "table_evolves roms now db db'"
  shows "pair_status db' p = pair_status db p \<or> lifecycle (pair_status db p) (pair_status db' p)"
proof -
  let ?P = "\<lambda>v. rom_id v = fst p \<and> user_id v = snd p"
  let ?n = "length (rows db)"
  have rel: "rel_option (\<lambda>v v'. v' = v \<or> row_step roms now v v') (find ?P (rows db)) (find ?P (take ?n (rows db')))"
    using assms by (auto simp: table_evolves_def dest: row_step_keys intro!: find_list_all2)
  have new: "list_all (row_new now) (drop ?n (rows db'))" using assms by (simp add: table_evolves_def)
  have split: "find ?P (rows db') = (case find ?P (take ?n (rows db')) of
      None \<Rightarrow> find ?P (drop ?n (rows db')) | Some x \<Rightarrow> Some x)"
    by (metis append_take_drop_id find_append_case)
  show ?thesis
  proof (cases "find ?P (rows db)")
    case None
    then have "find ?P (take ?n (rows db')) = None" using rel by (cases "find ?P (take ?n (rows db'))") simp_all
    moreover have "find ?P (drop ?n (rows db')) = None \<or>
        (\<exists>v. find ?P (drop ?n (rows db')) = Some v \<and> status v = PENDING)"
      using new by (cases "find ?P (drop ?n (rows db'))") (auto simp: list_all_iff row_new_def dest: find_Some_mem)
    ultimately show ?thesis
      using None split by (auto simp: pair_status_def get_verification_by_rom_and_user_def intro: lifecycle.create)
  next
    case (Some x)
    then have old: "get_verification_by_rom_and_user db (fst p) (snd p) = Some x"
      by (simp add: get_verification_by_rom_and_user_def)
    then obtain y where y: "get_verification_by_rom_and_user db' (fst p) (snd p) = Some y"
      "y = x \<or> row_step roms now x y"
      using table_evolves_find_pair [OF assms] by blast
    then show ?thesis
      using old by (auto simp: pair_status_def dest: row_step_lifecycle)
  qed
qed

lemma row_step_expires_at: "row_step roms now v v' \<Longrightarrow> expires_at v' = expires_at v"
  by (induction rule: row_step.induct) (simp_all add: model_simps)



lemma row_step_late_not_verified:
  "row_step roms now v v' \<Longrightarrow> expires_at v < now \<Longrightarrow> status v' \<noteq> VERIFIED"
  by (induction rule: row_step.induct) (auto simp: model_simps can_verify_def is_expired_def)

lemma sys_step_late_row:
  assumes "db_wf (table (svc s))" "get_verification_by_rom_and_user (table (svc s)) rid uid = Some w"
    "status w \<noteq> VERIFIED" "expires_at w < t" "request_after t req"
  shows "\<exists>w'. get_verification_by_rom_and_user (table (svc (sys_step h roms req s))) rid uid = Some w' \<and>
    status w' \<noteq> VERIFIED \<and> expires_at w' = expires_at w"
proof (cases "\<exists>e. req = Startup e")
  case True
  then show ?thesis using assms(2,3) by auto
next
  case False
  then have late: "expires_at w < request_time req" using assms(4,5) by (cases req) auto
  obtain w' where w': "get_verification_by_rom_and_user (table (svc (sys_step h roms req s))) rid uid = Some w'"
    "w' = w \<or> row_step roms (request_time req) w w'"
    using table_evolves_find_pair [OF sys_step_evolves [OF assms(1)] assms(2)] by blast
  show ?thesis
    using w' assms(3) late row_step_expires_at row_step_late_not_verified by blast
qed

lemmas upload_eval = upload_rom_for_verification_def upload_check_def upload_commit_def
  get_verification_by_rom_and_user_def add_verification_def Let_def create_temp_def
  unlink_temp_def py_endswith_def py_lower_def py_lower_char_def new_verification_def set_fields_def
  upload_data_def blank_verification_def column_fits_def default_expires_at_def
  us_per_day_def us_per_second_def update_verification_def get_verification_def

lemmas verify_eval = verify_rom_ownership_def verify_decide_def verify_persist_def update_verification_def
  get_verification_def Let_def set_fields_def column_fits_def is_admin_def can_verify_def is_expired_def
  hash_matches_def verify_ownership_def reject_verification_def

lemma sample_run_upload:
  "svc (sample_run [sample_upload 0]) = \<lparr>table = sample_db, temp_files = [], next_temp = 1\<rparr>"
  by (simp add: sample_run_def sample_upload_def sample_catalog_def sys_init_def empty_db_def
      upload_eval sample_defs)

lemma sample_run_approve:
  "table (svc (sample_run [sample_upload 0, Verify sample_admin 1 True None 1000 1000])) =
   \<lparr>rows = [sample_row\<lparr>status := VERIFIED, verified_at := Some 1000, verified_by := Some 1\<rparr>], next_id = 2\<rparr>"
  using sample_run_upload
  by (simp add: sample_run_def sample_catalog_def verify_eval sample_defs)

lemma sample_run_reject:
  "table (svc (sample_run [sample_upload 0, Verify sample_admin 1 False None 1000 1000])) =
   \<lparr>rows = [sample_row\<lparr>status := REJECTED, verified_at := Some 1000, verified_by := Some 1,
             verification_notes := Some ''Rejected by admin''\<rparr>], next_id = 2\<rparr>"
  using sample_run_upload
  by (simp add: sample_run_def sample_catalog_def verify_eval sample_defs)

lemma those_entries_all_Some:
  "(\<And>x. x \<in> set xs \<Longrightarrow> f x \<noteq> None) \<Longrightarrow> those_entries (map f xs) = Some (map (the \<circ> f) xs)"
  by (induction xs) (auto split: option.splits)

lemma by_user_and_status_rows:
  "v \<in> set (get_verifications_by_user_and_status db u st) \<Longrightarrow>
   v \<in> set (rows db) \<and> user_id v = u \<and> status v = st"
  by (simp add: get_verifications_by_user_and_status_def order_by_created_desc_def)


subsection \<open>Properties of the service\<close>

text \<open>
  C20: every request refines the spec's lifecycle: for each (ROM, user) pair,
  the status after the request is the status before it, or a transition of
  the lifecycle (creation, re-upload of a row that is not VERIFIED, or
  approval, rejection or expiry of a PENDING row).
\<close>

theorem sys_step_refines_lifecycle:
  assumes "reachable h roms s"
  shows "pair_status (table (svc (sys_step h roms req s))) p = pair_status (table (svc s)) p \<or>
    lifecycle (pair_status (table (svc s)) p) (pair_status (table (svc (sys_step h roms req s))) p)"
  using table_evolves_pair [OF sys_step_evolves [OF reachable_wf [OF assms]]] .

lemma sys_step_refines_lifecycle_witness:
  "reachable sample_hasher sample_catalog (sample_run [sample_upload 0]) \<and>
   lifecycle (pair_status (table (svc (sample_run [sample_upload 0]))) (7, 3))
     (pair_status (table (svc (sys_step sample_hasher sample_catalog
        (Verify sample_admin 1 True None 1000 1000) (sample_run [sample_upload 0])))) (7, 3))"
proof -
  have r: "reachable sample_hasher sample_catalog (sample_run [sample_upload 0])"
    by (rule reachable_sample_run)
  have "pair_status (table (svc (sys_step sample_hasher sample_catalog
        (Verify sample_admin 1 True None 1000 1000) (sample_run [sample_upload 0])))) (7, 3) \<noteq>
      pair_status (table (svc (sample_run [sample_upload 0]))) (7, 3)"
    using sample_run_approve sample_run_upload
    by (simp add: sample_run_def pair_status_def get_verification_by_rom_and_user_def sample_defs)
  then show ?thesis
    using r sys_step_refines_lifecycle [OF r, where req = "Verify sample_admin 1 True None 1000 1000" and p = "(7, 3)"]
    by blast
qed

text \<open>
  In every reachable state ids are unique and there is at most one row
  per (ROM, user) pair: a second upload updates, never duplicates.
\<close>

lemma reachable_one_row_per_pair:
  assumes "reachable h roms s"
  shows "distinct (map ver_id (rows (table (svc s)))) \<and>
    distinct (map (\<lambda>v. (rom_id v, user_id v)) (rows (table (svc s))))"
  using reachable_sys_inv [OF assms] by (simp add: sys_inv_def db_wf_def)

text \<open>
  C22: in every reachable state a VERIFIED row has an uploaded MD5 or SHA-1
  matching its ROM's catalog entry, and names its reviewer and decision time.
\<close>

theorem reachable_verified_sound:
  assumes "reachable h roms s" "v \<in> set (rows (table (svc s)))" "status v = VERIFIED"
  shows "\<exists>r. roms (rom_id v) = Some r \<and> hash_matches r v \<and> verified_at v \<noteq> None \<and>
    verified_by v \<noteq> None"
proof -
  have "row_inv roms v" using reachable_sys_inv [OF assms(1)] assms(2) by (simp add: sys_inv_def list_all_iff)
  then show ?thesis using assms(3) by (auto simp: row_inv_def split: option.split_asm)
qed

lemma reachable_verified_sound_witness:
  "reachable sample_hasher sample_catalog (sample_run [sample_upload 0, Verify sample_admin 1 True None 1000 1000]) \<and>
   hash_matches (sample_rom (Some sample_md5) None)
     (sample_row\<lparr>status := VERIFIED, verified_at := Some 1000, verified_by := Some 1\<rparr>)"
proof -
  let ?v = "sample_row\<lparr>status := VERIFIED, verified_at := Some 1000, verified_by := Some 1\<rparr>"
  have r: "reachable sample_hasher sample_catalog (sample_run [sample_upload 0, Verify sample_admin 1 True None 1000 1000])"
    by (rule reachable_sample_run)
  have m: "?v \<in> set (rows (table (svc (sample_run [sample_upload 0, Verify sample_admin 1 True None 1000 1000]))))"
    unfolding sample_run_approve by simp
  obtain rr where "sample_catalog (rom_id ?v) = Some rr" "hash_matches rr ?v"
    using reachable_verified_sound [OF r m] by auto
  then show ?thesis using r by (simp add: sample_catalog_def sample_defs)
qed

text \<open>
  In every reachable state a VERIFIED or REJECTED row has its decision
  time and reviewer set.
\<close>

lemma reachable_decided_reviewed:
  assumes "reachable h roms s" "v \<in> set (rows (table (svc s)))" "status v \<in> {VERIFIED, REJECTED}"
  shows "verified_at v \<noteq> None \<and> verified_by v \<noteq> None"
  using reachable_sys_inv [OF assms(1)] assms(2,3)
  by (auto simp: sys_inv_def list_all_iff row_inv_def)

text \<open>
  C23: a VERIFIED row is never changed by any request: neither a re-upload,
  nor another decision, nor the sweep touches it.
\<close>

theorem verified_row_stable:
  assumes "reachable h roms s" "v \<in> set (rows (table (svc s)))" "status v = VERIFIED"
  shows "v \<in> set (rows (table (svc (sys_step h roms req s))))"
proof -
  have "\<not> (request_touches req v \<and> (\<exists>v'. row_step roms (request_time req) v v'))"
    using assms(3) row_step_not_verified by blast
  then show ?thesis
    using table_evolves_for_keeps [OF sys_step_evolves_for [OF reachable_wf [OF assms(1)]] assms(2)] by blast
qed

lemma verified_row_stable_witness:
  "reachable sample_hasher sample_catalog (sample_run [sample_upload 0, Verify sample_admin 1 True None 1000 1000]) \<and>
   sample_row\<lparr>status := VERIFIED, verified_at := Some 1000, verified_by := Some 1\<rparr> \<in>
     set (rows (table (svc (sys_step sample_hasher sample_catalog (Verify sample_admin 1 False None 1000 1000)
       (sample_run [sample_upload 0, Verify sample_admin 1 True None 1000 1000])))))"
proof -
  have r: "reachable sample_hasher sample_catalog (sample_run [sample_upload 0, Verify sample_admin 1 True None 1000 1000])"
    by (rule reachable_sample_run)
  have m: "sample_row\<lparr>status := VERIFIED, verified_at := Some 1000, verified_by := Some 1\<rparr> \<in>
      set (rows (table (svc (sample_run [sample_upload 0, Verify sample_admin 1 True None 1000 1000]))))"
    unfolding sample_run_approve by simp
  show ?thesis by (intro conjI r verified_row_stable [OF r m]) simp
qed

text \<open>
  The spec's invariant "pending implies the review fields are unset"
  does not hold: after a rejection, a re-upload by the same user leaves a
  reachable PENDING row that still names the reviewer, the decision time and
  the rejection notes.
\<close>

lemma reupload_pending_keeps_reviewer:
  "reachable sample_hasher sample_catalog
     (sample_run [sample_upload 0, Verify sample_admin 1 False None 1000 1000, sample_upload 2000]) \<and>
   rows (table (svc (sample_run [sample_upload 0, Verify sample_admin 1 False None 1000 1000, sample_upload 2000]))) =
     [sample_row\<lparr>verified_at := Some 1000, verified_by := Some 1,
                 verification_notes := Some ''Rejected by admin''\<rparr>] \<and>
   status sample_row = PENDING"
proof -
  have "svc (sample_run [sample_upload 0, Verify sample_admin 1 False None 1000 1000]) =
      \<lparr>table = \<lparr>rows = [sample_row\<lparr>status := REJECTED, verified_at := Some 1000, verified_by := Some 1,
             verification_notes := Some ''Rejected by admin''\<rparr>], next_id = 2\<rparr>, temp_files = [], next_temp = 1\<rparr>"
    using sample_run_upload sample_run_reject by (simp add: sample_run_def verify_eval sample_defs)
  moreover have "sample_run [sample_upload 0, Verify sample_admin 1 False None 1000 1000, sample_upload 2000] =
      sys_step sample_hasher sample_catalog (sample_upload 2000)
        (sample_run [sample_upload 0, Verify sample_admin 1 False None 1000 1000])"
    by (simp add: sample_run_def)
  ultimately have "rows (table (svc (sample_run [sample_upload 0, Verify sample_admin 1 False None 1000 1000,
      sample_upload 2000]))) = [sample_row\<lparr>verified_at := Some 1000, verified_by := Some 1,
                 verification_notes := Some ''Rejected by admin''\<rparr>]"
    by (simp add: sample_upload_def sample_catalog_def upload_eval sample_defs)
  then show ?thesis
    by (intro conjI reachable_sample_run) (simp_all add: sample_defs)
qed

text \<open>
  C28: in every reachable state the caller's verified list succeeds (never
  the 500 of a VERIFIED row whose ROM is missing) and has one entry per
  VERIFIED row of the caller, in the listing's order, each with the ROM id,
  a decision time and the row's notes.
\<close>

theorem reachable_my_verified_roms:
  assumes "reachable h roms s"
  shows "\<exists>es. get_my_verified_roms roms users u (table (svc s)) = Inr es \<and>
    list_all2 (\<lambda>v e. vr_rom_id e = rom_id v \<and> Some (vr_verified_at e) = verified_at v \<and> vr_notes e = verification_notes v)
      (get_verifications_by_user_and_status (table (svc s)) (user_ident u) VERIFIED) es"
proof -
  let ?vs = "get_verifications_by_user_and_status (table (svc s)) (user_ident u) VERIFIED"
  have inv: "row_inv roms v" if "v \<in> set ?vs" for v
    using reachable_sys_inv [OF assms] by_user_and_status_rows [OF that]
    by (auto simp: sys_inv_def list_all_iff)
  have some: "verified_entry_of roms users v \<noteq> None \<and> vr_rom_id (the (verified_entry_of roms users v)) = rom_id v \<and>
      Some (vr_verified_at (the (verified_entry_of roms users v))) = verified_at v \<and>
      vr_notes (the (verified_entry_of roms users v)) = verification_notes v" if "v \<in> set ?vs" for v
    using inv [OF that] by_user_and_status_rows [OF that]
    by (auto simp: row_inv_def verified_entry_of_def verification_rom_def split: option.splits)
  have "get_my_verified_roms roms users u (table (svc s)) = Inr (map (the \<circ> verified_entry_of roms users) ?vs)"
    using those_entries_all_Some [of ?vs "verified_entry_of roms users"] some
    by (simp add: get_my_verified_roms_def)
  moreover have "list_all2 (\<lambda>v e. vr_rom_id e = rom_id v \<and> Some (vr_verified_at e) = verified_at v \<and> vr_notes e = verification_notes v)
      ?vs (map (the \<circ> verified_entry_of roms users) ?vs)"
    using some by (auto simp: list_all2_conv_all_nth)
  ultimately show ?thesis by blast
qed

lemma reachable_my_verified_roms_witness:
  "reachable sample_hasher sample_catalog (sample_run [sample_upload 0, Verify sample_admin 1 True None 1000 1000]) \<and>
   (\<exists>es. get_my_verified_roms sample_catalog [1 \<mapsto> sample_admin] sample_player
      (table (svc (sample_run [sample_upload 0, Verify sample_admin 1 True None 1000 1000]))) = Inr es \<and>
    list_all2 (\<lambda>v e. vr_rom_id e = rom_id v \<and> Some (vr_verified_at e) = verified_at v \<and> vr_notes e = verification_notes v)
      (get_verifications_by_user_and_status
        (table (svc (sample_run [sample_upload 0, Verify sample_admin 1 True None 1000 1000])))
        (user_ident sample_player) VERIFIED) es)"
  using reachable_sample_run
    reachable_my_verified_roms [OF reachable_sample_run, where users = "[1 \<mapsto> sample_admin]" and u = sample_player]
  by blast

text \<open>
  The sweep makes progress: from any reachable state, after startup with
  the cleanup flag on, one run of the task whose commit succeeds at time
  \<open>now\<close> leaves no PENDING row past its deadline, and the task stays
  scheduled for the next run.
\<close>

lemma sweep_run_expires_overdue:
  assumes "reachable h roms s"
  shows "get_expired_verifications now
      (table (svc (sys_step h roms (Sweep True Commit_ok now) (sys_step h roms (Startup True) s)))) = [] \<and>
    scheduled (task (sys_step h roms (Sweep True Commit_ok now) (sys_step h roms (Startup True) s)))"
proof -
  have wf: "db_wf (table (svc s))" using reachable_wf [OF assms] .
  have "snd (snd (cleanup_run True Commit_ok now (task s\<lparr>scheduled := True\<rparr>) (table (svc s)))) =
      expire_overdue now (table (svc s))"
    using cleanup_run_table [OF wf] by simp
  moreover have "fst (snd (cleanup_run True Commit_ok now (task s\<lparr>scheduled := True\<rparr>) (table (svc s)))) =
      task s\<lparr>scheduled := True\<rparr>"
    by (simp add: cleanup_run_def split: prod.splits)
  ultimately show ?thesis
    by (auto simp: cleanup_task_init_def get_expired_expire_overdue split: prod.splits)
qed

text \<open>
  C25: a row that is not VERIFIED and whose deadline has passed at time \<open>t\<close>
  never becomes VERIFIED in any later run stamped from \<open>t\<close> on: a
  re-upload resets it to PENDING but keeps its deadline, and an approval
  needs \<open>can_verify\<close>, which refuses a row past its deadline. The user's only
  way on is a new row, which the code never creates for the pair.
\<close>

theorem late_row_never_verified:
  assumes "reachable h roms s" "get_verification_by_rom_and_user (table (svc s)) rid uid = Some w"
    "status w \<noteq> VERIFIED" "expires_at w < t" "list_all (request_after t) reqs"
  shows "pair_status (table (svc (fold (sys_step h roms) reqs s))) (rid, uid) \<noteq> Some VERIFIED"
  using assms
proof (induction reqs arbitrary: s w)
  case Nil
  then show ?case by (simp add: pair_status_def)
next
  case (Cons r rs)
  obtain w' where w': "get_verification_by_rom_and_user (table (svc (sys_step h roms r s))) rid uid = Some w'"
    "status w' \<noteq> VERIFIED" "expires_at w' = expires_at w"
    using sys_step_late_row [OF reachable_wf [OF Cons.prems(1)] Cons.prems(2-4), where h = h and roms = roms and req = r]
      Cons.prems(5) by auto
  have "reachable h roms (sys_step h roms r s)" using Cons.prems(1) by (rule reachable.step)
  then show ?case using Cons.IH [OF _ w'(1,2)] w'(3) Cons.prems(4,5) by simp
qed

lemma late_row_never_verified_witness:
  "reachable sample_hasher sample_catalog (sample_run [sample_upload 0]) \<and>
   get_verification_by_rom_and_user (table (svc (sample_run [sample_upload 0]))) 7 3 = Some sample_row \<and>
   status sample_row \<noteq> VERIFIED \<and> expires_at sample_row < 86400000000 \<and>
   list_all (request_after 86400000000)
     [sample_upload 86400000000, Verify sample_admin 1 True None 86400000000 86400000000] \<and>
   pair_status (table (svc (fold (sys_step sample_hasher sample_catalog)
       [sample_upload 86400000000, Verify sample_admin 1 True None 86400000000 86400000000]
       (sample_run [sample_upload 0])))) (7, 3) \<noteq> Some VERIFIED"
proof -
  have r: "reachable sample_hasher sample_catalog (sample_run [sample_upload 0])"
    by (rule reachable_sample_run)
  have g: "get_verification_by_rom_and_user (table (svc (sample_run [sample_upload 0]))) 7 3 = Some sample_row"
    unfolding sample_run_upload by (simp add: get_verification_by_rom_and_user_def sample_db_def sample_row_def)
  have p: "status sample_row \<noteq> VERIFIED" "expires_at sample_row < 86400000000"
    by (simp_all add: sample_row_def)
  have l: "list_all (request_after 86400000000)
      [sample_upload 86400000000, Verify sample_admin 1 True None 86400000000 (86400000000::timestamp)]"
    by (simp add: sample_upload_def)
  show ?thesis using late_row_never_verified [OF r g p l] r g p l by blast
qed



text \<open>
  C24: requests on other rows are independent: in every reachable state a
  request keeps every row it does not address. An upload changes only its
  caller's row for its ROM, a decision only the row with its id, a run of
  the task only pending rows past their deadline, and startup no row.
\<close>

theorem untouched_rows_kept:
  assumes "reachable h roms s" "v \<in> set (rows (table (svc s)))" "\<not> request_touches req v"
  shows "v \<in> set (rows (table (svc (sys_step h roms req s))))"
  using table_evolves_for_keeps [OF sys_step_evolves_for [OF reachable_wf [OF assms(1)]] assms(2)] assms(3)
  by blast

lemma untouched_rows_kept_witness:
  "reachable sample_hasher sample_catalog (sample_run [sample_upload 0]) \<and>
   sample_row \<in> set (rows (table (svc (sample_run [sample_upload 0])))) \<and>
   \<not> request_touches (Upload sample_admin 7 ''game.gba'' [] No_fault 1000) sample_row \<and>
   sample_row \<in> set (rows (table (svc (sys_step sample_hasher sample_catalog
     (Upload sample_admin 7 ''game.gba'' [] No_fault 1000) (sample_run [sample_upload 0])))))"
proof -
  have r: "reachable sample_hasher sample_catalog (sample_run [sample_upload 0])" by (rule reachable_sample_run)
  have m: "sample_row \<in> set (rows (table (svc (sample_run [sample_upload 0]))))"
    unfolding sample_run_upload by (simp add: sample_db_def)
  have t: "\<not> request_touches (Upload sample_admin 7 ''game.gba'' [] No_fault 1000) sample_row"
    by (simp add: sample_row_def sample_admin_def)
  show ?thesis using r m t untouched_rows_kept [OF r m t] by blast
qed

end
