(* ===== verification/Interleaving.thy ===== *)
theory Interleaving
  imports Service_System
begin

text \<open>
  Interleaving of requests. The upload route reads the table (its checks),
  then awaits \<open>rom_file.read()\<close> and only then writes; the decision route reads
  the row with \<open>get_verification\<close> and writes it with a separate
  \<open>update_verification\<close>; each handler call is its own transaction, the web
  workers run requests concurrently, and the task runs in its own worker. So
  a request is a read phase and a write phase with other requests' steps in
  between. A schedule is a list of \<open>event\<close>s: an \<open>Atomic\<close> request (the whole
  request with nothing in between, including a run of the task), the read
  phase of a decision or of an upload, which leaves an \<open>inflight\<close> request
  holding what it read, and the write phase of the \<open>i\<close>-th in-flight request,
  which uses what was read. \<open>conc_exec\<close> runs one event and
  \<open>conc_reachable\<close> closes the initial state under events.

  Lemmas: the table's constraints hold under every schedule (each write is
  checked by the database); the sequential guarantees do not: the write of
  a decision puts the decided fields over whatever the row holds by then,
  so it can verify evidence that a re-upload replaced, or overwrite an
  EXPIRED row; the write of an upload resets the caller's row to PENDING
  whatever its status, VERIFIED included; a racing first upload gets a 500
  where the spec asks for the update fallback.
\<close>

subsection \<open>Events and in-flight requests\<close>

text \<open>
  What a request carries from its read phase to its write phase: the decided
  row of a decision (\<open>verify_decide\<close>), and for an upload the caller, the
  form fields, the file and the existing row as read by \<open>upload_check\<close>.
\<close>

datatype 'b inflight =
    Deciding rom_verification
  | Uploading user ident string "'b list" "rom_verification option"

datatype 'b event =
    Atomic "'b request"
  | Read_verify user ident bool "string option" timestamp timestamp
  | Write_verify nat
  | Read_upload user ident string "'b list"
  | Write_upload nat io_fault timestamp

record 'b conc_state =
  sys :: sys_state
  inflight :: "'b inflight list"

definition conc_init :: "'b conc_state" where
  "conc_init = \<lparr>sys = sys_init, inflight = []\<rparr>"

definition conc_table :: "'b conc_state \<Rightarrow> verification_db" where
  "conc_table s = table (svc (sys s))"

definition drop_nth :: "nat \<Rightarrow> 'a list \<Rightarrow> 'a list" where
  "drop_nth i xs = take i xs @ drop (Suc i) xs"

text \<open>
  A read phase whose checks fail ends the request with its error and
  changes nothing. A write event names an in-flight request of the right
  kind; any other index is not a step of the program and changes nothing.
  The write of a decision is \<open>verify_persist\<close>; its failure (500) leaves the
  table as it was. The write of an upload is \<open>upload_commit\<close> with the
  existing row as read, at the clock of the write.
\<close>

fun conc_exec :: "'b hasher \<Rightarrow> catalog \<Rightarrow> 'b event \<Rightarrow> 'b conc_state \<Rightarrow> 'b conc_state" where
  "conc_exec h roms (Atomic req) s = s\<lparr>sys := sys_step h roms req (sys s)\<rparr>"
| "conc_exec h roms (Read_verify u vid approved n now now') s =
     (case verify_decide roms now now' u vid approved n (conc_table s) of
        Inl _ \<Rightarrow> s
      | Inr (v', _) \<Rightarrow> s\<lparr>inflight := inflight s @ [Deciding v']\<rparr>)"
| "conc_exec h roms (Write_verify i) s =
     (if i < length (inflight s)
      then (case inflight s ! i of
              Deciding v' \<Rightarrow>
                s\<lparr>sys := (sys s)\<lparr>svc := (svc (sys s))\<lparr>table :=
                     (case verify_persist v' (conc_table s) of Inl _ \<Rightarrow> conc_table s | Inr db' \<Rightarrow> db')\<rparr>\<rparr>,
                  inflight := drop_nth i (inflight s)\<rparr>
            | Uploading _ _ _ _ _ \<Rightarrow> s)
      else s)"
| "conc_exec h roms (Read_upload u rid fn c) s =
     (case upload_check roms u rid fn (conc_table s) of
        Inl _ \<Rightarrow> s
      | Inr (ex, _) \<Rightarrow> s\<lparr>inflight := inflight s @ [Uploading u rid fn c ex]\<rparr>)"
| "conc_exec h roms (Write_upload i fault now) s =
     (if i < length (inflight s)
      then (case inflight s ! i of
              Uploading u rid fn c ex \<Rightarrow>
                s\<lparr>sys := (sys s)\<lparr>svc := snd (upload_commit h now u rid fn c fault ex (svc (sys s)))\<rparr>,
                  inflight := drop_nth i (inflight s)\<rparr>
            | Deciding _ \<Rightarrow> s)
      else s)"

inductive conc_reachable :: "'b hasher \<Rightarrow> catalog \<Rightarrow> 'b conc_state \<Rightarrow> bool" for h roms where
  init: "conc_reachable h roms conc_init"
| step: "conc_reachable h roms s \<Longrightarrow> conc_reachable h roms (conc_exec h roms e s)"

definition conc_run :: "'b hasher \<Rightarrow> catalog \<Rightarrow> 'b event list \<Rightarrow> 'b conc_state" where
  "conc_run h roms sched = fold (conc_exec h roms) sched conc_init"

text \<open>
  The write event that completes the first in-flight request (an upload
  writes at time \<open>now\<close> without a file-system fault).
\<close>

fun complete_first :: "timestamp \<Rightarrow> 'b inflight \<Rightarrow> 'b event" where
  "complete_first now (Deciding _) = Write_verify 0"
| "complete_first now (Uploading _ _ _ _ _) = Write_upload 0 No_fault now"

text \<open>
  The schedule of one request run on its own: its read phase and then at
  once its write phase, which is in-flight request 0 when nothing else is in
  flight; the other requests are atomic.
\<close>

fun serial_events :: "'b request \<Rightarrow> 'b event list" where
  "serial_events (Upload u rid fn c fault now) = [Read_upload u rid fn c, Write_upload 0 fault now]"
| "serial_events (Verify u vid approved n now now') = [Read_verify u vid approved n now now', Write_verify 0]"
| "serial_events req = [Atomic req]"

subsection \<open>Sample schedules\<close>

text \<open>
  A digest function that tells the empty file from any other: the empty file
  has the digests of the spec's scenario (those of ROM 7's catalog entry),
  every other content all-zero digests.
\<close>

definition race_hasher :: "nat hasher" where
  "race_hasher =
     \<lparr>md5_hexdigest = (\<lambda>c. if c = [] then sample_md5 else replicate 32 CHR ''0''),
      sha1_hexdigest = (\<lambda>c. if c = [] then sample_sha1 else replicate 40 CHR ''0'')\<rparr>"


subsection \<open>The table's constraints hold under every schedule\<close>

lemma verify_persist_wf:
  "db_wf db \<Longrightarrow> verify_persist v db = Inr db' \<Longrightarrow> db_wf db'"
  by (auto simp: verify_persist_def split: sum.splits intro: update_verification_wf)

lemma conc_exec_wf:
  assumes "db_wf (conc_table s)"
  shows "db_wf (conc_table (conc_exec h roms e s))"
proof (cases e)
  case (Atomic req)
  then show ?thesis using sys_step_wf assms by (simp add: conc_table_def)
next
  case (Write_verify i)
  then show ?thesis using assms verify_persist_wf [OF assms]
    by (auto simp: conc_table_def split: inflight.splits sum.splits)
next
  case (Write_upload i fault now)
  then show ?thesis using assms upload_commit_wf [of "svc (sys s)"]
    by (auto simp: conc_table_def split: inflight.splits)
qed (use assms in \<open>auto simp: conc_table_def split: sum.splits prod.splits\<close>)

lemma conc_reachable_fold:
  "conc_reachable h roms s \<Longrightarrow> conc_reachable h roms (fold (conc_exec h roms) sched s)"
  by (induction sched arbitrary: s) (simp_all add: conc_reachable.step)

lemma conc_reachable_run: "conc_reachable h roms (conc_run h roms sched)"
  unfolding conc_run_def by (rule conc_reachable_fold [OF conc_reachable.init])

lemma conc_run_snoc: "conc_run h roms (sched @ [e]) = conc_exec h roms e (conc_run h roms sched)"
  by (simp add: conc_run_def)

lemma pair_exists_same_pair:
  "get_verification_by_rom_and_user db (rom_id v) (user_id v) \<noteq> None \<Longrightarrow> list_ex (same_pair v) (rows db)"
  by (auto simp: get_verification_by_rom_and_user_def list_ex_iff same_pair_def find_None_iff) metis

lemmas conc_eval = conc_run_def conc_init_def conc_table_def drop_nth_def sys_init_def empty_db_def
  sample_upload_def sample_catalog_def race_hasher_def

text \<open>
  Under every interleaving of read and write phases, the table keeps
  its constraints: unique ids below the counter, one row per (ROM, user)
  pair, column widths.
\<close>

lemma conc_reachable_wf:
  assumes "conc_reachable h roms s"
  shows "db_wf (conc_table s)"
  using assms
proof (induction rule: conc_reachable.induct)
  case init
  then show ?case by (simp add: conc_init_def conc_table_def sys_init_def empty_db_def db_wf_def)
next
  case (step s e)
  then show ?case using conc_exec_wf by blast
qed

inductive_cases lifecycle_from_VERIFIED: "lifecycle (Some VERIFIED) st"
inductive_cases lifecycle_from_EXPIRED_to_VERIFIED: "lifecycle (Some EXPIRED) (Some VERIFIED)"

lemmas race_eval = conc_eval upload_eval verify_eval sample_defs

subsection \<open>What interleaving breaks\<close>

lemma verify_persist_fields:
  "ver_id w = ver_id v' \<Longrightarrow>
   verify_persist v' db = verify_persist (w\<lparr>status := status v', verified_at := verified_at v',
     verified_by := verified_by v', verification_notes := verification_notes v'\<rparr>) db"
  by (simp add: verify_persist_def)

lemma set_fields_upload_data_own_pair:
  "rom_id w = rid \<Longrightarrow> user_id w = user_ident u \<Longrightarrow>
   set_fields (upload_data h u rid fn c) w =
     w\<lparr>uploaded_file_name := fn, uploaded_file_size := length c, uploaded_md5_hash := md5_hexdigest h c,
       uploaded_sha1_hash := sha1_hexdigest h c, status := PENDING\<rparr>"
  by (cases w) (simp add: upload_data_def set_fields_def)

text \<open>
  C26: the decision neither re-reads nor re-checks the row when it writes:
  from any reachable state, the write of an in-flight decision succeeds and
  puts the decided status, decision time, reviewer and notes over whatever
  the row holds by then (status and digests as left by the requests in
  between: a re-upload, the sweep), changing no other row. So a re-upload in
  between leaves a VERIFIED row with digests the admin never compared, and an
  expiry in between is overwritten.
\<close>

theorem write_verify_overwrites:
  assumes "conc_reachable h roms s" "i < length (inflight s)" "inflight s ! i = Deciding v'"
    "get_verification (conc_table s) (ver_id v') = Some w"
  shows "get_verification (conc_table (conc_exec h roms (Write_verify i) s)) (ver_id v') =
      Some (w\<lparr>status := status v', verified_at := verified_at v', verified_by := verified_by v',
               verification_notes := verification_notes v'\<rparr>) \<and>
    (\<forall>j. j \<noteq> ver_id v' \<longrightarrow>
      get_verification (conc_table (conc_exec h roms (Write_verify i) s)) j = get_verification (conc_table s) j)"
proof -
  have wf: "db_wf (conc_table s)" using assms(1) by (rule conc_reachable_wf)
  have id: "ver_id w = ver_id v'" using assms(4) get_verification_Some by blast
  obtain db' where p: "verify_persist (w\<lparr>status := status v', verified_at := verified_at v',
        verified_by := verified_by v', verification_notes := verification_notes v'\<rparr>) (conc_table s) = Inr db'"
    "get_verification db' (ver_id w) = Some (w\<lparr>status := status v', verified_at := verified_at v',
        verified_by := verified_by v', verification_notes := verification_notes v'\<rparr>)"
    "\<forall>j. j \<noteq> ver_id w \<longrightarrow> get_verification db' j = get_verification (conc_table s) j"
    using verify_persist_review [OF wf, where w = w and a = "status v'" and b = "verified_at v'"
        and c = "verified_by v'" and d = "verification_notes v'"]
      assms(4) id by auto
  have "conc_table (conc_exec h roms (Write_verify i) s) = db'"
    using assms(2,3) p(1) verify_persist_fields [OF id, of "conc_table s"] by (simp add: conc_table_def)
  with p(2,3) id show ?thesis by simp
qed

lemma write_verify_overwrites_witness:
  "conc_reachable race_hasher sample_catalog
     (conc_run race_hasher sample_catalog
       [Atomic (sample_upload 0), Read_verify sample_admin 1 True None 1000 1000,
        Atomic (Upload sample_player 7 ''game.gba'' [1] No_fault 1500)]) \<and>
   inflight (conc_run race_hasher sample_catalog
       [Atomic (sample_upload 0), Read_verify sample_admin 1 True None 1000 1000,
        Atomic (Upload sample_player 7 ''game.gba'' [1] No_fault 1500)]) =
     [Deciding (sample_row\<lparr>status := VERIFIED, verified_at := Some 1000, verified_by := Some 1\<rparr>)] \<and>
   get_verification (conc_table (conc_exec race_hasher sample_catalog (Write_verify 0)
     (conc_run race_hasher sample_catalog
       [Atomic (sample_upload 0), Read_verify sample_admin 1 True None 1000 1000,
        Atomic (Upload sample_player 7 ''game.gba'' [1] No_fault 1500)]))) 1 =
     Some (sample_row\<lparr>uploaded_file_size := 1, uploaded_md5_hash := replicate 32 CHR ''0'',
        uploaded_sha1_hash := replicate 40 CHR ''0'', status := VERIFIED, verified_at := Some 1000,
        verified_by := Some 1\<rparr>) \<and>
   \<not> hash_matches (sample_rom (Some sample_md5) None)
     (sample_row\<lparr>uploaded_file_size := 1, uploaded_md5_hash := replicate 32 CHR ''0'',
        uploaded_sha1_hash := replicate 40 CHR ''0'', status := VERIFIED, verified_at := Some 1000,
        verified_by := Some 1\<rparr>)"
proof -
  let ?S = "conc_run race_hasher sample_catalog
       [Atomic (sample_upload 0), Read_verify sample_admin 1 True None 1000 1000,
        Atomic (Upload sample_player 7 ''game.gba'' [1] No_fault 1500)]"
  let ?V = "sample_row\<lparr>status := VERIFIED, verified_at := Some 1000, verified_by := Some 1\<rparr>"
  let ?W = "sample_row\<lparr>uploaded_file_size := 1, uploaded_md5_hash := replicate 32 CHR ''0'',
        uploaded_sha1_hash := replicate 40 CHR ''0''\<rparr>"
  have i: "inflight ?S = [Deciding ?V]" by (simp add: race_eval)
  have g: "get_verification (conc_table ?S) (ver_id ?V) = Some ?W" by (simp add: race_eval)
  have l: "0 < length (inflight ?S)" "inflight ?S ! 0 = Deciding ?V" using i by simp_all
  have m: "\<not> hash_matches (sample_rom (Some sample_md5) None)
     (sample_row\<lparr>uploaded_file_size := 1, uploaded_md5_hash := replicate 32 CHR ''0'',
        uploaded_sha1_hash := replicate 40 CHR ''0'', status := VERIFIED, verified_at := Some 1000,
        verified_by := Some 1\<rparr>)"
    by (simp add: hash_matches_def sample_defs py_lower_def py_lower_char_def numeral_eq_Suc)
  have c: "get_verification (conc_table (conc_exec race_hasher sample_catalog (Write_verify 0) ?S)) 1 =
      Some (?W\<lparr>status := VERIFIED, verified_at := Some 1000, verified_by := Some 1, verification_notes := None\<rparr>)"
    using write_verify_overwrites [OF conc_reachable_run l g] by (simp add: sample_row_def)
  have e: "?W\<lparr>status := VERIFIED, verified_at := Some 1000, verified_by := Some 1, verification_notes := None\<rparr> =
     sample_row\<lparr>uploaded_file_size := 1, uploaded_md5_hash := replicate 32 CHR ''0'',
        uploaded_sha1_hash := replicate 40 CHR ''0'', status := VERIFIED, verified_at := Some 1000,
        verified_by := Some 1\<rparr>" by (simp add: sample_row_def)
  show ?thesis using conc_reachable_run i m c e by simp
qed

text \<open>
  C27: the upload does not re-check the row when it writes: from any
  reachable state, the write of an in-flight upload that found the caller's
  row rewrites that row to PENDING with the new file's name, size and
  digests, whatever its status by then, VERIFIED included (provided the
  values fit their columns).
\<close>

theorem write_upload_overwrites:
  assumes "conc_reachable h roms s" "i < length (inflight s)" "inflight s ! i = Uploading u rid fn c (Some e)"
    "get_verification (conc_table s) (ver_id e) = Some w" "rom_id w = rid" "user_id w = user_ident u"
    "column_fits (set_fields (upload_data h u rid fn c) w)"
  shows "get_verification (conc_table (conc_exec h roms (Write_upload i No_fault now) s)) (ver_id e) =
    Some (w\<lparr>uploaded_file_name := fn, uploaded_file_size := length c, uploaded_md5_hash := md5_hexdigest h c,
            uploaded_sha1_hash := sha1_hexdigest h c, status := PENDING\<rparr>)"
proof -
  have wf: "db_wf (conc_table s)" using assms(1) by (rule conc_reachable_wf)
  have sp: "same_pair (set_fields (upload_data h u rid fn c) w) w"
    using assms(5,6) by (simp add: same_pair_def upload_data_def set_fields_def)
  obtain db' where u: "update_verification (conc_table s) (ver_id e) (upload_data h u rid fn c) =
      Inr (set_fields (upload_data h u rid fn c) w, db')"
    using update_verification_same_pair [OF wf assms(4,7) sp] by blast
  have t: "conc_table (conc_exec h roms (Write_upload i No_fault now) s) = db'"
    using assms(2,3) u
    by (simp add: conc_table_def upload_commit_def create_temp_def unlink_temp_def Let_def)
  show ?thesis
    using update_verification_get [OF wf u, of "ver_id e"] t set_fields_upload_data_own_pair [OF assms(5,6)] by simp
qed

lemma write_upload_overwrites_witness:
  "conc_reachable race_hasher sample_catalog
     (conc_run race_hasher sample_catalog
       [Atomic (sample_upload 0), Read_upload sample_player 7 ''game.gba'' [1],
        Atomic (Verify sample_admin 1 True None 1000 1000)]) \<and>
   inflight (conc_run race_hasher sample_catalog
       [Atomic (sample_upload 0), Read_upload sample_player 7 ''game.gba'' [1],
        Atomic (Verify sample_admin 1 True None 1000 1000)]) =
     [Uploading sample_player 7 ''game.gba'' [1] (Some sample_row)] \<and>
   get_verification (conc_table (conc_run race_hasher sample_catalog
       [Atomic (sample_upload 0), Read_upload sample_player 7 ''game.gba'' [1],
        Atomic (Verify sample_admin 1 True None 1000 1000)])) 1 =
     Some (sample_row\<lparr>status := VERIFIED, verified_at := Some 1000, verified_by := Some 1\<rparr>) \<and>
   get_verification (conc_table (conc_exec race_hasher sample_catalog (Write_upload 0 No_fault 2000)
     (conc_run race_hasher sample_catalog
       [Atomic (sample_upload 0), Read_upload sample_player 7 ''game.gba'' [1],
        Atomic (Verify sample_admin 1 True None 1000 1000)]))) 1 =
     Some (sample_row\<lparr>uploaded_file_size := 1, uploaded_md5_hash := replicate 32 CHR ''0'',
        uploaded_sha1_hash := replicate 40 CHR ''0'', verified_at := Some 1000, verified_by := Some 1\<rparr>)"
proof -
  let ?S = "conc_run race_hasher sample_catalog
       [Atomic (sample_upload 0), Read_upload sample_player 7 ''game.gba'' [1],
        Atomic (Verify sample_admin 1 True None 1000 1000)]"
  let ?W = "sample_row\<lparr>status := VERIFIED, verified_at := Some 1000, verified_by := Some 1\<rparr>"
  have i: "inflight ?S = [Uploading sample_player 7 ''game.gba'' [1] (Some sample_row)]" by (simp add: race_eval)
  have g: "get_verification (conc_table ?S) (ver_id sample_row) = Some ?W" by (simp add: race_eval)
  have l: "0 < length (inflight ?S)" "inflight ?S ! 0 = Uploading sample_player 7 ''game.gba'' [1] (Some sample_row)"
    using i by simp_all
  have k: "rom_id ?W = 7" "user_id ?W = user_ident sample_player" by (simp_all add: sample_defs)
  have f: "column_fits (set_fields (upload_data race_hasher sample_player 7 ''game.gba'' [1]) ?W)"
    by (simp add: column_fits_def upload_data_def set_fields_def race_hasher_def sample_defs)
  have c: "get_verification (conc_table (conc_exec race_hasher sample_catalog (Write_upload 0 No_fault 2000) ?S)) 1 =
    Some (?W\<lparr>uploaded_file_name := ''game.gba'', uploaded_file_size := length [1::nat],
      uploaded_md5_hash := md5_hexdigest race_hasher [1], uploaded_sha1_hash := sha1_hexdigest race_hasher [1],
      status := PENDING\<rparr>)"
    using write_upload_overwrites [OF conc_reachable_run l g k f, of 2000] by (simp add: sample_row_def)
  have e: "?W\<lparr>uploaded_file_name := ''game.gba'', uploaded_file_size := length [1::nat],
      uploaded_md5_hash := md5_hexdigest race_hasher [1], uploaded_sha1_hash := sha1_hexdigest race_hasher [1],
      status := PENDING\<rparr> =
    sample_row\<lparr>uploaded_file_size := 1, uploaded_md5_hash := replicate 32 CHR ''0'',
        uploaded_sha1_hash := replicate 40 CHR ''0'', verified_at := Some 1000, verified_by := Some 1\<rparr>"
    by (simp add: sample_row_def race_hasher_def)
  have g1: "get_verification (conc_table ?S) 1 = Some ?W" using g by (simp add: sample_row_def)
  show ?thesis using conc_reachable_run i g1 c e by simp
qed

text \<open>
  For example, a decision read before the deadline and written after the
  sweep expired the row turns the EXPIRED row VERIFIED, a change the
  lifecycle does not allow.
\<close>

lemma stale_decision_overwrites_expired:
  "pair_status (conc_table (conc_run race_hasher sample_catalog
       [Atomic (Startup True), Atomic (sample_upload 0), Read_verify sample_admin 1 True None 1000 1000,
        Atomic (Sweep True Commit_ok 86400000000)])) (7, 3) = Some EXPIRED \<and>
   pair_status (conc_table (conc_exec race_hasher sample_catalog (Write_verify 0)
     (conc_run race_hasher sample_catalog
       [Atomic (Startup True), Atomic (sample_upload 0), Read_verify sample_admin 1 True None 1000 1000,
        Atomic (Sweep True Commit_ok 86400000000)]))) (7, 3) = Some VERIFIED \<and>
   \<not> lifecycle (Some EXPIRED) (Some VERIFIED)"
proof (intro conjI)
  show "\<not> lifecycle (Some EXPIRED) (Some VERIFIED)" by (auto elim: lifecycle_from_EXPIRED_to_VERIFIED)
qed (simp_all add: race_eval pair_status_def cleanup_task_init_def cleanup_run_def
    mark_expired_verifications_def get_expired_verifications_def merge_row_def mark_expired_def)

text \<open>
  C29: an upload that read "no row yet" and writes after another upload
  created the row inserts, the unique constraint refuses the insert, and the
  caller gets 500 with the table unchanged; the spec asks for a fallback to
  update on this conflict.
\<close>

theorem upload_commit_existing_pair:
  assumes "get_verification_by_rom_and_user (table s) rid (user_ident u) \<noteq> None"
  shows "fst (upload_commit h now u rid fn c No_fault None s) = Inl upload_failed \<and>
    table (snd (upload_commit h now u rid fn c No_fault None s)) = table s"
proof -
  let ?v = "new_verification (upload_data h u rid fn c)\<lparr>ver_id := next_id (table s),
      expires_at := default_expires_at now, created_at := now\<rparr>"
  have "rom_id ?v = rid" "user_id ?v = user_ident u"
    by (simp_all add: new_verification_def upload_data_def set_fields_def)
  then have "list_ex (same_pair ?v) (rows (table s))"
    using pair_exists_same_pair [of "table s" ?v] assms by simp
  then have "isl (add_verification now (new_verification (upload_data h u rid fn c)) (table s))"
    by (simp add: add_verification_def Let_def)
  then show ?thesis
    by (auto simp: upload_commit_def create_temp_def unlink_temp_def Let_def isl_def split: sum.splits)
qed

lemma upload_commit_existing_pair_witness:
  "conc_reachable race_hasher sample_catalog
     (conc_run race_hasher sample_catalog [Read_upload sample_player 7 ''game.gba'' [],
        Read_upload sample_player 7 ''game.gba'' [], Write_upload 0 No_fault 0]) \<and>
   inflight (conc_run race_hasher sample_catalog [Read_upload sample_player 7 ''game.gba'' [],
        Read_upload sample_player 7 ''game.gba'' [], Write_upload 0 No_fault 0]) =
     [Uploading sample_player 7 ''game.gba'' [] None] \<and>
   fst (upload_commit race_hasher 0 sample_player 7 ''game.gba'' [] No_fault None
     (svc (sys (conc_run race_hasher sample_catalog [Read_upload sample_player 7 ''game.gba'' [],
        Read_upload sample_player 7 ''game.gba'' [], Write_upload 0 No_fault 0])))) = Inl upload_failed"
proof -
  let ?S = "conc_run race_hasher sample_catalog [Read_upload sample_player 7 ''game.gba'' [],
        Read_upload sample_player 7 ''game.gba'' [], Write_upload 0 No_fault 0]"
  have i: "inflight ?S = [Uploading sample_player 7 ''game.gba'' [] None]"
    by (simp add: race_eval)
  have p: "get_verification_by_rom_and_user (table (svc (sys ?S))) 7 (user_ident sample_player) \<noteq> None"
    by (simp add: race_eval)
  show ?thesis
    using conc_reachable_run i upload_commit_existing_pair [OF p, of race_hasher 0 "''game.gba''" "[]"]
    by blast
qed

subsection \<open>Serial schedules are the sequential service\<close>

lemma conc_exec_serial:
  assumes "inflight s = []"
  shows "fold (conc_exec h roms) (serial_events req) s = s\<lparr>sys := sys_step h roms req (sys s)\<rparr>"
proof (cases req)
  case (Upload u rid fn c fault now)
  then show ?thesis using assms
    by (cases "upload_check roms u rid fn (table (svc (sys s)))")
       (auto simp: conc_table_def drop_nth_def upload_rom_for_verification_def)
next
  case (Verify u vid approved n now now')
  then show ?thesis using assms
    by (cases "verify_decide roms now now' u vid approved n (table (svc (sys s)))")
       (auto simp: conc_table_def drop_nth_def verify_rom_ownership_def split: sum.splits)
qed simp_all

text \<open>
  The interleaving model contains the sequential service exactly: the
  schedule that runs every request's phases back to back reaches the state of
  the sequential run, with nothing left in flight.
\<close>

lemma serial_schedule_refines_sys:
  "conc_run h roms (concat (map serial_events reqs)) =
   \<lparr>sys = fold (sys_step h roms) reqs sys_init, inflight = []\<rparr>"
proof -
  have "fold (conc_exec h roms) (concat (map serial_events reqs)) s =
        s\<lparr>sys := fold (sys_step h roms) reqs (sys s)\<rparr>" if "inflight s = []" for s
    using that by (induction reqs arbitrary: s) (simp_all add: fold_append conc_exec_serial)
  then show ?thesis by (simp add: conc_run_def conc_init_def)
qed

subsection \<open>Every in-flight request completes\<close>

lemma conc_exec_complete_first:
  "inflight s = r # rs \<Longrightarrow> inflight (conc_exec h roms (complete_first now r) s) = rs"
  by (cases r) (simp_all add: drop_nth_def)

text \<open>
  The write phases never block: from any state, writing the first
  in-flight request once per in-flight request completes all of them, so
  every request that passed its read phase finishes after as many steps as
  there are requests in flight.
\<close>

lemma inflight_requests_complete:
  "inflight (fold (conc_exec h roms) (map (complete_first now) (inflight s)) s) = []"
proof (induction "inflight s" arbitrary: s)
  case Nil
  then show ?case by simp
next
  case (Cons r rs)
  then have "inflight (conc_exec h roms (complete_first now r) s) = rs"
    by (simp add: conc_exec_complete_first)
  with Cons.hyps(1) [of "conc_exec h roms (complete_first now r) s"] show ?case
    by (simp add: Cons.hyps(2) [symmetric])
qed

end
