(* ===== verification/Json_Encoding.thy ===== *)
theory Json_Encoding
  imports Rom_Verification_Api
begin

text \<open>
  The JSON encoding of datetimes (\<open>src/backend/endpoints/responses/base.py\<close>):
  every response schema derives from a \<open>BaseModel\<close> whose encoder writes a
  datetime with \<open>dt.isoformat()\<close>, first attaching UTC to a naive value.
  A Python datetime is its fields and an optional UTC offset
  (\<open>py_datetime\<close>); \<open>isoformat\<close> prints them as CPython's
  \<open>datetime.isoformat()\<close> does (zero-padded \<open>%04d\<close>/\<open>%02d\<close> fields, the
  fraction only when the microseconds are not zero, the offset as
  \<open>+HH:MM\<close> with \<open>:SS\<close> only when it has seconds). The model's timestamps
  (microseconds since the epoch, UTC) become datetimes through the proleptic
  Gregorian calendar (\<open>datetime_of_timestamp\<close>, the aware UTC datetime of
  the instant), computed by walking whole centuries, four-year blocks, years
  and months.

  Lemmas: reading back the encoder's output (\<open>read_isoformat\<close>, which reads
  the fixed positions) gives the datetime with a naive value read as UTC, so
  the encoding keeps the instant of every valid datetime; the calendar
  conversion is inverse to \<open>instant_of\<close> on Python's datetime range.
\<close>

subsection \<open>Decimal fields\<close>

definition digit_char :: "nat \<Rightarrow> char" where
  "digit_char d = ''0123456789'' ! d"

fun dec :: "nat \<Rightarrow> string" where
  "dec n = (if n < 10 then [digit_char n] else dec (n div 10) @ [digit_char (n mod 10)])"

text \<open>\<open>'%0*d' % (w, n)\<close>: the decimal digits of \<open>n\<close>, padded with zeros to width \<open>w\<close>.\<close>

definition zpad :: "nat \<Rightarrow> nat \<Rightarrow> string" where
  "zpad w n = replicate (w - length (dec n)) CHR ''0'' @ dec n"

definition read_nat :: "string \<Rightarrow> nat" where
  "read_nat s = foldl (\<lambda>acc c. 10 * acc + (of_char c - 48)) 0 s"

declare dec.simps [simp del]

subsection \<open>Datetimes and their ISO format\<close>

record py_datetime =
  dt_year :: nat
  dt_month :: nat
  dt_day :: nat
  dt_hour :: nat
  dt_minute :: nat
  dt_second :: nat
  dt_microsecond :: nat
  dt_tzinfo :: "int option"
    \<comment> \<open>\<open>utcoffset()\<close> in seconds; \<open>None\<close> for a naive datetime\<close>

definition is_leap :: "nat \<Rightarrow> bool" where
  "is_leap y \<longleftrightarrow> y mod 4 = 0 \<and> (y mod 100 \<noteq> 0 \<or> y mod 400 = 0)"

definition days_in_month :: "bool \<Rightarrow> nat \<Rightarrow> nat" where
  "days_in_month leap m =
     (if 1 \<le> m \<and> m \<le> 12
      then [31, if leap then 29 else 28, 31, 30, 31, 30, 31, 31, 30, 31, 30, 31] ! (m - 1) else 0)"

text \<open>The datetimes Python can represent (the checks of the constructor).\<close>

definition dt_valid :: "py_datetime \<Rightarrow> bool" where
  "dt_valid dt \<longleftrightarrow>
     1 \<le> dt_year dt \<and> dt_year dt \<le> 9999 \<and> 1 \<le> dt_month dt \<and> dt_month dt \<le> 12 \<and>
     1 \<le> dt_day dt \<and> dt_day dt \<le> days_in_month (is_leap (dt_year dt)) (dt_month dt) \<and>
     dt_hour dt < 24 \<and> dt_minute dt < 60 \<and> dt_second dt < 60 \<and> dt_microsecond dt < 1000000 \<and>
     (case dt_tzinfo dt of None \<Rightarrow> True | Some off \<Rightarrow> \<bar>off\<bar> < 86400)"

text \<open>CPython's \<open>_format_offset\<close> for an offset of whole seconds.\<close>

definition iso_offset :: "int \<Rightarrow> string" where
  "iso_offset off =
     (let a = nat \<bar>off\<bar>
      in (if off < 0 then CHR ''-'' else CHR ''+'') # zpad 2 (a div 3600) @ '':'' @ zpad 2 (a mod 3600 div 60) @
         (if a mod 60 \<noteq> 0 then '':'' @ zpad 2 (a mod 60) else []))"

text \<open>CPython's \<open>_format_time\<close> with \<open>timespec='auto'\<close>.\<close>

definition iso_time :: "nat \<Rightarrow> nat \<Rightarrow> nat \<Rightarrow> nat \<Rightarrow> string" where
  "iso_time hh mm ss us =
     zpad 2 hh @ '':'' @ zpad 2 mm @ '':'' @ zpad 2 ss @ (if us \<noteq> 0 then ''.'' @ zpad 6 us else [])"

definition isoformat :: "py_datetime \<Rightarrow> string" where
  "isoformat dt =
     zpad 4 (dt_year dt) @ ''-'' @ zpad 2 (dt_month dt) @ ''-'' @ zpad 2 (dt_day dt) @ ''T'' @
     iso_time (dt_hour dt) (dt_minute dt) (dt_second dt) (dt_microsecond dt) @
     (case dt_tzinfo dt of None \<Rightarrow> [] | Some off \<Rightarrow> iso_offset off)"

text \<open>
  The encoder of \<open>BaseModel\<close> (\<open>json_encoders[datetime]\<close>): an aware
  datetime as it is, a naive one with UTC attached.
\<close>

definition encode_datetime :: "py_datetime \<Rightarrow> string" where
  "encode_datetime dt =
     (if dt_tzinfo dt \<noteq> None then isoformat dt else isoformat (dt\<lparr>dt_tzinfo := Some 0\<rparr>))"

text \<open>Reading an encoded datetime back, field by field at its fixed positions.\<close>

definition read_offset :: "string \<Rightarrow> int option" where
  "read_offset r =
     (if r = [] then None
      else Some ((if hd r = CHR ''-'' then -1 else 1) *
        int (3600 * read_nat (take 2 (drop 1 r)) + 60 * read_nat (take 2 (drop 4 r)) + read_nat (take 2 (drop 7 r)))))"

definition read_isoformat :: "string \<Rightarrow> py_datetime" where
  "read_isoformat s =
     (let r = drop 19 s; frac = (take 1 r = ''.'')
      in \<lparr>dt_year = read_nat (take 4 s), dt_month = read_nat (take 2 (drop 5 s)),
          dt_day = read_nat (take 2 (drop 8 s)), dt_hour = read_nat (take 2 (drop 11 s)),
          dt_minute = read_nat (take 2 (drop 14 s)), dt_second = read_nat (take 2 (drop 17 s)),
          dt_microsecond = (if frac then read_nat (take 6 (drop 1 r)) else 0),
          dt_tzinfo = read_offset (if frac then drop 7 r else r)\<rparr>)"

subsection \<open>The proleptic Gregorian calendar\<close>

text \<open>
  Days before January 1 of year \<open>y\<close>, counted from 0001-01-01 (CPython's
  \<open>_days_before_year\<close>), and before the first of month \<open>m\<close>.
\<close>

definition days_in_year :: "nat \<Rightarrow> nat" where
  "days_in_year y = (if is_leap y then 366 else 365)"

definition days_before_year :: "nat \<Rightarrow> nat" where
  "days_before_year y = (let y' = y - 1 in y' * 365 + y' div 4 - y' div 100 + y' div 400)"

definition days_before_month :: "bool \<Rightarrow> nat \<Rightarrow> nat" where
  "days_before_month leap m = sum_list (map (days_in_month leap) [1..<m])"

text \<open>
  Walking a day count \<open>n\<close> forward from \<open>y\<close> in steps of \<open>k\<close> units, where
  \<open>F\<close> counts the days before a unit, while a whole step fits.
\<close>

function cwalk :: "(nat \<Rightarrow> nat) \<Rightarrow> nat \<Rightarrow> nat \<Rightarrow> nat \<Rightarrow> nat \<times> nat" where
  "cwalk F k y n =
     (let d = F (y + k) - F y in if 0 < d \<and> d \<le> n then cwalk F k (y + k) (n - d) else (y, n))"
  by pat_completeness auto
termination by (relation "measure (\<lambda>(F, k, y, n). n)") auto

declare cwalk.simps [simp del]

text \<open>
  The date of day \<open>n\<close> (0 is 0001-01-01): whole centuries, then four-year
  blocks, then years, then months.
\<close>

definition ymd_of_days :: "nat \<Rightarrow> nat \<times> nat \<times> nat" where
  "ymd_of_days n =
     (let (y1, n1) = cwalk days_before_year 100 1 n;
          (y2, n2) = cwalk days_before_year 4 y1 n1;
          (y, n3) = cwalk days_before_year 1 y2 n2;
          (m, n4) = cwalk (days_before_month (is_leap y)) 1 1 n3
      in (y, m, Suc n4))"

text \<open>
  A timestamp of the model as the aware UTC datetime it stands for, and the
  instant a datetime denotes (a naive one read as UTC, as the encoder does).
\<close>

definition datetime_of_timestamp :: "timestamp \<Rightarrow> py_datetime" where
  "datetime_of_timestamp t =
     (let (y, m, d) = ymd_of_days (nat (t div us_per_day + int (days_before_year 1970)));
          u = nat (t mod us_per_day); s = u div 1000000
      in \<lparr>dt_year = y, dt_month = m, dt_day = d, dt_hour = s div 3600, dt_minute = s mod 3600 div 60,
          dt_second = s mod 60, dt_microsecond = u mod 1000000, dt_tzinfo = Some 0\<rparr>)"

definition instant_of :: "py_datetime \<Rightarrow> timestamp" where
  "instant_of dt =
     (int (days_before_year (dt_year dt) + days_before_month (is_leap (dt_year dt)) (dt_month dt) + (dt_day dt - 1))
        - int (days_before_year 1970)) * us_per_day
     + int ((3600 * dt_hour dt + 60 * dt_minute dt + dt_second dt) * 1000000 + dt_microsecond dt)
     - (case dt_tzinfo dt of None \<Rightarrow> 0 | Some off \<Rightarrow> off) * us_per_second"

text \<open>The instants of \<open>datetime.min\<close> and \<open>datetime.max\<close> (years 1 to 9999).\<close>

definition datetime_min :: timestamp where
  "datetime_min = - int (days_before_year 1970) * us_per_day"

definition datetime_max :: timestamp where
  "datetime_max = int (days_before_year 10000 - days_before_year 1970) * us_per_day - 1"

subsection \<open>The verification schema\<close>

text \<open>
  \<open>RomVerificationSchema\<close>, built \<open>from_attributes\<close> of a row; no route
  returns it. \<open>updated_at\<close> is a column of the ORM base class, outside the
  slice, and is an input here.
\<close>

record rom_verification_schema =
  rvs_id :: ident
  rvs_rom_id :: ident
  rvs_user_id :: ident
  rvs_status :: verification_status
  rvs_uploaded_file_name :: string
  rvs_uploaded_file_size :: nat
  rvs_uploaded_md5_hash :: string
  rvs_uploaded_sha1_hash :: string
  rvs_verification_notes :: "string option"
  rvs_verified_at :: "timestamp option"
  rvs_verified_by :: "ident option"
  rvs_expires_at :: timestamp
  rvs_created_at :: timestamp
  rvs_updated_at :: timestamp

definition rom_verification_schema_of :: "timestamp \<Rightarrow> rom_verification \<Rightarrow> rom_verification_schema" where
  "rom_verification_schema_of updated v =
     \<lparr>rvs_id = ver_id v, rvs_rom_id = rom_id v, rvs_user_id = user_id v, rvs_status = status v,
      rvs_uploaded_file_name = uploaded_file_name v, rvs_uploaded_file_size = uploaded_file_size v,
      rvs_uploaded_md5_hash = uploaded_md5_hash v, rvs_uploaded_sha1_hash = uploaded_sha1_hash v,
      rvs_verification_notes = verification_notes v, rvs_verified_at = verified_at v,
      rvs_verified_by = verified_by v, rvs_expires_at = expires_at v, rvs_created_at = created_at v,
      rvs_updated_at = updated\<rparr>"

text \<open>A naive datetime with microseconds, on a leap day.\<close>

definition sample_naive_datetime :: py_datetime where
  "sample_naive_datetime =
     \<lparr>dt_year = 2024, dt_month = 2, dt_day = 29, dt_hour = 23, dt_minute = 59, dt_second = 59,
      dt_microsecond = 123456, dt_tzinfo = None\<rparr>"

subsection \<open>Lemmas on decimal fields\<close>

lemma digit_char_read [simp]: "d < 10 \<Longrightarrow> of_char (digit_char d) - 48 = (d::nat)"
  by (auto simp: digit_char_def less_Suc_eq numeral_eq_Suc)

lemma read_nat_Nil [simp]: "read_nat [] = 0"
  by (simp add: read_nat_def)

lemma read_nat_append [simp]: "read_nat (xs @ [c]) = 10 * read_nat xs + (of_char c - 48)"
  by (simp add: read_nat_def)

lemma read_nat_dec [simp]: "read_nat (dec n) = n"
proof (induction n rule: dec.induct)
  case (1 n)
  then show ?case by (subst dec.simps) (simp add: read_nat_def)
qed

lemma read_nat_zeros [simp]: "read_nat (replicate k CHR ''0'' @ s) = read_nat s"
proof -
  have "foldl (\<lambda>acc c. 10 * acc + (of_char c - 48)) 0 (replicate k CHR ''0'') = (0::nat)"
    by (induction k) simp_all
  then show ?thesis by (simp add: read_nat_def)
qed

lemma read_nat_zpad [simp]: "read_nat (zpad w n) = n"
  by (simp add: zpad_def)

lemma length_dec_le: "n < 10 ^ k \<Longrightarrow> 0 < k \<Longrightarrow> length (dec n) \<le> k"
proof (induction n arbitrary: k rule: dec.induct)
  case (1 n)
  show ?case
  proof (cases "n < 10")
    case True
    then show ?thesis using "1.prems" by (subst dec.simps) simp
  next
    case False
    then obtain j where j: "k = Suc j" using "1.prems" by (cases k) auto
    have "n div 10 < 10 ^ j" using "1.prems"(1) j by (simp add: less_mult_imp_div_less mult.commute)
    moreover have "0 < j" using False "1.prems"(1) j by (cases j) auto
    ultimately have "length (dec (n div 10)) \<le> j" using "1.IH" False by blast
    then show ?thesis using False j by (subst dec.simps) simp
  qed
qed

lemma replicate_numeral: "replicate (numeral n) x = x # replicate (pred_numeral n) x"
  by (simp add: numeral_eq_Suc)

lemma length_zpad [simp]: "n < 10 ^ w \<Longrightarrow> 0 < w \<Longrightarrow> length (zpad w n) = w"
  using length_dec_le [of n w] by (simp add: zpad_def)

subsection \<open>Reading back the encoding\<close>

lemma days_in_month_le: "days_in_month leap m \<le> 31"
  by (auto simp: days_in_month_def nth_Cons' less_Suc_eq_le)

lemma hms_split: "3600 * (a div 3600) + 60 * (a mod 3600 div 60) + a mod 60 = (a::nat)"
proof -
  have m: "a mod 3600 mod 60 = a mod 60" by (simp add: mod_mod_cancel)
  have "a mod 3600 = 60 * (a mod 3600 div 60) + a mod 3600 mod 60" by (rule mult_div_mod_eq [symmetric])
  moreover have "a = 3600 * (a div 3600) + a mod 3600" by (rule mult_div_mod_eq [symmetric])
  ultimately show ?thesis using m by linarith
qed

lemma read_iso_offset:
  assumes "\<bar>off\<bar> < 86400"
  shows "read_offset (iso_offset off) = Some off"
proof -
  let ?a = "nat \<bar>off\<bar>"
  have b: "?a div 3600 < 10 ^ 2" "?a mod 3600 div 60 < 10 ^ 2" "?a mod 60 < 10 ^ 2" using assms by auto
  have l: "length (zpad 2 (?a div 3600)) = 2" "length (zpad 2 (?a mod 3600 div 60)) = 2"
    using b by simp_all
  have h: "read_nat (take 2 (drop 1 (iso_offset off))) = ?a div 3600"
    "read_nat (take 2 (drop 4 (iso_offset off))) = ?a mod 3600 div 60"
    "read_nat (take 2 (drop 7 (iso_offset off))) = ?a mod 60"
    using l by (simp_all add: iso_offset_def Let_def)
  have s: "hd (iso_offset off) = (if off < 0 then CHR ''-'' else CHR ''+'')" "iso_offset off \<noteq> []"
    by (simp_all add: iso_offset_def Let_def)
  have "(if off < 0 then -1 else 1) * int ?a = off" by simp
  then show ?thesis using s(2) unfolding read_offset_def h s(1) hms_split by simp
qed

lemma read_offset_Nil [simp]: "read_offset [] = None"
  by (simp add: read_offset_def)

lemma iso_offset_hd: "take 1 (iso_offset off) \<noteq> ''.''"
  by (simp add: iso_offset_def Let_def)

lemma read_isoformat_isoformat:
  assumes "dt_valid dt"
  shows "read_isoformat (isoformat dt) = dt"
proof -
  let ?P = "zpad 4 (dt_year dt) @ ''-'' @ zpad 2 (dt_month dt) @ ''-'' @ zpad 2 (dt_day dt) @ ''T'' @
     zpad 2 (dt_hour dt) @ '':'' @ zpad 2 (dt_minute dt) @ '':'' @ zpad 2 (dt_second dt)"
  let ?F = "if dt_microsecond dt \<noteq> 0 then ''.'' @ zpad 6 (dt_microsecond dt) else []"
  let ?T = "case dt_tzinfo dt of None \<Rightarrow> [] | Some off \<Rightarrow> iso_offset off"
  have d: "dt_day dt \<le> 31"
    using assms days_in_month_le [of "is_leap (dt_year dt)" "dt_month dt"] by (simp add: dt_valid_def)
  have l: "length (zpad 4 (dt_year dt)) = 4" "length (zpad 2 (dt_month dt)) = 2" "length (zpad 2 (dt_day dt)) = 2"
    "length (zpad 2 (dt_hour dt)) = 2" "length (zpad 2 (dt_minute dt)) = 2" "length (zpad 2 (dt_second dt)) = 2"
    "length (zpad 6 (dt_microsecond dt)) = 6"
    using assms d by (simp_all add: dt_valid_def)
  have iso: "isoformat dt = ?P @ ?F @ ?T" by (simp add: isoformat_def iso_time_def)
  have "length ?P = 19" using l by simp
  then have p: "take 4 (?P @ r) = zpad 4 (dt_year dt)" "take 2 (drop 5 (?P @ r)) = zpad 2 (dt_month dt)"
    "take 2 (drop 8 (?P @ r)) = zpad 2 (dt_day dt)" "take 2 (drop 11 (?P @ r)) = zpad 2 (dt_hour dt)"
    "take 2 (drop 14 (?P @ r)) = zpad 2 (dt_minute dt)" "take 2 (drop 17 (?P @ r)) = zpad 2 (dt_second dt)"
    "drop 19 (?P @ r) = r" for r
    using l by simp_all
  have t: "read_offset ?T = dt_tzinfo dt"
    using assms read_iso_offset by (auto simp: dt_valid_def split: option.splits)
  have f: "(take 1 (?F @ ?T) = ''.'') = (dt_microsecond dt \<noteq> 0)"
    using iso_offset_hd by (auto split: option.splits)
  have u: "dt_microsecond dt \<noteq> 0 \<Longrightarrow> take 6 (drop 1 (?F @ ?T)) = zpad 6 (dt_microsecond dt) \<and>
      drop 7 (?F @ ?T) = ?T"
    using l by simp
  show ?thesis
  proof (cases "dt_microsecond dt = 0")
    case True
    then show ?thesis unfolding iso read_isoformat_def Let_def p f using t by simp
  next
    case False
    then show ?thesis unfolding iso read_isoformat_def Let_def p f using t u by simp
  qed
qed

subsection \<open>Calendar lemmas\<close>

lemma days_before_year_Suc:
  "0 < y \<Longrightarrow> days_before_year (Suc y) = days_before_year y + days_in_year y"
proof -
  assume "0 < y"
  then obtain k where k: "y = Suc k" by (cases y) auto
  have a: "y mod 100 = 0" if "y mod 400 = 0"
    using mod_mod_cancel [of 100 400 y] that by simp
  have b: "y mod 4 = 0" if "y mod 100 = 0"
    using mod_mod_cancel [of 4 100 y] that by simp
  have le: "k div 100 \<le> k div 4" by (rule div_le_mono2) simp_all
  show ?thesis
    using a b le unfolding k
    by (auto simp: days_before_year_def days_in_year_def is_leap_def div_Suc) linarith+
qed

lemma cwalk_step:
  "0 < F (y + k) - F y \<Longrightarrow> F (y + k) - F y \<le> n \<Longrightarrow>
   cwalk F k y n = cwalk F k (y + k) (n - (F (y + k) - F y))"
  by (subst cwalk.simps) (simp add: Let_def)

lemma cwalk_done:
  assumes "\<not> (0 < F (y + k) - F y \<and> F (y + k) - F y \<le> n)"
  shows "cwalk F k y n = (y, n)"
  by (subst cwalk.simps) (simp only: Let_def if_not_P [OF assms])

lemma cwalk_sum: "F (fst (cwalk F k y n)) + snd (cwalk F k y n) = F y + n"
proof (induction F k y n rule: cwalk.induct)
  case (1 F k y n)
  show ?case
  proof (cases "0 < F (y + k) - F y \<and> F (y + k) - F y \<le> n")
    case True
    moreover have "F (y + k) + (n - (F (y + k) - F y)) = F y + n" using True by linarith
    ultimately show ?thesis using "1.IH" [OF refl True] cwalk_step [of F y k n] by simp
  next
    case False
    then show ?thesis using cwalk_done [OF False] by simp
  qed
qed

lemma cwalk_stop:
  "F (fst (cwalk F k y n) + k) - F (fst (cwalk F k y n)) = 0 \<or>
   snd (cwalk F k y n) < F (fst (cwalk F k y n) + k) - F (fst (cwalk F k y n))"
proof (induction F k y n rule: cwalk.induct)
  case (1 F k y n)
  show ?case
  proof (cases "0 < F (y + k) - F y \<and> F (y + k) - F y \<le> n")
    case True
    then show ?thesis using "1.IH" [OF refl True] cwalk_step [of F y k n] by simp
  next
    case False
    then show ?thesis using cwalk_done [OF False] by auto
  qed
qed

lemma cwalk_ge: "y \<le> fst (cwalk F k y n)"
proof (induction F k y n rule: cwalk.induct)
  case (1 F k y n)
  show ?case
  proof (cases "0 < F (y + k) - F y \<and> F (y + k) - F y \<le> n")
    case True
    then show ?thesis using "1.IH" [OF refl True] cwalk_step [of F y k n] by simp
  next
    case False
    then show ?thesis using cwalk_done [OF False] by simp
  qed
qed


lemma days_before_year_one [simp]: "days_before_year (Suc 0) = 0"
  by (simp add: days_before_year_def)

lemma days_in_year_pos: "0 < days_in_year y"
  by (simp add: days_in_year_def)

lemma days_before_year_mono: "y \<le> y' \<Longrightarrow> days_before_year y \<le> days_before_year y'"
proof (induction y' rule: dec_induct)
  case (step n)
  have "days_before_year n \<le> days_before_year (Suc n)"
  proof (cases "n = 0")
    case True
    then show ?thesis by (simp add: days_before_year_def)
  next
    case False
    then show ?thesis by (simp add: days_before_year_Suc)
  qed
  then show ?case using step.IH by linarith
qed simp

lemma days_before_month_Suc:
  "1 \<le> m \<Longrightarrow> days_before_month leap (Suc m) = days_before_month leap m + days_in_month leap m"
  by (simp add: days_before_month_def)

lemma days_before_month_one [simp]: "days_before_month leap (Suc 0) = 0"
  by (simp add: days_before_month_def)


lemma days_before_month_year: "13 \<le> m \<Longrightarrow> days_before_month (is_leap y) m \<ge> days_in_year y"
proof -
  assume "13 \<le> m"
  then have "[1..<m] = [1..<13] @ [13..<m]" using upt_add_eq_append [of 1 13 "m - 13"] by simp
  moreover have "sum_list (map (days_in_month (is_leap y)) [1..<13]) = days_in_year y"
    by (simp add: upt_rec days_in_month_def days_in_year_def)
  ultimately show ?thesis by (simp add: days_before_month_def)
qed

lemma ymd_of_days_correct:
  assumes "ymd_of_days n = (y, m, d)"
  shows "days_before_year y + days_before_month (is_leap y) m + (d - 1) = n \<and>
    1 \<le> y \<and> 1 \<le> m \<and> m \<le> 12 \<and> 1 \<le> d \<and> d \<le> days_in_month (is_leap y) m"
proof -
  obtain y1 n1 where w1: "cwalk days_before_year 100 1 n = (y1, n1)" by fastforce
  obtain y2 n2 where w2: "cwalk days_before_year 4 y1 n1 = (y2, n2)" by fastforce
  obtain y3 n3 where w3: "cwalk days_before_year 1 y2 n2 = (y3, n3)" by fastforce
  obtain m4 n4 where w4: "cwalk (days_before_month (is_leap y3)) 1 1 n3 = (m4, n4)" by fastforce
  have r: "y = y3" "m = m4" "d = Suc n4" using assms w1 w2 w3 w4 by (simp_all add: ymd_of_days_def)
  have sum: "days_before_year y1 + n1 = n" "days_before_year y2 + n2 = days_before_year y1 + n1"
    "days_before_year y3 + n3 = days_before_year y2 + n2" "days_before_month (is_leap y3) m4 + n4 = n3"
    using cwalk_sum [of days_before_year 100 1 n] cwalk_sum [of days_before_year 4 y1 n1]
      cwalk_sum [of days_before_year 1 y2 n2] cwalk_sum [of "days_before_month (is_leap y3)" 1 1 n3] w1 w2 w3 w4
    by simp_all
  have y3: "1 \<le> y3" "1 \<le> m4"
    using cwalk_ge [of 1 days_before_year 100 n] cwalk_ge [of y1 days_before_year 4 n1]
      cwalk_ge [of y2 days_before_year 1 n2] cwalk_ge [of 1 "days_before_month (is_leap y3)" 1 n3] w1 w2 w3 w4
    by simp_all
  have "days_before_year (Suc y3) - days_before_year y3 = days_in_year y3"
    using y3(1) by (simp add: days_before_year_Suc)
  then have n3: "n3 < days_in_year y3"
    using cwalk_stop [of days_before_year 1 y2 n2] w3 days_in_year_pos [of y3] by simp linarith
  have m4: "m4 \<le> 12"
  proof (rule ccontr)
    assume "\<not> m4 \<le> 12"
    then have "days_in_year y3 \<le> days_before_month (is_leap y3) m4" by (simp add: days_before_month_year)
    then show False using sum(4) n3 by linarith
  qed
  have "days_before_month (is_leap y3) (Suc m4) - days_before_month (is_leap y3) m4 = days_in_month (is_leap y3) m4"
    using y3(2) by (simp add: days_before_month_Suc)
  moreover have "0 < days_in_month (is_leap y3) m4"
    using y3(2) m4 by (auto simp: days_in_month_def nth_Cons' numeral_eq_Suc)
  ultimately have n4: "n4 < days_in_month (is_leap y3) m4"
    using cwalk_stop [of "days_before_month (is_leap y3)" 1 1 n3] w4 by auto
  show ?thesis using r sum y3 m4 n4 by simp
qed

subsection \<open>Timestamps as datetimes\<close>

lemmas iso_eval = encode_datetime_def isoformat_def iso_time_def iso_offset_def zpad_def dec.simps
  digit_char_def replicate_numeral Let_def

lemmas calendar_eval = datetime_of_timestamp_def ymd_of_days_def cwalk.simps days_before_year_def
  days_before_month_def days_in_month_def is_leap_def

lemma us_per_day_num: "us_per_day = 86400000000"
  by (simp add: us_per_day_def us_per_second_def)

lemma timestamp_day_range:
  assumes "datetime_min \<le> t" "t \<le> datetime_max"
  shows "0 \<le> t div us_per_day + int (days_before_year 1970)"
    "t div us_per_day + int (days_before_year 1970) < int (days_before_year 10000)"
proof -
  let ?D = us_per_day and ?E = "int (days_before_year 1970)" and ?X = "int (days_before_year 10000)"
  have "- ?E * ?D \<le> t" using assms(1) by (simp add: datetime_min_def)
  then have "(- ?E * ?D) div ?D \<le> t div ?D" by (rule zdiv_mono1) (simp add: us_per_day_num)
  then show "0 \<le> t div ?D + ?E" by (simp add: us_per_day_num)
  have "days_before_year 1970 \<le> days_before_year 10000" by (rule days_before_year_mono) simp
  then have "t < (?X - ?E) * ?D" using assms(2) by (simp add: datetime_max_def of_nat_diff)
  moreover have "?D * (t div ?D) \<le> t"
    using mult_div_mod_eq [of ?D t] pos_mod_sign [of ?D t] by (simp add: us_per_day_num)
  ultimately have "?D * (t div ?D) < ?D * (?X - ?E)" by (simp add: mult.commute)
  then show "t div ?D + ?E < ?X" by (simp add: us_per_day_num)
qed

lemma datetime_of_timestamp_correct:
  assumes "datetime_min \<le> t" "t \<le> datetime_max"
  shows "dt_valid (datetime_of_timestamp t) \<and> instant_of (datetime_of_timestamp t) = t"
proof -
  let ?D = us_per_day and ?E = "int (days_before_year 1970)"
  define n where "n = nat (t div ?D + ?E)"
  obtain y m d where ymd: "ymd_of_days n = (y, m, d)" by (metis prod_cases3)
  note c = ymd_of_days_correct [OF ymd]
  have n: "int n = t div ?D + ?E" "n < days_before_year 10000"
    using timestamp_day_range [OF assms] by (simp_all add: n_def)
  have y: "y \<le> 9999"
  proof (rule ccontr)
    assume "\<not> y \<le> 9999"
    then have "days_before_year 10000 \<le> days_before_year y" by (simp add: days_before_year_mono)
    then show False using c n(2) by linarith
  qed
  define u where "u = nat (t mod ?D)"
  have u: "u < 86400000000" "int u = t mod ?D" by (simp_all add: u_def us_per_day_num)
  define s where "s = u div 1000000"
  have s: "s < 86400" using u(1) by (simp add: s_def less_mult_imp_div_less)
  have dt: "datetime_of_timestamp t =
      \<lparr>dt_year = y, dt_month = m, dt_day = d, dt_hour = s div 3600, dt_minute = s mod 3600 div 60,
       dt_second = s mod 60, dt_microsecond = u mod 1000000, dt_tzinfo = Some 0\<rparr>"
    using ymd by (simp add: datetime_of_timestamp_def n_def u_def s_def Let_def)
  have hm: "s div 3600 < 24" "s mod 3600 div 60 < 60"
    using s by (simp_all add: less_mult_imp_div_less)
  have "dt_valid (datetime_of_timestamp t)" using c y hm by (simp add: dt dt_valid_def)
  moreover have "int ((3600 * (s div 3600) + 60 * (s mod 3600 div 60) + s mod 60) * 1000000 + u mod 1000000) = t mod ?D"
    unfolding hms_split s_def using u(2) by simp
  then have "instant_of (datetime_of_timestamp t) = (t div ?D) * ?D + t mod ?D"
    using c n(1) by (simp add: dt instant_of_def)
  ultimately show ?thesis by simp
qed

lemma datetime_of_timestamp_time:
  assumes "t mod us_per_day = 86399 * us_per_second + r" "0 \<le> r" "r < us_per_second"
  shows "dt_hour (datetime_of_timestamp t) = 23 \<and> dt_minute (datetime_of_timestamp t) = 59 \<and>
    dt_second (datetime_of_timestamp t) = 59 \<and> dt_microsecond (datetime_of_timestamp t) = nat r \<and>
    dt_tzinfo (datetime_of_timestamp t) = Some 0"
proof -
  have u: "nat (t mod us_per_day) = 86399000000 + nat r" using assms by (simp add: us_per_second_def nat_add_distrib)
  have "nat r < 1000000" using assms(3) by (simp add: us_per_second_def)
  moreover have "86399000000 + nat r = nat r + 86399 * 1000000" by simp
  ultimately have "(86399000000 + nat r) div 1000000 = 86399" "(86399000000 + nat r) mod 1000000 = nat r"
    by (simp_all only: div_mult_self1 mod_mult_self1) simp_all
  then show ?thesis by (simp add: datetime_of_timestamp_def Let_def u split: prod.splits)
qed

lemma datetime_of_timestamp_date:
  "t div us_per_day = t' div us_per_day \<Longrightarrow>
   dt_year (datetime_of_timestamp t) = dt_year (datetime_of_timestamp t') \<and>
   dt_month (datetime_of_timestamp t) = dt_month (datetime_of_timestamp t') \<and>
   dt_day (datetime_of_timestamp t) = dt_day (datetime_of_timestamp t')"
  by (simp add: datetime_of_timestamp_def Let_def split: prod.splits)

lemma isoformat_date_prefix:
  assumes "dt_valid dt"
  shows "take 11 (isoformat dt) = zpad 4 (dt_year dt) @ ''-'' @ zpad 2 (dt_month dt) @ ''-'' @ zpad 2 (dt_day dt) @ ''T''"
proof -
  have "dt_day dt \<le> 31"
    using assms days_in_month_le [of "is_leap (dt_year dt)" "dt_month dt"] by (simp add: dt_valid_def)
  then have "length (zpad 4 (dt_year dt)) = 4" "length (zpad 2 (dt_month dt)) = 2" "length (zpad 2 (dt_day dt)) = 2"
    using assms by (simp_all add: dt_valid_def)
  then show ?thesis by (simp add: isoformat_def)
qed

lemma zpad_small [simp]: "zpad 2 0 = ''00''" "zpad 2 23 = ''23''" "zpad 2 59 = ''59''"
  by (simp_all add: zpad_def dec.simps digit_char_def)

text \<open>
  Two concrete encodings: a deadline of a row created at 1000000123 (the
  creation's microseconds 000123 stay in the fraction) and midnight of
  2024-05-01 (no fraction).
\<close>

lemma json_deadline_sample:
  "encode_datetime (datetime_of_timestamp (default_expires_at 1000000123)) = ''1970-01-01T23:59:59.000123+00:00''"
  by (simp add: calendar_eval iso_eval default_expires_at_def us_per_day_num us_per_second_def)

lemma json_midnight_sample:
  "encode_datetime (datetime_of_timestamp 1714521600000000) = ''2024-05-01T00:00:00+00:00''"
  by (simp add: calendar_eval iso_eval us_per_day_num)

text \<open>
  C10: the encoder is lossless: reading back the JSON string of any valid
  datetime gives the datetime itself, a naive one with UTC attached, and
  so the same instant.
\<close>

theorem encode_datetime_roundtrip:
  assumes "dt_valid dt"
  shows "read_isoformat (encode_datetime dt) =
      dt\<lparr>dt_tzinfo := Some (case dt_tzinfo dt of None \<Rightarrow> 0 | Some off \<Rightarrow> off)\<rparr> \<and>
    instant_of (read_isoformat (encode_datetime dt)) = instant_of dt"
proof (cases "dt_tzinfo dt")
  case None
  have "dt_valid (dt\<lparr>dt_tzinfo := Some 0\<rparr>)" using assms by (simp add: dt_valid_def)
  then show ?thesis using None read_isoformat_isoformat by (simp add: encode_datetime_def instant_of_def)
next
  case (Some off)
  then show ?thesis using assms read_isoformat_isoformat by (simp add: encode_datetime_def)
qed

lemma encode_sample_naive_datetime:
  "encode_datetime sample_naive_datetime = ''2024-02-29T23:59:59.123456+00:00''"
  by (simp add: sample_naive_datetime_def iso_eval)

lemma encode_datetime_roundtrip_witness:
  "dt_valid sample_naive_datetime \<and>
   read_isoformat (encode_datetime sample_naive_datetime) = sample_naive_datetime\<lparr>dt_tzinfo := Some 0\<rparr>"
proof -
  have v: "dt_valid sample_naive_datetime"
    by (simp add: dt_valid_def sample_naive_datetime_def is_leap_def days_in_month_def)
  show ?thesis using v encode_datetime_roundtrip [OF v] by (simp add: sample_naive_datetime_def)
qed

text \<open>
  C11: in the JSON of a response, the default deadline of a row created at
  \<open>t\<close> is the creation date, then \<open>23:59:59\<close>, then the creation time's
  microseconds as a fraction when they are not zero, then \<open>+00:00\<close>: the
  same field is written in two formats, and it is not 23:59:59 UTC.
\<close>

theorem json_deadline_format:
  assumes "datetime_min \<le> t" "t \<le> datetime_max"
  shows "encode_datetime (datetime_of_timestamp (default_expires_at t)) =
    take 11 (encode_datetime (datetime_of_timestamp t)) @ ''23:59:59'' @
    (if t mod us_per_second \<noteq> 0 then ''.'' @ zpad 6 (nat (t mod us_per_second)) else []) @ ''+00:00''"
proof -
  let ?dt = "datetime_of_timestamp t" and ?de = "datetime_of_timestamp (default_expires_at t)"
  have v: "dt_valid ?dt" using datetime_of_timestamp_correct [OF assms] by blast
  have tz: "dt_tzinfo ?dt = Some 0" by (simp add: datetime_of_timestamp_def Let_def split: prod.splits)
  have r: "0 \<le> t mod us_per_second" "t mod us_per_second < us_per_second" by (simp_all add: us_per_second_def)
  have time: "dt_hour ?de = 23 \<and> dt_minute ?de = 59 \<and> dt_second ?de = 59 \<and>
      dt_microsecond ?de = nat (t mod us_per_second) \<and> dt_tzinfo ?de = Some 0"
    using datetime_of_timestamp_time [OF _ r] default_expires_at_same_day by blast
  have date: "dt_year ?de = dt_year ?dt \<and> dt_month ?de = dt_month ?dt \<and> dt_day ?de = dt_day ?dt"
    using datetime_of_timestamp_date default_expires_at_same_day by blast
  have "nat (t mod us_per_second) \<noteq> 0 \<longleftrightarrow> t mod us_per_second \<noteq> 0" using r(1) by simp
  then show ?thesis using time date tz
    by (simp add: encode_datetime_def isoformat_date_prefix [OF v])
       (simp add: isoformat_def iso_time_def iso_offset_def)
qed

lemma json_deadline_format_witness:
  "datetime_min \<le> 1000000123 \<and> (1000000123::timestamp) \<le> datetime_max \<and>
   encode_datetime (datetime_of_timestamp (default_expires_at 1000000123)) =
    take 11 (encode_datetime (datetime_of_timestamp 1000000123)) @ ''23:59:59'' @
    (if 1000000123 mod us_per_second \<noteq> 0 then ''.'' @ zpad 6 (nat (1000000123 mod us_per_second)) else []) @
    ''+00:00''"
proof -
  have r: "datetime_min \<le> 1000000123" "(1000000123::timestamp) \<le> datetime_max"
    by (simp_all add: datetime_min_def datetime_max_def days_before_year_def us_per_day_num)
  show ?thesis using r json_deadline_format [OF r] by blast
qed

end
