(* ===== verification/Spec2Isabelle.thy ===== *)
theory Spec2Isabelle
  imports Interleaving Schema_Migration Json_Encoding
begin

text \<open>
  \<^bold>\<open>ROM ownership verification in RomM: a shallow embedding.\<close>

  The program. A user uploads their own copy of a catalogued ROM; the server
  hashes it (MD5, SHA-1) and keeps one verification row per (ROM, user) pair
  in the table \<open>rom_verifications\<close>; an admin approves or rejects it, and an
  approval checks the uploaded digests against the ROM's; a scheduled task
  marks pending rows past their deadline as expired. The parts and how they
  interact:
  \<^item> the entity \<open>RomVerification\<close> and its status enum
    (\<open>src/backend/models/rom_verification.py\<close>), with the deadline default,
    \<open>is_expired\<close>, \<open>can_verify\<close> and the three mutators;
  \<^item> the database handler \<open>DBRomVerificationHandler\<close>
    (\<open>src/backend/handler/database/rom_verification_handler.py\<close>) over the
    table whose constraints are created by the migration
    \<open>src/backend/alembic/versions/0051_add_rom_verification.py\<close>;
  \<^item> the six routes of \<open>src/backend/endpoints/rom_verification.py\<close> and the
    response schemas of \<open>src/backend/endpoints/responses/\<close>, which call the
    handler, the ROM catalog and the authenticated user;
  \<^item> the periodic task of
    \<open>src/backend/tasks/scheduled/cleanup_expired_verifications.py\<close>,
    registered by \<open>src/backend/startup.py\<close>, which calls the handler's sweep.

  The theories, in import order:
  \<^item> \<open>Prelude\<close>: identifiers and timestamps (microseconds since the epoch, as
    \<open>int\<close>: Python's integers and floor division), the Python string builtins
    the code calls (\<open>lower\<close>, \<open>endswith\<close>, truthiness, \<open>x or d\<close>), and list
    lemmas shared by the table proofs; the collection \<open>model_simps\<close>.
  \<^item> \<open>Verification_Model\<close>: the record \<open>rom_verification\<close> (one field per
    column), \<open>verification_status\<close>, the keyword arguments of the constructor
    and of \<open>update().values(**data)\<close> as a list of \<open>verification_field\<close>s,
    \<open>default_expires_at\<close>, \<open>is_expired\<close>, \<open>can_verify\<close>,
    \<open>verify_ownership\<close>, \<open>reject_verification\<close>, \<open>mark_expired\<close>.
  \<^item> \<open>Verification_Store\<close>: the table as a list of rows in insertion order with
    the autoincrement counter (\<open>verification_db\<close>); one definition per handler
    method; the constraint violations as \<open>db_error\<close> values
    (\<open>IntegrityError\<close>, \<open>DataError\<close>, \<open>NoResultFound\<close>); the writes as one
    interface (\<open>store_op\<close>, \<open>store_step\<close>); the constraints as the invariant
    \<open>db_wf\<close>. Each handler method is its own transaction (\<open>begin_session\<close>):
    an error leaves the table unchanged.
  \<^item> \<open>Rom_Verification_Api\<close>: the routes, with the service state
    (\<open>service_state\<close>: the table and the temporary files on disk), the
    collaborators as parameters (catalog, user table, the digest functions as
    the interface record \<open>'b hasher\<close>), every \<open>HTTPException\<close> as a value,
    and file-system faults as an input (\<open>io_fault\<close>). Every
    \<open>datetime.now\<close> the code evaluates is its own clock reading, an input:
    the decision reads the clock in \<open>can_verify\<close> and again when it stamps
    the decision; the status route and each pending entry read it once for
    \<open>can_verify\<close> and once for \<open>is_expired\<close>. Upload and decision are
    each a read phase and a write phase (\<open>upload_check\<close>/\<open>upload_commit\<close>,
    \<open>verify_decide\<close>/\<open>verify_persist\<close>) composed as the handler composes them.
  \<^item> \<open>Cleanup_Task\<close>: the task's scheduled flag, \<open>cleanup_task_init\<close>
    (startup) and \<open>cleanup_run\<close>; the commit outcome is an input.
    \<open>startup_main\<close> is the registration of \<open>startup.main\<close> for all four
    periodic tasks (\<open>startup_flags\<close>, \<open>startup_tasks\<close>); the service's
    \<open>Startup\<close> step is its part for the sweep (\<open>startup_main_cleanup\<close>).
  \<^item> \<open>Service_System\<close>: the whole service as a state machine. Its state
    (\<open>sys_state\<close>) is the routes' service state with the task; a
    \<open>request\<close> is an upload, a decision, a run of the task or startup, each
    with the clock readings it makes; \<open>sys_step\<close> applies the route or the run
    (a run only while the task is scheduled: the scheduler of
    \<open>tasks/tasks.py\<close> is outside the slice), and \<open>reachable\<close> closes the
    initial state under steps. Two specifications of a row's history:
    \<open>row_step\<close> (what one request may do to one row) with \<open>row_new\<close>, and the
    spec's state machine \<open>lifecycle\<close> on the status of a (ROM, user) pair
    (\<open>pair_status\<close>).
  \<^item> \<open>Interleaving\<close>: concurrent requests. The upload route awaits the file
    read between its checks and its write, the decision route reads and
    writes the row in two handler transactions, and the task runs in its own
    worker; so an \<open>event\<close> is a whole request (\<open>Atomic\<close>), the read phase of
    an upload or a decision (which leaves an \<open>inflight\<close> request holding what
    it read: \<open>upload_check\<close>'s existing row, \<open>verify_decide\<close>'s decided row),
    or the write phase of an in-flight request (\<open>upload_commit\<close>,
    \<open>verify_persist\<close>) on the table as it is then. \<open>conc_exec\<close> runs one
    event, \<open>conc_run\<close> a schedule, \<open>conc_reachable\<close> closes under events;
    \<open>complete_first\<close> is the write event that finishes the first in-flight
    request.
  \<^item> \<open>Schema_Migration\<close>: migration 0051 and the ORM's column mapping as data.
    A schema (\<open>db_schema\<close>) has enum types, tables and indexes; \<open>ddl_exec\<close>
    is one DDL statement on a \<open>dialect\<close> (PostgreSQL, where an enum is a
    named type that the creation of a table with an \<open>sa.Enum\<close> column also
    creates; MySQL, where it is inline) with its errors (\<open>ddl_error\<close>),
    \<open>ddl_run\<close> a migration in one transaction; \<open>upgrade_ops\<close> and \<open>downgrade_ops\<close> are
    the statements of \<open>upgrade()\<close> and \<open>downgrade()\<close>, in order, with the
    table \<open>rom_verifications_table\<close> (columns, types, NOT NULL, server
    defaults, keys). \<open>orm_row\<close> is the row the ORM binds, with the status
    written by an encoding; \<open>orm_status_label\<close> is the encoding of
    \<open>Enum(VerificationStatus)\<close> (member names); \<open>table_ok\<close> checks the
    declared types and keys.
  \<^item> \<open>Json_Encoding\<close>: how responses write datetimes
    (\<open>responses/base.py\<close>). A Python datetime is a record of its fields and
    an optional UTC offset (\<open>py_datetime\<close>); \<open>isoformat\<close> is CPython's
    \<open>datetime.isoformat()\<close> (zero-padded fields, a fraction only for non-zero
    microseconds, the offset as \<open>+HH:MM\<close>); \<open>encode_datetime\<close> is the
    \<open>json_encoders\<close> entry of \<open>BaseModel\<close>, which attaches UTC to a naive
    value; \<open>read_isoformat\<close> reads the fields back. A timestamp of the model
    is the aware UTC datetime \<open>datetime_of_timestamp\<close>, through the
    proleptic Gregorian calendar (\<open>ymd_of_days\<close>: a walk, \<open>cwalk\<close>, over
    centuries, four-year blocks, years and months, each a \<open>function\<close> with a
    measure), and \<open>instant_of\<close> is the instant a datetime denotes. The
    record \<open>rom_verification_schema\<close> is \<open>RomVerificationSchema\<close>.

  What the lemmas show.
  \<^item> Model: the deadline is on the creation day, never before creation, at
    23:59:59 plus the creation time's microseconds (\<open>replace\<close> keeps them);
    \<open>can_verify\<close> is "pending and not past the deadline".
  \<^item> Store: every write keeps the constraints; insert then lookup by id and by
    pair finds the row; an insert conflicts exactly when the pair exists; the
    sweep loop (mark, merge, one commit) equals one pass over the table and is
    idempotent; statistics add up; listings are the filtered rows, newest first;
    an update writes exactly its fields.
  \<^item> Routes: the decision on every branch (match, mismatch, reject, refused,
    not found, non-admin), with the default notes; the upload on every branch,
    including the order of its checks, the first upload, the re-upload and the
    temporary file; the status projection; the digest rule (case-insensitive
    OR, empty reference never matches); the pending list, whose entries take
    \<open>can_verify\<close> and \<open>is_expired\<close> from two clock readings and so report
    both true when the deadline falls between them.
  \<^item> Task: a run changes only pending overdue rows, to EXPIRED; after
    startup with the flag on, one successful run leaves no pending row past
    its deadline and keeps the task scheduled.
  \<^item> Service: every request changes the table by \<open>row_step\<close>s in place and
    appended \<open>row_new\<close> rows (\<open>sys_step_evolves\<close>), so it refines the
    lifecycle pair by pair; the invariant \<open>sys_inv\<close> (the table's
    constraints, fresh distinct temporary files, and \<open>row_inv\<close> on every
    row) holds in every reachable state: one row per pair, decided rows name
    their reviewer, a VERIFIED row matches its ROM's digest, and no request
    changes a VERIFIED row; no request moves a deadline, which stays the
    default of the row's creation time; a request keeps
    every row it does not address (\<open>request_touches\<close>, through the
    restricted relation \<open>table_evolves_for\<close>), so requests on different
    pairs are independent, as spec section 5 asks; the caller's
    verified list therefore never fails and lists every VERIFIED row of the
    caller with its decision time. A concrete run
    (upload, rejection, re-upload) reaches a PENDING row with review fields.
    Over traces (\<open>fold (sys_step h roms) reqs\<close>, every request stamped no
    earlier than \<open>t\<close>, \<open>request_after\<close>): a row that is not VERIFIED and
    past its deadline at \<open>t\<close> never becomes VERIFIED, since a row step keeps
    the deadline and an approval needs \<open>can_verify\<close>
    (\<open>late_row_never_verified\<close>).
  \<^item> Interleaving: the table's constraints hold under every schedule; the
    row-level guarantees of the sequential service do not. In every
    reachable state the write of an in-flight decision puts the decided
    fields over whatever the row holds by then
    (\<open>write_verify_overwrites\<close>), and the write of an in-flight upload
    rewrites the caller's row to PENDING whatever its status
    (\<open>write_upload_overwrites\<close>); their witnesses are a VERIFIED row whose
    digests match nothing (approval read before a re-upload) and a VERIFIED
    row reset to PENDING (upload read before the approval); a decision read
    before the sweep turns an EXPIRED row VERIFIED. An upload that read "no
    row" fails with 500 once the row exists. The interleaving model contains
    the sequential one: the schedule running each request's phases back to
    back (\<open>serial_events\<close>) reaches the state of \<open>fold sys_step\<close>.
  \<^item> JSON: reading back the encoder's output gives every valid datetime
    (a naive one with UTC attached), so the instant is kept; the calendar
    conversion is inverse to \<open>instant_of\<close> on Python's range (years 1 to
    9999, \<open>datetime_min\<close> to \<open>datetime_max\<close>); the default deadline is
    written as the creation date, \<open>23:59:59\<close>, the creation microseconds
    when they are not zero, and \<open>+00:00\<close>.
  \<^item> Migration: on PostgreSQL the upgrade always fails, since
    \<open>op.create_table\<close> creates the enum type again after the explicit
    \<open>create\<close>; on MySQL upgrade then downgrade is the identity on a
    consistent schema without its objects, and a second upgrade fails; the
    Python enum's values are the type's labels, but the member names the ORM
    binds are not.

  What the modelling showed: a re-upload resets
  the status to PENDING but keeps the reviewer, decision time and notes of an
  earlier rejection and the original deadline, so a pending row can carry
  review fields and a re-upload after the deadline is born expired (and,
  by \<open>late_row_never_verified\<close>, that pair can never be verified again); a fault
  while reading or writing the upload leaves the temporary file on disk; the
  deadline keeps the creation time's microseconds; the ORM binds the status
  by member name (\<open>PENDING\<close>) where the migration's type has the values
  (\<open>pending\<close>); migration 0051 cannot run on PostgreSQL (duplicate type);
  the decision time is read after the deadline check, so a VERIFIED row may
  carry a decision time past its deadline, and the two readings of
  \<open>can_verify\<close> and \<open>is_expired\<close> can disagree at the deadline; in JSON a
  deadline is written with a fraction or without one depending on the
  creation's microseconds. Neither the upload nor
  the decision re-checks at write time what it checked at read time, which
  the spec requires of the decision; the races above follow.

  Bounds and fuel: no loop of the slice is unbounded (the sweep iterates over
  a finite query result), so every definition is total; the calendar walk
  \<open>cwalk\<close> terminates by the measure of the remaining days; no fuel is
  needed. The conversion of timestamps is proved on Python's datetime range,
  outside which a timestamp has no datetime.

  Not modelled: logging; Pydantic's serialisation beyond the datetime
  encoder (field order, \<open>null\<close>, numbers) and offsets with sub-second parts
  (the model's datetimes are UTC); \<open>updated_at\<close> of
  \<open>RomVerificationSchema\<close> (a column of the ORM base class outside the
  slice, an input of \<open>rom_verification_schema_of\<close>); the
  scheduler's cron handling and \<open>tasks/tasks.py\<close> (a run is modelled as
  happening only while scheduled); the other scheduled tasks' runs (only their
  registration is modelled) and the fixture cache loading of
  \<open>startup.py\<close> (writes to the Redis cache of other components); the handler
  singletons of \<open>handler/database/__init__.py\<close> (module-level construction,
  no behaviour); the enforcement of foreign keys and their ON DELETE actions
  (the \<open>roms\<close> and \<open>users\<close> tables are outside the slice: the keys are
  recorded as data only); of the dialect-specific DDL only the enum's type
  is modelled (PostgreSQL and MySQL); the handler's \<open>delete_verification\<close> in the service (no route
  calls it; it is a store operation only); authentication itself (the
  authenticated user is an input); an insert takes its creation time and
  the deadline default from one clock reading, where the code has two (the
  database's \<open>now()\<close> for \<open>created_at\<close> and Python's clock for the
  default of \<open>expires_at\<close>), so their skew is not modelled. \<open>Rom\<close>, \<open>User\<close> and \<open>Role\<close> are not in
  the slice and are modelled from the spec with the fields the routes read.

  Left open: the read-only routes under interleaving. Each handler read is
  one query and is atomic here, so a listing reflects one state of the
  table; the database's isolation level below one handler call is not
  modelled.
\<close>

end
